(* ===== verification/Prelude.thy ===== *)
theory Prelude
  imports Main
    "HOL-Library.Multiset"
    "HOL-Library.List_Lexorder"
    "HOL-Library.Char_ord"
    "HOL-Library.AList"
begin

text \<open>
  What every component shares: Go strings as byte lists, Go maps as association lists
  with distinct keys, the result type of a fallible call, and the generic facts on lists
  and maps that the component proofs use.

  A Go \<open>string\<close> is a sequence of bytes and is compared bytewise; HOL's \<open>string\<close>
  (\<open>char list\<close>, a \<open>char\<close> is one byte) with the lexicographic order of
  \<open>List_Lexorder\<close> over the byte order of \<open>Char_ord\<close> is that order.

  A Go map is written as an association list. Only the operations below touch it, so its keys
  stay distinct and only \<open>map_of\<close> is observable; where the source ranges over a map the
  iteration order is left to the environment (theory \<open>Kube\<close>) or the source sorts the keys.
\<close>

named_theorems go_simps \<open>equations of the operations on Go data that proofs unfold\<close>

type_synonym ('k, 'v) gomap = "('k \<times> 'v) list"

abbreviation map_set :: "'k \<Rightarrow> 'v \<Rightarrow> ('k, 'v) gomap \<Rightarrow> ('k, 'v) gomap" where
  "map_set k v m \<equiv> AList.update k v m"

abbreviation map_delete :: "'k \<Rightarrow> ('k, 'v) gomap \<Rightarrow> ('k, 'v) gomap" where
  "map_delete k m \<equiv> AList.delete k m"

abbreviation map_keys :: "('k, 'v) gomap \<Rightarrow> 'k list" where
  "map_keys m \<equiv> map fst m"

definition wf_map :: "('k, 'v) gomap \<Rightarrow> bool" where
  "wf_map m \<longleftrightarrow> distinct (map_keys m)"

lemma wf_map_Nil [simp]: "wf_map []"
  by (simp add: wf_map_def)

lemma wf_map_set [simp]: "wf_map m \<Longrightarrow> wf_map (map_set k v m)"
  by (simp add: wf_map_def distinct_update)

lemma wf_map_delete [simp]: "wf_map m \<Longrightarrow> wf_map (map_delete k m)"
  by (simp add: wf_map_def distinct_delete)

lemma map_of_map_set [simp]: "map_of (map_set k v m) = (map_of m)(k \<mapsto> v)"
  by (rule AList.update_conv')

lemma map_of_map_delete [simp]: "map_of (map_delete k m) = (map_of m)(k := None)"
  by (rule AList.delete_conv')

lemma set_keys_map_set [simp]: "set (map_keys (map_set k v m)) = insert k (set (map_keys m))"
  by (simp add: dom_update)

lemma set_keys_dom: "set (map_keys m) = dom (map_of m)"
  by (simp add: dom_map_of_conv_image_fst)

lemma wf_map_in_set_iff: "wf_map m \<Longrightarrow> (k, v) \<in> set m \<longleftrightarrow> map_of m k = Some v"
  by (auto simp: wf_map_def)

lemma fold_map_set_keys:
  "set (map_keys (fold (\<lambda>x m. map_set (f x) (g x) m) xs m)) = f ` set xs \<union> set (map_keys m)"
proof (induction xs arbitrary: m)
  case Nil
  then show ?case by simp
next
  case (Cons x xs)
  show ?case
    unfolding fold_simps Cons.IH comp_def set_keys_map_set by auto
qed

lemma fold_map_set_wf:
  "wf_map m \<Longrightarrow> wf_map (fold (\<lambda>x m. map_set (f x) (g x) m) xs m)"
  by (induction xs arbitrary: m) simp_all

text \<open>The last write of a key wins.\<close>

lemma map_of_fold_map_set:
  "map_of (fold (\<lambda>x m. map_set (f x) (g x) m) xs m) k =
    (case filter (\<lambda>x. f x = k) (rev xs) of [] \<Rightarrow> map_of m k | x # _ \<Rightarrow> Some (g x))"
  by (induction xs arbitrary: m rule: rev_induct) (auto simp: fold_append)

subsection \<open>Lists\<close>

lemma fold_append_concat:
  assumes "\<And>x acc. step x acc = acc @ f x"
  shows "fold step xs acc = acc @ concat (map f xs)"
  by (induction xs arbitrary: acc) (simp_all add: assms)

lemma replicate_numeral: "replicate (numeral k) x = x # replicate (pred_numeral k) x"
  by (simp add: numeral_eq_Suc)

lemma filter_unique_key:
  "distinct (map f xs) \<Longrightarrow> x \<in> set xs \<Longrightarrow> filter (\<lambda>y. f y = f x) xs = [x]"
  by (induction xs) (auto simp: filter_empty_conv, metis imageI)

lemma distinct_map_eqD:
  "distinct (map f xs) \<Longrightarrow> f x = f y \<Longrightarrow> x \<in> set xs \<Longrightarrow> y \<in> set xs \<Longrightarrow> x = y"
  by (auto simp: distinct_map dest: inj_onD)

lemma filter_swap_filter: "filter Q (filter P xs) = filter P (filter Q xs)"
  by (simp add: conj_commute)

lemma concat_map_singleton_if:
  "concat (map (\<lambda>x. if P x then [f x] else []) xs) = map f (filter P xs)"
  by (induction xs) simp_all

subsection \<open>Grouping into a map\<close>

text \<open>
  The loops that build the desired state share a shape: an element that qualifies (\<open>P\<close>) is
  appended to the value its key has in a map, starting from an empty value. \<open>mk\<close> wraps the
  list a value holds and \<open>sel\<close> reads it. The contract of one round of the loop is the
  locale's; what the whole loop leaves in the map is proved once.
\<close>

locale group_by =
  fixes step :: "'x \<Rightarrow> ('k, 's) gomap \<Rightarrow> ('k, 's) gomap"
    and P :: "'x \<Rightarrow> bool" and key :: "'x \<Rightarrow> 'k" and vals :: "'x \<Rightarrow> 'v list"
    and mk :: "'k \<Rightarrow> 'v list \<Rightarrow> 's" and sel :: "'s \<Rightarrow> 'v list"
  assumes sel_mk: "sel (mk k vs) = vs"
    and step_skip: "\<not> P x \<Longrightarrow> step x m = m"
    and step_add: "P x \<Longrightarrow> (\<And>s. map_of m (key x) = Some s \<Longrightarrow> s = mk (key x) (sel s)) \<Longrightarrow>
      step x m = map_set (key x)
        (mk (key x) ((case map_of m (key x) of None \<Rightarrow> [] | Some s \<Rightarrow> sel s) @ vals x)) m"
begin

definition members :: "'x list \<Rightarrow> 'k \<Rightarrow> 'x list" where
  "members xs k = filter (\<lambda>x. P x \<and> key x = k) xs"

lemma map_of_fold_step:
  "map_of (fold step xs []) k =
    (if members xs k = [] then None else Some (mk k (concat (map vals (members xs k)))))"
proof (induction xs arbitrary: k rule: rev_induct)
  case Nil
  then show ?case by (simp add: members_def)
next
  case (snoc x xs)
  let ?m = "fold step xs []"
  have wf: "s = mk (key x) (sel s)" if "map_of ?m (key x) = Some s" for s
    using that by (auto simp: snoc.IH sel_mk split: if_splits)
  show ?case
  proof (cases "P x")
    case False
    then show ?thesis using snoc.IH[of k] by (simp add: step_skip members_def)
  next
    case True
    have "fold step (xs @ [x]) [] = map_set (key x)
        (mk (key x) ((case map_of ?m (key x) of None \<Rightarrow> [] | Some s \<Rightarrow> sel s) @ vals x)) ?m"
      using step_add[OF True wf] by simp
    then show ?thesis
      using True by (auto simp: snoc.IH members_def sel_mk)
  qed
qed

lemma wf_fold_step: "wf_map (fold step xs [])"
proof (induction xs rule: rev_induct)
  case Nil
  then show ?case by simp
next
  case (snoc x xs)
  have "s = mk (key x) (sel s)" if "map_of (fold step xs []) (key x) = Some s" for s
    using that by (auto simp: map_of_fold_step sel_mk split: if_splits)
  from step_add[OF _ this] show ?case
    using snoc.IH by (cases "P x") (simp_all add: step_skip)
qed

lemma keys_fold_step: "set (map_keys (fold step xs [])) = key ` {x \<in> set xs. P x}"
  unfolding set_keys_dom by (auto simp: dom_def map_of_fold_step members_def filter_empty_conv)

end

end
