(* ===== verification/GoStd.thy ===== *)
theory GoStd
  imports Prelude
begin

text \<open>
  The parts of Go's standard library the operator calls: \<open>cmp.Compare\<close>,
  \<open>slices.SortFunc\<close>, \<open>slices.Sort\<close>, \<open>slices.Compact\<close>, the string functions of
  package \<open>strings\<close>, and decimal formatting.

  \<open>slices.SortFunc\<close> is the insertion sort the library itself runs on slices of at most
  twelve elements; on longer ones the library's pattern-defeating quicksort is another
  permutation of the slice, ordered by the comparison. The two can differ only in the order of
  elements that compare equal: \<open>SortFunc_unique\<close> says that where the comparison separates the
  elements of the slice, every ordered permutation is the one computed here. The contract the
  library documents for the comparison (a strict weak order) is the locale \<open>comparator_on\<close>.
\<close>

subsection \<open>Comparison\<close>

definition cmp_Compare :: "'a::linorder \<Rightarrow> 'a \<Rightarrow> int" where
  "cmp_Compare x y = (if x < y then -1 else if y < x then 1 else 0)"

lemma cmp_Compare_refl [simp]: "cmp_Compare x x = 0"
  by (simp add: cmp_Compare_def)

lemma cmp_Compare_eq_0 [simp]: "cmp_Compare x y = 0 \<longleftrightarrow> x = y"
  by (auto simp: cmp_Compare_def)

lemma cmp_Compare_less_0 [simp]: "cmp_Compare x y < 0 \<longleftrightarrow> x < y"
  by (auto simp: cmp_Compare_def)

lemma cmp_Compare_le_0 [simp]: "cmp_Compare x y \<le> 0 \<longleftrightarrow> x \<le> y"
  by (auto simp: cmp_Compare_def)

lemma cmp_Compare_gt_0 [simp]: "0 < cmp_Compare x y \<longleftrightarrow> y < x"
  by (auto simp: cmp_Compare_def)

subsection \<open>slices.SortFunc\<close>

text \<open>
  One round of the library's insertion sort: the element moves left past every neighbour it is
  smaller than. The sorted prefix is kept reversed, so its last element comes first.
\<close>

fun insertion_step :: "('a \<Rightarrow> 'a \<Rightarrow> int) \<Rightarrow> 'a \<Rightarrow> 'a list \<Rightarrow> 'a list" where
  "insertion_step cmp x [] = [x]"
| "insertion_step cmp x (y # ys) = (if cmp x y < 0 then y # insertion_step cmp x ys else x # y # ys)"

definition slices_SortFunc :: "'a list \<Rightarrow> ('a \<Rightarrow> 'a \<Rightarrow> int) \<Rightarrow> 'a list" where
  "slices_SortFunc xs cmp = rev (fold (insertion_step cmp) xs [])"

definition slices_Sort :: "'a::linorder list \<Rightarrow> 'a list" where
  "slices_Sort xs = slices_SortFunc xs cmp_Compare"

lemma mset_insertion_step [simp]: "mset (insertion_step cmp x ys) = add_mset x (mset ys)"
  by (induction ys) auto

lemma set_insertion_step [simp]: "set (insertion_step cmp x ys) = insert x (set ys)"
  by (induction ys) auto

lemma mset_fold_insertion: "mset (fold (insertion_step cmp) xs ys) = mset xs + mset ys"
  by (induction xs arbitrary: ys) auto

lemma mset_SortFunc [simp]: "mset (slices_SortFunc xs cmp) = mset xs"
  by (simp add: slices_SortFunc_def mset_fold_insertion)

lemma set_SortFunc [simp]: "set (slices_SortFunc xs cmp) = set xs"
  by (metis mset_SortFunc set_mset_mset)

lemma length_SortFunc [simp]: "length (slices_SortFunc xs cmp) = length xs"
  by (metis mset_SortFunc size_mset)

lemma SortFunc_Nil [simp]: "slices_SortFunc [] cmp = []"
  by (simp add: slices_SortFunc_def)

lemma SortFunc_eq_Nil [simp]: "slices_SortFunc xs cmp = [] \<longleftrightarrow> xs = []"
  by (metis length_0_conv length_SortFunc)

lemma distinct_SortFunc [simp]: "distinct (slices_SortFunc xs cmp) \<longleftrightarrow> distinct xs"
  by (metis mset_SortFunc mset_eq_imp_distinct_iff)

lemma mset_map_SortFunc: "mset (map f (slices_SortFunc xs cmp)) = mset (map f xs)"
  by simp

lemma distinct_map_SortFunc [simp]:
  "distinct (map f (slices_SortFunc xs cmp)) \<longleftrightarrow> distinct (map f xs)"
  by (metis mset_map_SortFunc mset_eq_imp_distinct_iff)

lemma filter_SortFunc_mset: "mset (filter P (slices_SortFunc xs cmp)) = mset (filter P xs)"
  by simp

text \<open>
  The library's contract on the comparison, on the elements \<open>S\<close> a caller sorts: the
  comparison is a strict weak order there. Under it the result is ordered.
\<close>

locale comparator_on =
  fixes cmp :: "'a \<Rightarrow> 'a \<Rightarrow> int" and S :: "'a set"
  assumes cmp_refl: "x \<in> S \<Longrightarrow> cmp x x = 0"
    and cmp_flip: "x \<in> S \<Longrightarrow> y \<in> S \<Longrightarrow> cmp x y < 0 \<longleftrightarrow> 0 < cmp y x"
    and cmp_trans: "x \<in> S \<Longrightarrow> y \<in> S \<Longrightarrow> z \<in> S \<Longrightarrow>
      cmp x y \<le> 0 \<Longrightarrow> cmp y z \<le> 0 \<Longrightarrow> cmp x z \<le> 0"
begin

lemma not_less_flip: "x \<in> S \<Longrightarrow> y \<in> S \<Longrightarrow> \<not> cmp x y < 0 \<longleftrightarrow> cmp y x \<le> 0"
  using cmp_flip by (simp add: not_less)

lemma insertion_step_sorted:
  "x \<in> S \<Longrightarrow> set ys \<subseteq> S \<Longrightarrow> sorted_wrt (\<lambda>a b. cmp b a \<le> 0) ys \<Longrightarrow>
    sorted_wrt (\<lambda>a b. cmp b a \<le> 0) (insertion_step cmp x ys)"
proof (induction ys)
  case Nil
  then show ?case by simp
next
  case (Cons y ys)
  show ?case
  proof (cases "cmp x y < 0")
    case True
    with Cons show ?thesis by auto
  next
    case False
    with Cons.prems have yx: "cmp y x \<le> 0" using not_less_flip[of x y] by auto
    have "cmp z x \<le> 0" if "z \<in> set ys" for z
      using Cons.prems that yx cmp_trans[of z y x] by auto
    with False yx Cons.prems show ?thesis by auto
  qed
qed

lemma fold_insertion_sorted:
  "set xs \<subseteq> S \<Longrightarrow> set ys \<subseteq> S \<Longrightarrow> sorted_wrt (\<lambda>a b. cmp b a \<le> 0) ys \<Longrightarrow>
    sorted_wrt (\<lambda>a b. cmp b a \<le> 0) (fold (insertion_step cmp) xs ys)"
  by (induction xs arbitrary: ys) (auto simp: insertion_step_sorted)

lemma SortFunc_sorted:
  "set xs \<subseteq> S \<Longrightarrow> sorted_wrt (\<lambda>a b. cmp a b \<le> 0) (slices_SortFunc xs cmp)"
  using fold_insertion_sorted[of xs "[]"]
  by (simp add: slices_SortFunc_def sorted_wrt_rev)

text \<open>Where the comparison separates the elements, an ordered permutation is unique.\<close>

lemma ordered_permutation_unique:
  assumes "set xs \<subseteq> S" and "mset xs = mset ys"
    and "sorted_wrt (\<lambda>a b. cmp a b \<le> 0) xs" and "sorted_wrt (\<lambda>a b. cmp a b \<le> 0) ys"
    and "\<And>x y. x \<in> set xs \<Longrightarrow> y \<in> set xs \<Longrightarrow> cmp x y = 0 \<Longrightarrow> x = y"
  shows "xs = ys"
  using assms
proof (induction xs arbitrary: ys)
  case Nil
  then show ?case by simp
next
  case (Cons x xs)
  obtain y ys' where ys: "ys = y # ys'"
    using Cons.prems(2) by (cases ys) auto
  have sets: "set (x # xs) = set (y # ys')"
    using Cons.prems(2) ys by (metis set_mset_mset)
  have xS: "x \<in> S" and yS: "y \<in> S" using Cons.prems(1) sets by auto
  have "x = y"
  proof (rule ccontr)
    assume ne: "x \<noteq> y"
    have "y \<in> set xs" and "x \<in> set ys'" using ne sets by auto
    then have "cmp x y \<le> 0" and "cmp y x \<le> 0" using Cons.prems(3,4) ys by auto
    then have "cmp x y = 0" using cmp_flip[OF xS yS] cmp_flip[OF yS xS] by linarith
    moreover have "y \<in> set (x # xs)" using sets by simp
    ultimately show False using Cons.prems(5)[of x y] ne by simp
  qed
  moreover have "xs = ys'"
    using Cons.prems ys \<open>x = y\<close> by (intro Cons.IH) auto
  ultimately show ?case using ys by simp
qed

lemma SortFunc_unique:
  assumes "set xs \<subseteq> S" and "mset ys = mset xs"
    and "sorted_wrt (\<lambda>a b. cmp a b \<le> 0) ys"
    and "\<And>x y. x \<in> set xs \<Longrightarrow> y \<in> set xs \<Longrightarrow> cmp x y = 0 \<Longrightarrow> x = y"
  shows "slices_SortFunc xs cmp = ys"
  using assms by (intro ordered_permutation_unique SortFunc_sorted) auto

lemma SortFunc_permutation:
  assumes "set xs \<subseteq> S" and "mset ys = mset xs"
    and "\<And>x y. x \<in> set xs \<Longrightarrow> y \<in> set xs \<Longrightarrow> cmp x y = 0 \<Longrightarrow> x = y"
  shows "slices_SortFunc ys cmp = slices_SortFunc xs cmp"
proof -
  have "set ys = set xs" using assms(2) by (metis set_mset_mset)
  then show ?thesis
    using assms by (intro ordered_permutation_unique SortFunc_sorted) auto
qed

text \<open>An ordered slice is left as it is, ties included.\<close>

lemma fold_insertion_ordered:
  "set xs \<subseteq> S \<Longrightarrow> set ys \<subseteq> S \<Longrightarrow> sorted_wrt (\<lambda>a b. cmp a b \<le> 0) (rev ys @ xs) \<Longrightarrow>
    fold (insertion_step cmp) xs ys = rev xs @ ys"
proof (induction xs arbitrary: ys)
  case Nil
  then show ?case by simp
next
  case (Cons x xs)
  have "insertion_step cmp x ys = x # ys"
  proof (cases ys)
    case (Cons y ys')
    then have "cmp y x \<le> 0" and "x \<in> S" and "y \<in> S"
      using Cons.prems by (auto simp: sorted_wrt_append)
    then have "\<not> cmp x y < 0" using not_less_flip by blast
    with Cons show ?thesis by simp
  qed simp
  with Cons.prems Cons.IH[of "x # ys"] show ?case by simp
qed

lemma SortFunc_ordered:
  "set xs \<subseteq> S \<Longrightarrow> sorted_wrt (\<lambda>a b. cmp a b \<le> 0) xs \<Longrightarrow> slices_SortFunc xs cmp = xs"
  using fold_insertion_ordered[of xs "[]"] by (simp add: slices_SortFunc_def)

lemma SortFunc_idem:
  "set xs \<subseteq> S \<Longrightarrow> slices_SortFunc (slices_SortFunc xs cmp) cmp = slices_SortFunc xs cmp"
  by (simp add: SortFunc_ordered SortFunc_sorted)

end

text \<open>A comparison that separates all elements: a total order.\<close>

locale total_comparator_on = comparator_on +
  assumes cmp_antisym: "x \<in> S \<Longrightarrow> y \<in> S \<Longrightarrow> cmp x y = 0 \<Longrightarrow> x = y"
begin

lemma SortFunc_canonical:
  "set xs \<subseteq> S \<Longrightarrow> mset ys = mset xs \<Longrightarrow> slices_SortFunc ys cmp = slices_SortFunc xs cmp"
  using cmp_antisym by (intro SortFunc_permutation) auto

end

interpretation cmp_order: total_comparator_on "cmp_Compare :: 'a::linorder \<Rightarrow> 'a \<Rightarrow> int" UNIV
  by unfold_locales auto

text \<open>Comparison of a key, the shape of most comparison functions of the operator.\<close>

lemma comparator_on_key: "comparator_on (\<lambda>a b. cmp_Compare (f a) (f b)) UNIV"
  by unfold_locales auto

lemma slices_Sort_sort: "slices_Sort xs = sort xs"
  unfolding slices_Sort_def by (rule cmp_order.SortFunc_unique) simp_all

lemma set_slices_Sort [simp]: "set (slices_Sort xs) = set xs"
  by (simp add: slices_Sort_sort)

lemma sorted_slices_Sort [simp]: "sorted (slices_Sort xs)"
  by (simp add: slices_Sort_sort)

subsection \<open>slices.Compact, slices.Contains\<close>

text \<open>\<open>Compact\<close> replaces runs of equal elements by one element.\<close>

fun slices_Compact :: "'a list \<Rightarrow> 'a list" where
  "slices_Compact [] = []"
| "slices_Compact [x] = [x]"
| "slices_Compact (x # y # ys) =
    (if x = y then slices_Compact (y # ys) else x # slices_Compact (y # ys))"

definition slices_Contains :: "'a list \<Rightarrow> 'a \<Rightarrow> bool" where
  "slices_Contains xs x = List.member xs x"

lemma slices_Contains_iff [simp]: "slices_Contains xs x \<longleftrightarrow> x \<in> set xs"
  by (simp add: slices_Contains_def)

lemma slices_Compact_remdups_adj: "slices_Compact xs = remdups_adj xs"
  by (induction xs rule: slices_Compact.induct) auto

lemma set_slices_Compact [simp]: "set (slices_Compact xs) = set xs"
  by (simp add: slices_Compact_remdups_adj)

lemma distinct_Compact_sorted: "sorted xs \<Longrightarrow> distinct (slices_Compact xs)"
  by (induction xs rule: slices_Compact.induct) (auto simp: order_antisym_conv)

lemma sorted_Compact: "sorted xs \<Longrightarrow> sorted (slices_Compact xs)"
  by (simp add: slices_Compact_remdups_adj)

lemma Compact_Sort:
  "slices_Compact (slices_Sort xs) = sorted_list_of_set (set xs)"
  by (rule sorted_distinct_set_unique)
    (simp_all add: distinct_Compact_sorted sorted_Compact)

end
