(* ===== verification/GoStrings.thy ===== *)
theory GoStrings
  imports GoStd "HOL-Library.Sublist" "HOL-Library.Word"
begin

text \<open>
  The functions of Go's packages \<open>strings\<close>, \<open>strconv\<close> and \<open>fmt\<close> the operator calls,
  on strings as byte lists: \<open>TrimSpace\<close> (all Unicode white space, recognised by its UTF-8
  encoding), \<open>TrimPrefix\<close>, \<open>SplitSeq\<close> on one separator byte, \<open>Join\<close>, and decimal
  integers. The lemmas give the round trip of splitting and joining, and what trimming
  leaves.
\<close>

subsection \<open>strings.TrimPrefix, strings.TrimSpace\<close>

fun strip_prefix :: "'a list \<Rightarrow> 'a list \<Rightarrow> 'a list option" where
  "strip_prefix [] s = Some s"
| "strip_prefix (p # ps) [] = None"
| "strip_prefix (p # ps) (c # cs) = (if p = c then strip_prefix ps cs else None)"

lemma strip_prefix_Some [simp]: "strip_prefix p s = Some r \<longleftrightarrow> s = p @ r"
  by (induction p s rule: strip_prefix.induct) auto

lemma strip_prefix_None: "strip_prefix p s = None \<longleftrightarrow> \<not> prefix p s"
  by (induction p s rule: strip_prefix.induct) auto

definition strings_TrimPrefix :: "string \<Rightarrow> string \<Rightarrow> string" where
  "strings_TrimPrefix s p = (case strip_prefix p s of Some r \<Rightarrow> r | None \<Rightarrow> s)"

text \<open>
  The UTF-8 encodings of the runes \<open>unicode.IsSpace\<close> accepts: the ASCII white space,
  U+0085, U+00A0, U+1680, U+2000 to U+200A, U+2028, U+2029, U+202F, U+205F and U+3000.
\<close>

definition space_runes :: "string list" where
  "space_runes =
    [[CHR 0x09], [CHR 0x0A], [CHR 0x0B], [CHR 0x0C], [CHR 0x0D], [CHR 0x20],
     [CHR 0xC2, CHR 0x85], [CHR 0xC2, CHR 0xA0], [CHR 0xE1, CHR 0x9A, CHR 0x80],
     [CHR 0xE2, CHR 0x80, CHR 0x80], [CHR 0xE2, CHR 0x80, CHR 0x81],
     [CHR 0xE2, CHR 0x80, CHR 0x82], [CHR 0xE2, CHR 0x80, CHR 0x83],
     [CHR 0xE2, CHR 0x80, CHR 0x84], [CHR 0xE2, CHR 0x80, CHR 0x85],
     [CHR 0xE2, CHR 0x80, CHR 0x86], [CHR 0xE2, CHR 0x80, CHR 0x87],
     [CHR 0xE2, CHR 0x80, CHR 0x88], [CHR 0xE2, CHR 0x80, CHR 0x89],
     [CHR 0xE2, CHR 0x80, CHR 0x8A], [CHR 0xE2, CHR 0x80, CHR 0xA8],
     [CHR 0xE2, CHR 0x80, CHR 0xA9], [CHR 0xE2, CHR 0x80, CHR 0xAF],
     [CHR 0xE2, CHR 0x81, CHR 0x9F], [CHR 0xE3, CHR 0x80, CHR 0x80]]"

fun strip_any :: "'a list list \<Rightarrow> 'a list \<Rightarrow> 'a list option" where
  "strip_any [] s = None"
| "strip_any (p # ps) s =
    (case strip_prefix p s of Some r \<Rightarrow> Some r | None \<Rightarrow> strip_any ps s)"

lemma strip_any_None: "strip_any ps s = None \<longleftrightarrow> (\<forall>p\<in>set ps. \<not> prefix p s)"
  by (induction ps) (auto simp: strip_prefix_None split: option.splits)

lemma strip_any_Some: "strip_any ps s = Some r \<Longrightarrow> \<exists>p\<in>set ps. s = p @ r"
  by (induction ps) (auto split: option.splits)

function trim_left :: "'a list list \<Rightarrow> 'a list \<Rightarrow> 'a list" where
  "trim_left ps s =
    (case strip_any ps s of
       None \<Rightarrow> s
     | Some r \<Rightarrow> if length r < length s then trim_left ps r else s)"
  by pat_completeness auto
termination
  by (relation "measure (\<lambda>(ps, s). length s)") auto

declare trim_left.simps [simp del]

definition strings_TrimSpace :: "string \<Rightarrow> string" where
  "strings_TrimSpace s =
    rev (trim_left (map rev space_runes) (rev (trim_left space_runes s)))"

lemma trim_left_suffix: "suffix (trim_left ps s) s"
proof (induction ps s rule: trim_left.induct)
  case (1 ps s)
  show ?case
  proof (cases "strip_any ps s")
    case None
    then show ?thesis by (simp add: trim_left.simps[of ps s])
  next
    case (Some r)
    then have "suffix r s" using strip_any_Some[OF Some] by (auto simp: suffix_def)
    with Some "1.IH" show ?thesis
      by (auto simp: trim_left.simps[of ps s] intro: suffix_order.trans)
  qed
qed

lemma trim_left_stuck:
  assumes "[] \<notin> set ps" shows "strip_any ps (trim_left ps s) = None"
  using assms
proof (induction ps s rule: trim_left.induct)
  case (1 ps s)
  show ?case
  proof (cases "strip_any ps s")
    case None
    then show ?thesis by (simp add: trim_left.simps[of ps s])
  next
    case (Some r)
    then have "length r < length s" using strip_any_Some[OF Some] "1.prems" by auto
    with Some "1.IH"[OF Some] "1.prems" show ?thesis by (simp add: trim_left.simps[of ps s])
  qed
qed

lemma trim_left_id: "strip_any ps s = None \<Longrightarrow> trim_left ps s = s"
  by (simp add: trim_left.simps[of ps s])

lemma strip_any_prefix_mono: "strip_any ps s = None \<Longrightarrow> prefix u s \<Longrightarrow> strip_any ps u = None"
  by (auto simp: strip_any_None intro: prefix_order.trans)

lemma space_runes_nonempty: "[] \<notin> set space_runes" "[] \<notin> set (map rev space_runes)"
  by (simp_all add: space_runes_def)

text \<open>Trimming leaves neither leading nor trailing white space, so it is idempotent.\<close>

lemma TrimSpace_no_leading: "strip_any space_runes (strings_TrimSpace s) = None"
proof -
  let ?l = "trim_left space_runes s"
  have "prefix (strings_TrimSpace s) ?l"
    unfolding strings_TrimSpace_def
    using trim_left_suffix[of "map rev space_runes" "rev ?l"] by (simp add: suffix_to_prefix)
  then show ?thesis
    using trim_left_stuck[OF space_runes_nonempty(1)] by (rule strip_any_prefix_mono[rotated])
qed

lemma TrimSpace_no_trailing: "strip_any (map rev space_runes) (rev (strings_TrimSpace s)) = None"
  unfolding strings_TrimSpace_def rev_rev_ident
  by (rule trim_left_stuck[OF space_runes_nonempty(2)])

lemma TrimSpace_idem [simp]: "strings_TrimSpace (strings_TrimSpace s) = strings_TrimSpace s"
  by (subst strings_TrimSpace_def)
    (simp add: trim_left_id TrimSpace_no_leading TrimSpace_no_trailing)

lemma set_TrimSpace: "set (strings_TrimSpace s) \<subseteq> set s"
proof -
  have "set (strings_TrimSpace s) \<subseteq> set (trim_left space_runes s)"
    using set_mono_suffix[OF trim_left_suffix, of "map rev space_runes" "rev (trim_left space_runes s)"]
    by (simp add: strings_TrimSpace_def)
  also have "\<dots> \<subseteq> set s" by (rule set_mono_suffix[OF trim_left_suffix])
  finally show ?thesis .
qed

lemma set_TrimPrefix: "set (strings_TrimPrefix s p) \<subseteq> set s"
  by (auto simp: strings_TrimPrefix_def split: option.splits)

subsection \<open>strings.SplitSeq on one byte, strings.Join\<close>

fun split_byte :: "char \<Rightarrow> string \<Rightarrow> string list" where
  "split_byte c [] = [[]]"
| "split_byte c (x # xs) =
    (if x = c then [] # split_byte c xs
     else (case split_byte c xs of [] \<Rightarrow> [[x]] | y # ys \<Rightarrow> (x # y) # ys))"

fun strings_Join :: "string list \<Rightarrow> string \<Rightarrow> string" where
  "strings_Join [] sep = []"
| "strings_Join [x] sep = x"
| "strings_Join (x # y # ys) sep = x @ sep @ strings_Join (y # ys) sep"

lemma split_byte_nonempty [simp]: "split_byte c s \<noteq> []"
  by (induction s) (auto split: list.splits)

lemma split_byte_no_sep: "p \<in> set (split_byte c s) \<Longrightarrow> c \<notin> set p"
  by (induction s arbitrary: p) (auto split: if_splits list.splits)

lemma split_byte_plain: "c \<notin> set p \<Longrightarrow> split_byte c p = [p]"
  by (induction p) auto

lemma split_byte_append: "c \<notin> set p \<Longrightarrow> split_byte c (p @ c # s) = p # split_byte c s"
  by (induction p) auto

lemma split_byte_Join:
  "xs \<noteq> [] \<Longrightarrow> \<forall>x\<in>set xs. c \<notin> set x \<Longrightarrow> split_byte c (strings_Join xs [c]) = xs"
  by (induction xs "[c]" rule: strings_Join.induct) (simp_all add: split_byte_plain split_byte_append)

lemma Join_split_byte: "strings_Join (split_byte c s) [c] = s"
proof (induction s)
  case Nil
  then show ?case by simp
next
  case (Cons x s)
  obtain y ys where "split_byte c s = y # ys" by (cases "split_byte c s") auto
  with Cons show ?case by (cases ys) auto
qed

subsection \<open>Decimal integers\<close>

fun itoa_nat :: "nat \<Rightarrow> string" where
  "itoa_nat n =
    (if n < 10 then [char_of (48 + n)] else itoa_nat (n div 10) @ [char_of (48 + n mod 10)])"

declare itoa_nat.simps [simp del]

definition itoa :: "int \<Rightarrow> string" where
  "itoa i = (if i < 0 then ''-'' @ itoa_nat (nat (- i)) else itoa_nat (nat i))"

type_synonym int64 = "64 word"

end
