(* ===== verification/ApiTypes.thy ===== *)
theory ApiTypes
  imports GoStrings
begin

text \<open>
  The data the operator handles: the custom resources of \<open>api/v1\<close> with their status, and
  the fields it reads of Kubernetes' own types. Go's embedded \<open>metav1.ObjectMeta\<close> is record
  extension, so \<open>Name\<close> and \<open>Namespace\<close> apply to every object as they do in Go. A nil and
  an empty map or slice are the same empty list here; where the source tells them apart the
  field is an option. Times are nanosecond counts, \<open>int64\<close> is a 64-bit word.
\<close>

type_synonym go_time = int

subsection \<open>Object metadata and conditions\<close>

record ObjectMeta =
  Name :: string
  Namespace :: string
  UID :: string
  Labels :: "(string, string) gomap"
  Annotations :: "(string, string) gomap"
  Generation :: int64

datatype ConditionStatus = ConditionTrue | ConditionFalse | ConditionUnknown

record Condition =
  c_Type :: string
  c_Status :: ConditionStatus
  c_Reason :: string
  c_Message :: string
  c_LastTransitionTime :: "go_time option"

definition ConditionReady :: string where
  "ConditionReady = ''Ready''"

definition ConditionNetworkAvailable :: string where
  "ConditionNetworkAvailable = ''NetworkAvailable''"

definition ConditionReasonSynced :: string where
  "ConditionReasonSynced = ''Synced''"

definition ConditionReasonNotSynced :: string where
  "ConditionReasonNotSynced = ''NotSynced''"

text \<open>A composite literal \<open>metav1.Condition{...}\<close> that leaves the transition time unset.\<close>

definition new_condition :: "string \<Rightarrow> ConditionStatus \<Rightarrow> string \<Rightarrow> string \<Rightarrow> Condition" where
  "new_condition ty st reason msg =
    \<lparr>c_Type = ty, c_Status = st, c_Reason = reason, c_Message = msg, c_LastTransitionTime = None\<rparr>"

lemma new_condition_simps [simp]:
  "c_Type (new_condition ty st reason msg) = ty"
  "c_Status (new_condition ty st reason msg) = st"
  "c_LastTransitionTime (new_condition ty st reason msg) = None"
  "c_Reason (new_condition ty st reason msg) = reason"
  "c_Message (new_condition ty st reason msg) = msg"
  by (simp_all add: new_condition_def)

record HomelabStatus =
  ObservedGeneration :: int64
  LastSyncTime :: "go_time option"
  Conditions :: "Condition list"

subsection \<open>Device, Network, IngressRouter\<close>

record DeviceSpec =
  ds_Network :: string
  ds_IP :: string
  ds_MACAddresses :: "string list"
  ds_DHCP :: bool
  ds_AdditionalHostnames :: "string list"
  ds_Trunked :: bool
  ds_Wired :: bool
  ds_Wireless :: bool
  ds_USB :: bool
  ds_Location :: string
  ds_Position :: int64
  ds_PDU :: string
  ds_Switch :: string
  ds_Side :: string
  ds_Manufacturer :: string
  ds_Model :: string
  ds_SerialNumber :: string

record Device = ObjectMeta +
  d_Spec :: DeviceSpec
  d_Status :: HomelabStatus

record NetworkSpec =
  ns_Role :: string
  ns_VLAN :: int64
  ns_CIDRBlock :: string
  ns_ServeDHCP :: bool
  ns_Router :: string
  ns_DNSServer :: string

record Network = ObjectMeta +
  n_Spec :: NetworkSpec
  n_Status :: HomelabStatus

record IngressRouterSpec =
  irs_IngressClass :: string
  irs_IPAddress :: string

record IngressRouter = ObjectMeta +
  ir_Spec :: IngressRouterSpec
  ir_Status :: HomelabStatus

subsection \<open>Kubernetes objects the operator reads\<close>

record IngressRule =
  Host :: string

record Ingress = ObjectMeta +
  IngressClassName :: "string option"
  Rules :: "IngressRule list"

datatype ServiceType = ServiceTypeClusterIP | ServiceTypeNodePort | ServiceTypeLoadBalancer
  | ServiceTypeExternalName

record LoadBalancerIngress =
  lbi_IP :: string

record Service = ObjectMeta +
  svc_Type :: ServiceType
  svc_LoadBalancerIP :: string
  svc_LoadBalancerIngress :: "LoadBalancerIngress list"

record ConfigMap = ObjectMeta +
  Data :: "(string, string) gomap option"

subsection \<open>Unstructured objects\<close>

text \<open>
  A dynamic value (\<open>any\<close>) as \<open>encoding/json\<close> and \<open>unstructured\<close> use it. Numbers the
  operator writes are \<open>int64\<close>; fractional numbers occur in none of the objects it handles.
\<close>

datatype jv =
    JNull
  | JBool bool
  | JInt int64
  | JString string
  | JArray "jv list"
  | JObject "(string \<times> jv) list"

type_synonym jobj = "(string, jv) gomap"

record GroupVersionKind =
  gvk_Group :: string
  gvk_Version :: string
  gvk_Kind :: string

record OwnerReference =
  or_Kind :: string
  or_Name :: string
  or_UID :: string

text \<open>
  \<open>unstructured.Unstructured\<close>: its \<open>Object\<close> map, with the entries its accessors read
  (\<open>apiVersion\<close>, \<open>kind\<close>, \<open>metadata\<close>) kept as the fields they return.
\<close>

record Unstructured = ObjectMeta +
  u_GVK :: GroupVersionKind
  u_OwnerReferences :: "OwnerReference list"
  Object :: jobj

definition new_unstructured :: "GroupVersionKind \<Rightarrow> string \<Rightarrow> string \<Rightarrow> Unstructured" where
  "new_unstructured gvk name namespace =
    \<lparr>Name = name, Namespace = namespace, UID = [], Labels = [], Annotations = [], Generation = 0,
     u_GVK = gvk, u_OwnerReferences = [], Object = []\<rparr>"

lemma new_unstructured_simps [simp]:
  "Name (new_unstructured gvk name ns) = name"
  "Namespace (new_unstructured gvk name ns) = ns"
  "Labels (new_unstructured gvk name ns) = []"
  "u_GVK (new_unstructured gvk name ns) = gvk"
  "u_OwnerReferences (new_unstructured gvk name ns) = []"
  "Object (new_unstructured gvk name ns) = []"
  by (simp_all add: new_unstructured_def)

text \<open>
  A Go error value: the dynamic type it was made with and its message. Which types mean
  ``not found'' is the library's knowledge, a parameter of the model.
\<close>

datatype error = GoError (err_type: nat) (Error: string)

end
