(* ===== verification/NetIP.thy ===== *)
theory NetIP
  imports GoStrings "HOL-Library.Product_Lexorder"
begin

text \<open>
  Go's package \<open>net/netip\<close>, as far as \<open>compareIP\<close> uses it: \<open>ParseAddr\<close> for dotted
  IPv4 and for IPv6 with \<open>::\<close>, an embedded IPv4 tail and a zone, and \<open>Addr.Compare\<close>.
  An address is the 128-bit value in two machine words and the kind \<open>z\<close> (none, IPv4, IPv6
  with its zone); a parse error is \<open>None\<close>, since only its presence is tested.
  \<open>Compare\<close> is a linear order, which makes \<open>Addr\<close> an instance of the library's class.
\<close>

datatype addr_kind = Z0 | Z4 | Z6 string

datatype Addr = Addr (addr_hi: "64 word") (addr_lo: "64 word") (addr_z: addr_kind)

definition BitLen :: "Addr \<Rightarrow> nat" where
  "BitLen ip = (case addr_z ip of Z0 \<Rightarrow> 0 | Z4 \<Rightarrow> 32 | Z6 _ \<Rightarrow> 128)"

definition Is6 :: "Addr \<Rightarrow> bool" where
  "Is6 ip = (case addr_z ip of Z6 _ \<Rightarrow> True | _ \<Rightarrow> False)"

definition Zone :: "Addr \<Rightarrow> string" where
  "Zone ip = (case addr_z ip of Z6 z \<Rightarrow> z | _ \<Rightarrow> [])"

definition Addr_Compare :: "Addr \<Rightarrow> Addr \<Rightarrow> int" where
  "Addr_Compare ip ip2 =
    (if BitLen ip < BitLen ip2 then -1
     else if BitLen ip > BitLen ip2 then 1
     else if addr_hi ip < addr_hi ip2 then -1
     else if addr_hi ip > addr_hi ip2 then 1
     else if addr_lo ip < addr_lo ip2 then -1
     else if addr_lo ip > addr_lo ip2 then 1
     else if Is6 ip \<and> Zone ip < Zone ip2 then -1
     else if Is6 ip \<and> Zone ip > Zone ip2 then 1
     else 0)"

subsection \<open>Compare is a linear order\<close>

definition addr_key :: "Addr \<Rightarrow> nat \<times> 64 word \<times> 64 word \<times> string" where
  "addr_key ip = (BitLen ip, addr_hi ip, addr_lo ip, Zone ip)"

lemma addr_key_inj: "addr_key a = addr_key b \<Longrightarrow> a = b"
  by (cases a; cases b) (auto simp: addr_key_def BitLen_def Zone_def split: addr_kind.splits)

lemma Zone_not_Is6: "\<not> Is6 a \<Longrightarrow> Zone a = []"
  by (simp add: Is6_def Zone_def split: addr_kind.splits)

lemma Is6_BitLen: "Is6 a \<longleftrightarrow> BitLen a = 128"
  by (simp add: Is6_def BitLen_def split: addr_kind.splits)

lemma Addr_Compare_key: "Addr_Compare a b = cmp_Compare (addr_key a) (addr_key b)"
  using Is6_BitLen[of a] Is6_BitLen[of b] Zone_not_Is6[of a] Zone_not_Is6[of b]
  by (auto simp: Addr_Compare_def addr_key_def cmp_Compare_def less_prod_def)

instantiation Addr :: linorder
begin

definition less_eq_Addr :: "Addr \<Rightarrow> Addr \<Rightarrow> bool" where
  "a \<le> b \<longleftrightarrow> Addr_Compare a b \<le> 0"

definition less_Addr :: "Addr \<Rightarrow> Addr \<Rightarrow> bool" where
  "a < b \<longleftrightarrow> Addr_Compare a b < 0"

instance
  by standard (auto simp: less_eq_Addr_def less_Addr_def Addr_Compare_key intro: addr_key_inj)

end

lemma Addr_Compare_cmp: "Addr_Compare a b = cmp_Compare a b"
  using addr_key_inj[of a b]
  by (auto simp: cmp_Compare_def less_Addr_def Addr_Compare_key)

interpretation addr_order: total_comparator_on Addr_Compare UNIV
  by unfold_locales (auto simp: Addr_Compare_cmp)

subsection \<open>ParseAddr\<close>

definition digit_val :: "char \<Rightarrow> nat option" where
  "digit_val c = (if 48 \<le> (of_char c :: nat) \<and> of_char c \<le> (57 :: nat) then Some (of_char c - 48) else None)"

definition hex_val :: "char \<Rightarrow> nat option" where
  "hex_val c =
    (let n = (of_char c :: nat) in
     if 48 \<le> n \<and> n \<le> 57 then Some (n - 48)
     else if 97 \<le> n \<and> n \<le> 102 then Some (n - 97 + 10)
     else if 65 \<le> n \<and> n \<le> 70 then Some (n - 65 + 10)
     else None)"

text \<open>
  \<open>parseIPv4Fields\<close>: the previous character (none at the start), the octet being read, its
  number of digits, and the octets already stored.
\<close>

fun parseIPv4Fields :: "char option \<Rightarrow> nat \<Rightarrow> nat \<Rightarrow> nat list \<Rightarrow> string \<Rightarrow> nat list option" where
  "parseIPv4Fields prev val digLen fields [] =
    (if length fields < 3 then None else Some (fields @ [val]))"
| "parseIPv4Fields prev val digLen fields (c # cs) =
    (case digit_val c of
       Some d \<Rightarrow>
         if digLen = 1 \<and> val = 0 then None
         else if val * 10 + d > 255 then None
         else parseIPv4Fields (Some c) (val * 10 + d) (digLen + 1) fields cs
     | None \<Rightarrow>
         if c = CHR ''.'' then
           if prev = None \<or> cs = [] \<or> prev = Some (CHR ''.'') then None
           else if length fields = 3 then None
           else parseIPv4Fields (Some c) 0 0 (fields @ [val]) cs
         else None)"

fun hex_group :: "nat \<Rightarrow> nat \<Rightarrow> string \<Rightarrow> (nat \<times> nat \<times> string) option" where
  "hex_group off acc [] = Some (off, acc, [])"
| "hex_group off acc (c # cs) =
    (case hex_val c of
       None \<Rightarrow> Some (off, acc, c # cs)
     | Some d \<Rightarrow>
         if off > 3 \<or> acc * 16 + d > 65535 then None
         else hex_group (off + 1) (acc * 16 + d) cs)"

text \<open>
  The group loop of \<open>parseIPv6\<close>: \<open>ip\<close> holds the bytes stored so far, \<open>ellipsis\<close> the
  position of \<open>::\<close>. The result is the unread rest with both.
\<close>

function parseIPv6_groups ::
    "string \<Rightarrow> nat list \<Rightarrow> nat option \<Rightarrow> (string \<times> nat list \<times> nat option) option" where
  "parseIPv6_groups s ip ellipsis =
    (if length ip \<ge> 16 then Some (s, ip, ellipsis)
     else case hex_group 0 0 s of
       None \<Rightarrow> None
     | Some (off, acc, r) \<Rightarrow>
         if off = 0 then None
         else if r \<noteq> [] \<and> hd r = CHR ''.'' then
           if ellipsis = None \<and> length ip \<noteq> 12 then None
           else if length ip + 4 > 16 then None
           else (case parseIPv4Fields None 0 0 [] s of
                   None \<Rightarrow> None
                 | Some fields \<Rightarrow> Some ([], ip @ fields, ellipsis))
         else
           (case r of
              [] \<Rightarrow> Some ([], ip @ [acc div 256, acc mod 256], ellipsis)
            | c # r1 \<Rightarrow>
                if c \<noteq> CHR '':'' then None
                else (case r1 of
                   [] \<Rightarrow> None
                 | c1 # r2 \<Rightarrow>
                     if c1 = CHR '':'' then
                       if ellipsis \<noteq> None then None
                       else if r2 = [] then
                         Some ([], ip @ [acc div 256, acc mod 256], Some (length ip + 2))
                       else
                         parseIPv6_groups r2 (ip @ [acc div 256, acc mod 256]) (Some (length ip + 2))
                     else parseIPv6_groups r1 (ip @ [acc div 256, acc mod 256]) ellipsis)))"
  by pat_completeness auto
termination
  by (relation "measure (\<lambda>(s, ip, e). 16 - length ip)") auto

declare parseIPv6_groups.simps [simp del]

definition bytes_word :: "nat list \<Rightarrow> 64 word" where
  "bytes_word bs = fold (\<lambda>b w. w * 256 + word_of_nat b) bs 0"

definition AddrFrom4 :: "nat list \<Rightarrow> Addr" where
  "AddrFrom4 fields = Addr 0 (0xffff00000000 + bytes_word fields) Z4"

definition AddrFrom16 :: "nat list \<Rightarrow> string \<Rightarrow> Addr" where
  "AddrFrom16 ip zone = Addr (bytes_word (take 8 ip)) (bytes_word (drop 8 ip)) (Z6 zone)"

definition parseIPv4 :: "string \<Rightarrow> Addr option" where
  "parseIPv4 s = map_option AddrFrom4 (parseIPv4Fields None 0 0 [] s)"

definition parseIPv6_body :: "string \<Rightarrow> string \<Rightarrow> nat option \<Rightarrow> Addr option" where
  "parseIPv6_body zone s ellipsis =
    (case parseIPv6_groups s [] ellipsis of
       None \<Rightarrow> None
     | Some (rest, ip, e) \<Rightarrow>
         if rest \<noteq> [] then None
         else if length ip < 16 then
           (case e of
              None \<Rightarrow> None
            | Some p \<Rightarrow> Some (AddrFrom16 (take p ip @ replicate (16 - length ip) 0 @ drop p ip) zone))
         else if e \<noteq> None then None
         else Some (AddrFrom16 ip zone))"

definition parseIPv6 :: "string \<Rightarrow> Addr option" where
  "parseIPv6 inp =
    (let s = takeWhile (\<lambda>c. c \<noteq> CHR ''%'') inp;
         zone = drop (length s + 1) inp in
     if CHR ''%'' \<in> set inp \<and> zone = [] then None
     else if take 2 s = ''::'' then
       (if drop 2 s = [] then Some (AddrFrom16 (replicate 16 0) zone)
        else parseIPv6_body zone (drop 2 s) (Some 0))
     else parseIPv6_body zone s None)"

fun ParseAddr_scan :: "string \<Rightarrow> string \<Rightarrow> Addr option" where
  "ParseAddr_scan s [] = None"
| "ParseAddr_scan s (c # cs) =
    (if c = CHR ''.'' then parseIPv4 s
     else if c = CHR '':'' then parseIPv6 s
     else if c = CHR ''%'' then None
     else ParseAddr_scan s cs)"

definition ParseAddr :: "string \<Rightarrow> Addr option" where
  "ParseAddr s = ParseAddr_scan s s"

lemmas ParseAddr_eval =
  ParseAddr_def parseIPv4_def parseIPv6_def parseIPv6_body_def parseIPv6_groups.simps
  digit_val_def hex_val_def replicate_numeral

text \<open>The parser on the addresses the repository's tests use, and on other shapes.\<close>

lemma ParseAddr_IPv4_examples:
  "ParseAddr ''10.1.21.5'' = Some (AddrFrom4 [10, 1, 21, 5])"
  "ParseAddr ''10.1.21'' = None" "ParseAddr ''10.01.2.3'' = None"
  "ParseAddr ''10.1.2.256'' = None" "ParseAddr [] = None"
  by (simp_all add: ParseAddr_eval)

lemma ParseAddr_IPv6_examples:
  "ParseAddr ''::1'' = Some (AddrFrom16 (replicate 15 0 @ [1]) [])"
  "ParseAddr ''fe80::1%eth0'' = Some (AddrFrom16 ([254, 128] @ replicate 13 0 @ [1]) ''eth0'')"
  "ParseAddr ''::ffff:10.0.0.1'' = Some (AddrFrom16 (replicate 10 0 @ [255, 255, 10, 0, 0, 1]) [])"
  "ParseAddr ''1:2:3:4:5:6:7:8::'' = None"
  by (simp_all add: ParseAddr_eval)

end
