(* ===== verification/DnsSpec.thy ===== *)
theory DnsSpec
  imports NetIP
begin

text \<open>
  Package \<open>internal/dnsmasq\<close>, \<open>spec.go\<close>: the specs of the dnsmasq custom resources and
  their normal form. \<open>NormalizeDnsHosts\<close> sorts and deduplicates the names of each entry and
  sorts the entries by address. The comparison \<open>compareIP\<close> is a strict weak order on
  addresses that parse, and on strings that do not; it is none on a mix of both.
\<close>

record DnsHostEntry =
  dns_IP :: string
  dns_Hostnames :: "string list"

record DnsHostsSpec =
  dns_Controller :: string
  dns_Hosts :: "DnsHostEntry list"

record DhcpHostEntry =
  dhcp_MACs :: "string list"
  dhcp_IP :: string
  dhcp_Hostname :: string
  dhcp_SetTags :: "string list"
  dhcp_LeaseTime :: string

record DhcpHostsSpec =
  dhcp_Controller :: string
  dhcp_Hosts :: "DhcpHostEntry list"

record DhcpOption =
  opt_Key :: string
  opt_Values :: "string list"
  opt_Tags :: "string list"

record DhcpOptionsSpec =
  opts_Controller :: string
  opts_Options :: "DhcpOption list"

definition DhcpLeaseTimeInfinite :: string where
  "DhcpLeaseTimeInfinite = ''infinite''"

definition compareIP :: "string \<Rightarrow> string \<Rightarrow> int" where
  "compareIP a b =
    (case (ParseAddr a, ParseAddr b) of
       (Some pa, Some pb) \<Rightarrow> Addr_Compare pa pb
     | _ \<Rightarrow> cmp_Compare a b)"

definition compareDnsHostEntry :: "DnsHostEntry \<Rightarrow> DnsHostEntry \<Rightarrow> int" where
  "compareDnsHostEntry a b = compareIP (dns_IP a) (dns_IP b)"

definition normalize_entry :: "DnsHostEntry \<Rightarrow> DnsHostEntry" where
  "normalize_entry h = h\<lparr>dns_Hostnames := slices_Compact (slices_Sort (dns_Hostnames h))\<rparr>"

definition NormalizeDnsHosts :: "DnsHostsSpec \<Rightarrow> DnsHostsSpec" where
  "NormalizeDnsHosts spec =
    spec\<lparr>dns_Hosts := slices_SortFunc (map normalize_entry (dns_Hosts spec)) compareDnsHostEntry\<rparr>"

subsection \<open>The comparison\<close>

definition parses :: "DnsHostEntry \<Rightarrow> bool" where
  "parses h \<longleftrightarrow> ParseAddr (dns_IP h) \<noteq> None"

abbreviation addr_of :: "DnsHostEntry \<Rightarrow> Addr" where
  "addr_of h \<equiv> the (ParseAddr (dns_IP h))"

lemma compareIP_parsed:
  "ParseAddr a = Some pa \<Longrightarrow> ParseAddr b = Some pb \<Longrightarrow> compareIP a b = cmp_Compare pa pb"
  by (simp add: compareIP_def Addr_Compare_cmp)

lemma compareIP_unparsed: "ParseAddr a = None \<Longrightarrow> compareIP a b = cmp_Compare a b"
  by (simp add: compareIP_def)

lemma compareDnsHostEntry_parsed:
  "parses a \<Longrightarrow> parses b \<Longrightarrow> compareDnsHostEntry a b = cmp_Compare (addr_of a) (addr_of b)"
  by (auto simp: compareDnsHostEntry_def parses_def compareIP_parsed)

interpretation by_addr: comparator_on compareDnsHostEntry "Collect parses"
  by unfold_locales (auto simp: compareDnsHostEntry_parsed)

interpretation raw_strings: total_comparator_on compareIP "{s. ParseAddr s = None}"
  by unfold_locales (auto simp: compareIP_unparsed)

subsection \<open>The normal form\<close>

lemma normalize_entry_simps [simp]:
  "dns_IP (normalize_entry h) = dns_IP h"
  "dns_Hostnames (normalize_entry h) = sorted_list_of_set (set (dns_Hostnames h))"
  "parses (normalize_entry h) = parses h"
  by (simp_all add: normalize_entry_def Compact_Sort parses_def)

lemma normalize_entry_idem [simp]: "normalize_entry (normalize_entry h) = normalize_entry h"
  by (simp add: normalize_entry_def Compact_Sort)

lemma NormalizeDnsHosts_Controller [simp]:
  "dns_Controller (NormalizeDnsHosts spec) = dns_Controller spec"
  by (simp add: NormalizeDnsHosts_def)

lemma set_NormalizeDnsHosts:
  "set (dns_Hosts (NormalizeDnsHosts spec)) = normalize_entry ` set (dns_Hosts spec)"
  by (simp add: NormalizeDnsHosts_def)

lemma length_NormalizeDnsHosts [simp]:
  "length (dns_Hosts (NormalizeDnsHosts spec)) = length (dns_Hosts spec)"
  by (simp add: NormalizeDnsHosts_def)

lemma mset_NormalizeDnsHosts:
  "mset (dns_Hosts (NormalizeDnsHosts spec)) = image_mset normalize_entry (mset (dns_Hosts spec))"
  by (simp add: NormalizeDnsHosts_def)

lemma sorted_by_addr:
  "(\<forall>h\<in>set hs. parses h) \<Longrightarrow>
    sorted_wrt (\<lambda>a b. compareDnsHostEntry a b \<le> 0) hs \<longleftrightarrow> sorted (map addr_of hs)"
  unfolding sorted_map
  by (intro iffI; erule sorted_wrt_mono_rel[rotated]) (auto simp: compareDnsHostEntry_parsed)

lemma NormalizeDnsHosts_sorted:
  assumes "\<forall>h\<in>set (dns_Hosts spec). parses h"
  shows "sorted (map addr_of (dns_Hosts (NormalizeDnsHosts spec)))"
proof -
  have "sorted_wrt (\<lambda>a b. compareDnsHostEntry a b \<le> 0) (dns_Hosts (NormalizeDnsHosts spec))"
    unfolding NormalizeDnsHosts_def using assms by (auto intro!: by_addr.SortFunc_sorted)
  then show ?thesis
    using assms by (subst (asm) sorted_by_addr) (auto simp: set_NormalizeDnsHosts)
qed

lemma NormalizeDnsHosts_fixpoint:
  assumes "\<forall>h\<in>set hs. parses h \<and> normalize_entry h = h" and "sorted (map addr_of hs)"
  shows "NormalizeDnsHosts (spec\<lparr>dns_Hosts := hs\<rparr>) = spec\<lparr>dns_Hosts := hs\<rparr>"
proof -
  have "map normalize_entry hs = hs" using assms(1) by (simp add: map_idI)
  moreover have "slices_SortFunc hs compareDnsHostEntry = hs"
    using assms by (intro by_addr.SortFunc_ordered) (auto simp: sorted_by_addr)
  ultimately show ?thesis by (simp add: NormalizeDnsHosts_def)
qed

lemma NormalizeDnsHosts_permutation:
  assumes "\<forall>h\<in>set hs. parses h" and "distinct (map addr_of hs)" and "mset hs' = mset hs"
  shows "NormalizeDnsHosts (spec\<lparr>dns_Hosts := hs'\<rparr>) = NormalizeDnsHosts (spec\<lparr>dns_Hosts := hs\<rparr>)"
proof -
  have "x = y" if "x \<in> set hs" "y \<in> set hs" "compareDnsHostEntry x y = 0" for x y
    using that assms(1,2) by (auto simp: compareDnsHostEntry_parsed distinct_map dest: inj_onD)
  then have "slices_SortFunc (map normalize_entry hs') compareDnsHostEntry =
      slices_SortFunc (map normalize_entry hs) compareDnsHostEntry"
    using assms(1,3)
    by (intro by_addr.SortFunc_permutation) (auto simp: compareDnsHostEntry_def mset_map intro!: arg_cong[of _ _ normalize_entry])
  then show ?thesis by (simp add: NormalizeDnsHosts_def)
qed

text \<open>
  (C34) The normal form: where all addresses parse, the entries come out in address order, they are
  those of the spec with their names sorted and without duplicates, and normalising again changes
  nothing.
\<close>

theorem NormalizeDnsHosts_normal_form:
  assumes "list_all parses (dns_Hosts spec)"
  shows "sorted (map addr_of (dns_Hosts (NormalizeDnsHosts spec))) \<and>
    mset (dns_Hosts (NormalizeDnsHosts spec)) =
      image_mset (\<lambda>h. h\<lparr>dns_Hostnames := sorted_list_of_set (set (dns_Hostnames h))\<rparr>) (mset (dns_Hosts spec)) \<and>
    NormalizeDnsHosts (NormalizeDnsHosts spec) = NormalizeDnsHosts spec"
proof -
  let ?hs = "dns_Hosts (NormalizeDnsHosts spec)"
  have parse: "\<forall>h\<in>set (dns_Hosts spec). parses h" using assms by (simp add: list_all_iff)
  have "normalize_entry = (\<lambda>h. h\<lparr>dns_Hostnames := sorted_list_of_set (set (dns_Hostnames h))\<rparr>)"
    by (rule ext) (simp add: normalize_entry_def Compact_Sort)
  then have "mset ?hs = image_mset (\<lambda>h. h\<lparr>dns_Hostnames := sorted_list_of_set (set (dns_Hostnames h))\<rparr>)
      (mset (dns_Hosts spec))"
    by (simp add: mset_NormalizeDnsHosts)
  moreover have "NormalizeDnsHosts (spec\<lparr>dns_Hosts := ?hs\<rparr>) = spec\<lparr>dns_Hosts := ?hs\<rparr>"
    using parse NormalizeDnsHosts_sorted[OF parse]
    by (intro NormalizeDnsHosts_fixpoint) (auto simp: set_NormalizeDnsHosts)
  moreover have "spec\<lparr>dns_Hosts := ?hs\<rparr> = NormalizeDnsHosts spec"
    by (simp add: NormalizeDnsHosts_def)
  ultimately show ?thesis using NormalizeDnsHosts_sorted[OF parse] by simp
qed

definition unstable_hosts :: "DnsHostEntry list" where
  "unstable_hosts = map (\<lambda>ip. \<lparr>dns_IP = ip, dns_Hostnames = []\<rparr>) [''9.0.0.1'', ''10.0.0.1'', ''5'']"

text \<open>
  One address that does not parse is enough to lose the normal form: these three entries,
  listed in two orders, are left in two orders. Addresses compare by value and other strings
  bytewise, so \<open>9.0.0.1\<close> is before \<open>10.0.0.1\<close>, which is before \<open>5\<close>, which is before \<open>9.0.0.1\<close>.
\<close>

theorem NormalizeDnsHosts_unstable:
  "NormalizeDnsHosts \<lparr>dns_Controller = [], dns_Hosts = unstable_hosts\<rparr> \<noteq>
    NormalizeDnsHosts \<lparr>dns_Controller = [], dns_Hosts = rotate 1 unstable_hosts\<rparr> \<and>
   map (\<lambda>(a, b). compareIP a b) [(''9.0.0.1'', ''10.0.0.1''), (''10.0.0.1'', ''5''), (''5'', ''9.0.0.1'')] =
    [-1, -1, -1]"
  by code_simp

end
