(* ===== verification/DesiredIngress.thy ===== *)
theory DesiredIngress
  imports ApiTypes DnsSpec
begin

text \<open>
  \<open>internal/desired/ingress.go\<close>: the DNS entries wanted for Ingresses and HTTPRoutes, one
  per IngressRouter in use. The map \<open>hostsByRouter\<close> holds pointers to entries; each round
  fetches the entry of its router (making it where it is missing), extends it, and the map
  sees the extended entry. The in-place sorts of the arguments are not observed by the caller,
  whose only later use of a slice is the list of routers in status updates; the sorted routers
  are returned for it.
\<close>

definition IngressBasedName :: string where
  "IngressBasedName = ''ingress-based''"

record HTTPRouteLike =
  hr_Gateway :: string
  hr_Hostnames :: "string list"

definition ingressClass :: "Ingress \<Rightarrow> string" where
  "ingressClass ing =
    (case IngressClassName ing of
       Some c \<Rightarrow> c
     | None \<Rightarrow> (case map_of (Annotations ing) ''kubernetes.io/ingress.class'' of
         Some c \<Rightarrow> c | None \<Rightarrow> []))"

definition compareRouterName :: "IngressRouter \<Rightarrow> IngressRouter \<Rightarrow> int" where
  "compareRouterName a b = cmp_Compare (Name a) (Name b)"

definition compareIngressKey :: "Ingress \<Rightarrow> Ingress \<Rightarrow> int" where
  "compareIngressKey a b =
    cmp_Compare (Namespace a @ ''/'' @ Name a) (Namespace b @ ''/'' @ Name b)"

definition compareGateway :: "HTTPRouteLike \<Rightarrow> HTTPRouteLike \<Rightarrow> int" where
  "compareGateway a b = cmp_Compare (hr_Gateway a) (hr_Gateway b)"

definition routers_by_class :: "IngressRouter list \<Rightarrow> (string, IngressRouter) gomap" where
  "routers_by_class routers =
    fold (\<lambda>ir m. if irs_IngressClass (ir_Spec ir) \<noteq> []
                 then map_set (irs_IngressClass (ir_Spec ir)) ir m else m) routers []"

type_synonym host_map = "(string, DnsHostEntry) gomap"

definition getHost :: "string \<Rightarrow> string \<Rightarrow> host_map \<Rightarrow> DnsHostEntry" where
  "getHost routerName ip hostsByRouter =
    (case map_of hostsByRouter routerName of
       None \<Rightarrow> \<lparr>dns_IP = ip, dns_Hostnames = []\<rparr>
     | Some host \<Rightarrow> host)"

definition ingress_round :: "(string, IngressRouter) gomap \<Rightarrow> Ingress \<Rightarrow> host_map \<Rightarrow> host_map" where
  "ingress_round routerByClass ing hostsByRouter =
    (case map_of routerByClass (ingressClass ing) of
       None \<Rightarrow> hostsByRouter
     | Some ir \<Rightarrow>
         let host = getHost (Name ir) (irs_IPAddress (ir_Spec ir)) hostsByRouter;
             host = fold (\<lambda>rule host. if Host rule \<noteq> []
                            then host\<lparr>dns_Hostnames := dns_Hostnames host @ [Host rule]\<rparr>
                            else host) (Rules ing) host
         in map_set (Name ir) host hostsByRouter)"

definition route_round :: "(string, IngressRouter) gomap \<Rightarrow> HTTPRouteLike \<Rightarrow> host_map \<Rightarrow> host_map" where
  "route_round routerByClass hr hostsByRouter =
    (case map_of routerByClass (hr_Gateway hr) of
       None \<Rightarrow> hostsByRouter
     | Some ir \<Rightarrow>
         let host = getHost (Name ir) (irs_IPAddress (ir_Spec ir)) hostsByRouter;
             host = host\<lparr>dns_Hostnames := dns_Hostnames host @ hr_Hostnames hr\<rparr>
         in map_set (Name ir) host hostsByRouter)"

text \<open>Collecting the keys and sorting them makes the range over the map order-free.\<close>

definition entries_by_key :: "host_map \<Rightarrow> DnsHostEntry list" where
  "entries_by_key m = map (\<lambda>k. the (map_of m k)) (slices_Sort (map_keys m))"

definition BuildIngressBased ::
    "IngressRouter list \<Rightarrow> Ingress list \<Rightarrow> HTTPRouteLike list \<Rightarrow> DnsHostsSpec \<times> IngressRouter list" where
  "BuildIngressBased routers ingresses routes =
    (let routers = slices_SortFunc routers compareRouterName;
         routerByClass = routers_by_class routers;
         ingresses = slices_SortFunc ingresses compareIngressKey;
         hostsByRouter = fold (ingress_round routerByClass) ingresses [];
         routes = slices_SortFunc routes compareGateway;
         hostsByRouter = fold (route_round routerByClass) routes hostsByRouter;
         spec = \<lparr>dns_Controller = [], dns_Hosts = entries_by_key hostsByRouter\<rparr>
     in (NormalizeDnsHosts spec, routers))"

interpretation router_names: comparator_on compareRouterName UNIV
  by unfold_locales (auto simp: compareRouterName_def)

interpretation ingress_keys: comparator_on compareIngressKey UNIV
  by unfold_locales (auto simp: compareIngressKey_def)

interpretation route_gateways: comparator_on compareGateway UNIV
  by unfold_locales (auto simp: compareGateway_def)

subsection \<open>The loops in closed form\<close>

text \<open>
  Both loops take from an object a class (or gateway) and the host names it asks for. The
  address of an entry is that of the router whose round made it; where router names are
  distinct it is a function \<open>ip_of\<close> of the name.
\<close>

definition ingress_source :: "Ingress \<Rightarrow> string \<times> string list" where
  "ingress_source ing = (ingressClass ing, filter (\<lambda>h. h \<noteq> []) (map Host (Rules ing)))"

definition route_source :: "HTTPRouteLike \<Rightarrow> string \<times> string list" where
  "route_source hr = (hr_Gateway hr, hr_Hostnames hr)"

definition source_step ::
    "(string, IngressRouter) gomap \<Rightarrow> (string \<Rightarrow> string) \<Rightarrow> string \<times> string list \<Rightarrow> host_map \<Rightarrow> host_map" where
  "source_step routerByClass ip_of src m =
    (case map_of routerByClass (fst src) of
       None \<Rightarrow> m
     | Some ir \<Rightarrow>
         let host = getHost (Name ir) (ip_of (Name ir)) m
         in map_set (Name ir) (host\<lparr>dns_Hostnames := dns_Hostnames host @ snd src\<rparr>) m)"

definition router_name :: "(string, IngressRouter) gomap \<Rightarrow> string \<times> string list \<Rightarrow> string" where
  "router_name routerByClass src = Name (the (map_of routerByClass (fst src)))"

lemma fold_rules:
  "fold (\<lambda>rule host. if Host rule \<noteq> []
      then host\<lparr>dns_Hostnames := dns_Hostnames host @ [Host rule]\<rparr> else host) rules host =
    host\<lparr>dns_Hostnames := dns_Hostnames host @ filter (\<lambda>h. h \<noteq> []) (map Host rules)\<rparr>"
  by (induction rules arbitrary: host) auto

lemma DnsHostEntry_with_names:
  "dns_IP h = ip \<Longrightarrow> h\<lparr>dns_Hostnames := hs\<rparr> = \<lparr>dns_IP = ip, dns_Hostnames = hs\<rparr>"
  by (cases h) simp

interpretation router_groups: group_by
  "source_step routerByClass ip_of"
  "\<lambda>src. map_of routerByClass (fst src) \<noteq> None"
  "router_name routerByClass" snd
  "\<lambda>name hs. \<lparr>dns_IP = ip_of name, dns_Hostnames = hs\<rparr>" dns_Hostnames
  for routerByClass ip_of
proof unfold_locales
  fix src :: "string \<times> string list" and m :: host_map
  assume "map_of routerByClass (fst src) \<noteq> None"
    and "\<And>s. map_of m (router_name routerByClass src) = Some s \<Longrightarrow>
      s = \<lparr>dns_IP = ip_of (router_name routerByClass src), dns_Hostnames = dns_Hostnames s\<rparr>"
  then show "source_step routerByClass ip_of src m =
      map_set (router_name routerByClass src)
        \<lparr>dns_IP = ip_of (router_name routerByClass src),
         dns_Hostnames =
           (case map_of m (router_name routerByClass src) of
              None \<Rightarrow> [] | Some s \<Rightarrow> dns_Hostnames s) @ snd src\<rparr> m"
    by (auto simp: source_step_def getHost_def router_name_def Let_def DnsHostEntry_with_names
        split: option.splits dest!: arg_cong[of _ _ dns_IP])
qed (auto simp: source_step_def)

definition ip_table :: "(string, IngressRouter) gomap \<Rightarrow> string \<Rightarrow> string" where
  "ip_table routerByClass name =
    (case filter (\<lambda>ir. Name ir = name) (map snd routerByClass) of
       [] \<Rightarrow> [] | ir # _ \<Rightarrow> irs_IPAddress (ir_Spec ir))"

definition consistent :: "(string, IngressRouter) gomap \<Rightarrow> bool" where
  "consistent routerByClass \<longleftrightarrow>
    (\<forall>ir \<in> ran (map_of routerByClass). irs_IPAddress (ir_Spec ir) = ip_table routerByClass (Name ir))"

lemma ingress_round_source:
  "consistent routerByClass \<Longrightarrow>
    ingress_round routerByClass ing m =
    source_step routerByClass (ip_table routerByClass) (ingress_source ing) m"
  by (auto simp: ingress_round_def source_step_def ingress_source_def fold_rules Let_def
      consistent_def ranI split: option.splits)

lemma route_round_source:
  "consistent routerByClass \<Longrightarrow>
    route_round routerByClass hr m =
    source_step routerByClass (ip_table routerByClass) (route_source hr) m"
  by (auto simp: route_round_def source_step_def route_source_def Let_def consistent_def ranI
      split: option.splits)

lemma fold_rounds:
  assumes "consistent routerByClass"
  shows "fold (route_round routerByClass) routes (fold (ingress_round routerByClass) ings m) =
    fold (source_step routerByClass (ip_table routerByClass))
      (map ingress_source ings @ map route_source routes) m"
proof -
  have "fold (ingress_round routerByClass) ings m' =
      fold (source_step routerByClass (ip_table routerByClass)) (map ingress_source ings) m'" for m'
    by (induction ings arbitrary: m') (simp_all add: ingress_round_source[OF assms])
  moreover have "fold (route_round routerByClass) routes m' =
      fold (source_step routerByClass (ip_table routerByClass)) (map route_source routes) m'" for m'
    by (induction routes arbitrary: m') (simp_all add: route_round_source[OF assms])
  ultimately show ?thesis by simp
qed

subsection \<open>Which router serves a class\<close>

definition class_router :: "IngressRouter list \<Rightarrow> string \<Rightarrow> IngressRouter option" where
  "class_router routers c = map_of (routers_by_class (slices_SortFunc routers compareRouterName)) c"

lemma routers_by_class_filter:
  "routers_by_class rs =
    fold (\<lambda>ir m. map_set (irs_IngressClass (ir_Spec ir)) ir m)
      (filter (\<lambda>ir. irs_IngressClass (ir_Spec ir) \<noteq> []) rs) []"
proof -
  have "fold (\<lambda>ir m. if irs_IngressClass (ir_Spec ir) \<noteq> []
                 then map_set (irs_IngressClass (ir_Spec ir)) ir m else m) rs m =
    fold (\<lambda>ir m. map_set (irs_IngressClass (ir_Spec ir)) ir m)
      (filter (\<lambda>ir. irs_IngressClass (ir_Spec ir) \<noteq> []) rs) m" for m
    by (induction rs arbitrary: m) auto
  then show ?thesis by (simp only: routers_by_class_def)
qed

lemma map_of_routers_by_class:
  "map_of (routers_by_class rs) c =
    (case filter (\<lambda>ir. irs_IngressClass (ir_Spec ir) = c \<and> c \<noteq> []) (rev rs) of
       [] \<Rightarrow> None | ir # _ \<Rightarrow> Some ir)"
proof -
  have "filter (\<lambda>ir. irs_IngressClass (ir_Spec ir) \<noteq> [] \<and> irs_IngressClass (ir_Spec ir) = c) (rev rs) =
      filter (\<lambda>ir. irs_IngressClass (ir_Spec ir) = c \<and> c \<noteq> []) (rev rs)"
    by (rule filter_cong) auto
  then show ?thesis
    by (simp add: routers_by_class_filter map_of_fold_map_set rev_filter split: list.split)
qed

lemma set_routers_by_class: "snd ` set (routers_by_class rs) \<subseteq> set rs"
proof -
  have "(c, ir) \<in> set (routers_by_class rs) \<Longrightarrow> ir \<in> set rs" for c ir
  proof -
    assume "(c, ir) \<in> set (routers_by_class rs)"
    moreover have "wf_map (routers_by_class rs)"
      by (simp add: routers_by_class_filter fold_map_set_wf)
    ultimately have "map_of (routers_by_class rs) c = Some ir"
      by (simp add: wf_map_in_set_iff)
    then have "ir \<in> set (filter (\<lambda>ir. irs_IngressClass (ir_Spec ir) = c \<and> c \<noteq> []) (rev rs))"
      unfolding map_of_routers_by_class by (auto split: list.splits simp del: set_filter)
    then show ?thesis by auto
  qed
  then show ?thesis by auto
qed

lemma class_router_Some:
  assumes "class_router routers c = Some ir"
  shows "ir \<in> set routers" and "irs_IngressClass (ir_Spec ir) = c" and "c \<noteq> []"
proof -
  have "ir \<in> set (filter (\<lambda>ir. irs_IngressClass (ir_Spec ir) = c \<and> c \<noteq> [])
      (rev (slices_SortFunc routers compareRouterName)))"
    using assms unfolding class_router_def map_of_routers_by_class
    by (auto split: list.splits simp del: set_filter)
  then show "ir \<in> set routers" "irs_IngressClass (ir_Spec ir) = c" "c \<noteq> []" by auto
qed

text \<open>
  Of the routers that claim an ingress class, the one with the greatest name serves it; the
  empty class is served by none.
\<close>

theorem class_router_iff:
  assumes "distinct (map Name routers)"
  shows "class_router routers c = Some ir \<longleftrightarrow>
    ir \<in> set routers \<and> irs_IngressClass (ir_Spec ir) = c \<and> c \<noteq> [] \<and>
    (\<forall>ir' \<in> set routers. irs_IngressClass (ir_Spec ir') = c \<longrightarrow> Name ir' \<le> Name ir)"
    (is "_ \<longleftrightarrow> ?greatest ir")
proof -
  let ?rs = "slices_SortFunc routers compareRouterName"
  let ?P = "\<lambda>ir. irs_IngressClass (ir_Spec ir) = c \<and> c \<noteq> []"
  have "sorted_wrt (\<lambda>a b. Name a \<le> Name b) ?rs"
    using router_names.SortFunc_sorted[of routers]
    by (simp add: compareRouterName_def)
  then have sorted: "sorted_wrt (\<lambda>a b. Name b \<le> Name a) (filter ?P (rev ?rs))"
    by (intro sorted_wrt_filter) (simp add: sorted_wrt_rev)
  have uniq: "a = b" if "?greatest a" "?greatest b" for a b
    using that by (intro distinct_map_eqD[OF assms] antisym) auto
  show ?thesis
  proof (cases "filter ?P (rev ?rs)")
    case Nil
    then show ?thesis
      by (auto simp: class_router_def map_of_routers_by_class filter_empty_conv)
  next
    case (Cons r rest)
    have mem: "ir' \<in> set (r # rest) \<longleftrightarrow> ir' \<in> set routers \<and> ?P ir'" for ir'
      unfolding Cons[symmetric] by auto
    have "Name ir' \<le> Name r" if "ir' \<in> set (r # rest)" for ir'
      using sorted that unfolding Cons by auto
    then have "?greatest r" using mem[of r] mem by simp
    moreover have "class_router routers c = Some r"
      by (simp add: class_router_def map_of_routers_by_class Cons)
    ultimately show ?thesis using uniq by auto
  qed
qed

lemma consistent_routers_by_class:
  assumes "distinct (map Name routers)" and "set rs = set routers"
  shows "consistent (routers_by_class rs)"
  unfolding consistent_def
proof
  fix ir assume "ir \<in> ran (map_of (routers_by_class rs))"
  then have ir: "ir \<in> snd ` set (routers_by_class rs)"
    by (auto simp: ran_def dest!: map_of_SomeD intro: rev_image_eqI)
  have "x = ir" if "x \<in> snd ` set (routers_by_class rs)" "Name x = Name ir" for x
    using that ir set_routers_by_class[of rs] assms(2)
    by (intro distinct_map_eqD[OF assms(1)]) blast+
  then have "\<forall>x\<in>set (filter (\<lambda>x. Name x = Name ir) (map snd (routers_by_class rs))). x = ir"
    by auto
  moreover have "filter (\<lambda>x. Name x = Name ir) (map snd (routers_by_class rs)) \<noteq> []"
    using ir by (auto simp: filter_empty_conv)
  ultimately show "irs_IPAddress (ir_Spec ir) = ip_table (routers_by_class rs) (Name ir)"
    unfolding ip_table_def by (auto split: list.splits simp del: set_filter)
qed

lemma set_entries_by_key: "set (entries_by_key m) = ran (map_of m)"
proof -
  have "set (entries_by_key m) = (\<lambda>k. the (map_of m k)) ` dom (map_of m)"
    by (simp add: entries_by_key_def dom_map_of_conv_image_fst)
  then show ?thesis by (force simp: ran_def dom_def)
qed

subsection \<open>What is wanted\<close>

definition ingress_sources :: "Ingress list \<Rightarrow> HTTPRouteLike list \<Rightarrow> (string \<times> string list) list" where
  "ingress_sources ingresses routes = map ingress_source ingresses @ map route_source routes"

definition router_sources ::
    "IngressRouter list \<Rightarrow> (string \<times> string list) list \<Rightarrow> IngressRouter \<Rightarrow> (string \<times> string list) list" where
  "router_sources routers sources ir =
    filter (\<lambda>src. class_router routers (fst src) = Some ir) sources"

lemma BuildIngressBased_fold:
  assumes "distinct (map Name routers)"
  defines "routerByClass \<equiv> routers_by_class (slices_SortFunc routers compareRouterName)"
  shows "fst (BuildIngressBased routers ingresses routes) =
    NormalizeDnsHosts \<lparr>dns_Controller = [], dns_Hosts = entries_by_key
      (fold (source_step routerByClass (ip_table routerByClass))
        (ingress_sources (slices_SortFunc ingresses compareIngressKey)
          (slices_SortFunc routes compareGateway)) [])\<rparr>"
  unfolding BuildIngressBased_def Let_def routerByClass_def ingress_sources_def
  by (subst fold_rounds) (simp_all add: consistent_routers_by_class[OF assms(1)])

lemma router_name_unique:
  assumes "distinct (map Name routers)"
    and "class_router routers c = Some ir" and "class_router routers c' = Some ir'"
  shows "Name ir = Name ir' \<longleftrightarrow> ir = ir'"
  using assms class_router_Some(1) by (blast intro: distinct_map_eqD)

lemma router_members:
  assumes "distinct (map Name routers)" and "class_router routers c = Some ir"
  shows "router_groups.members (routers_by_class (slices_SortFunc routers compareRouterName))
      sources (Name ir) = router_sources routers sources ir"
  unfolding router_groups.members_def
  unfolding router_sources_def router_name_def class_router_def[symmetric]
  by (rule filter_cong) (auto simp: router_name_unique[OF assms(1) _ assms(2)])

lemma ran_router_hosts:
  fixes routers sources
  defines "rbc \<equiv> routers_by_class (slices_SortFunc routers compareRouterName)"
  assumes "distinct (map Name routers)"
  shows "ran (map_of (fold (source_step rbc (ip_table rbc)) sources [])) =
    {\<lparr>dns_IP = irs_IPAddress (ir_Spec ir),
      dns_Hostnames = concat (map snd (router_sources routers sources ir))\<rparr>
     | ir. router_sources routers sources ir \<noteq> []}" (is "ran (map_of ?m) = ?R")
proof -
  have ip: "ip_table rbc (Name ir) = irs_IPAddress (ir_Spec ir)"
    if "class_router routers c = Some ir" for c ir
    using consistent_routers_by_class[OF assms(2), of "slices_SortFunc routers compareRouterName"] that
    by (auto simp: consistent_def class_router_def ranI rbc_def)
  have hosts: "map_of ?m (Name ir) =
      (if router_sources routers sources ir = [] then None
       else Some \<lparr>dns_IP = irs_IPAddress (ir_Spec ir),
         dns_Hostnames = concat (map snd (router_sources routers sources ir))\<rparr>)"
    if "class_router routers c = Some ir" for c ir
    using router_members[OF assms(2) that] ip[OF that]
    by (simp add: router_groups.map_of_fold_step rbc_def)
  have served: "\<exists>c ir. class_router routers c = Some ir \<and> k = Name ir" if "map_of ?m k = Some e" for k e
  proof -
    have "router_groups.members rbc sources k \<noteq> []"
      using that by (auto simp: router_groups.map_of_fold_step split: if_splits)
    then show ?thesis
      unfolding router_groups.members_def
      unfolding router_name_def rbc_def class_router_def[symmetric]
      by (fastforce simp: filter_empty_conv)
  qed
  have used: "\<exists>c. class_router routers c = Some ir" if "router_sources routers sources ir \<noteq> []" for ir
    using that by (auto simp: router_sources_def filter_empty_conv)
  show ?thesis
  proof (intro equalityI subsetI)
    fix e assume "e \<in> ran (map_of ?m)"
    then obtain k where "map_of ?m k = Some e" by (auto simp: ran_def)
    with served obtain c ir where "class_router routers c = Some ir" "map_of ?m (Name ir) = Some e"
      by blast
    with hosts show "e \<in> ?R" by (auto split: if_splits)
  next
    fix e assume "e \<in> ?R"
    with used hosts show "e \<in> ran (map_of ?m)" by (force intro: ranI)
  qed
qed

text \<open>
  (C16) The DNS entries wanted for Ingresses and HTTPRoutes: exactly one per router that serves
  the class (or gateway) of some object, with the router's address and the sorted, distinct host
  names of all the objects it serves.
\<close>

theorem BuildIngressBased_entries:
  assumes "distinct (map Name routers)"
  shows "h \<in> set (dns_Hosts (fst (BuildIngressBased routers ingresses routes))) \<longleftrightarrow>
    (\<exists>ir. router_sources routers (ingress_sources ingresses routes) ir \<noteq> [] \<and>
      h = \<lparr>dns_IP = irs_IPAddress (ir_Spec ir),
           dns_Hostnames = sorted_list_of_set
             (\<Union>src\<in>set (router_sources routers (ingress_sources ingresses routes) ir). set (snd src))\<rparr>)"
proof -
  let ?srcs = "ingress_sources (slices_SortFunc ingresses compareIngressKey)
    (slices_SortFunc routes compareGateway)"
  have same: "set (router_sources routers ?srcs ir) =
      set (router_sources routers (ingress_sources ingresses routes) ir)" for ir
    by (auto simp: router_sources_def ingress_sources_def)
  then have empty: "router_sources routers ?srcs ir = [] \<longleftrightarrow>
      router_sources routers (ingress_sources ingresses routes) ir = []" for ir
    by (metis set_empty)
  have "set (dns_Hosts (fst (BuildIngressBased routers ingresses routes))) =
      normalize_entry ` {\<lparr>dns_IP = irs_IPAddress (ir_Spec ir),
        dns_Hostnames = concat (map snd (router_sources routers ?srcs ir))\<rparr>
       | ir. router_sources routers ?srcs ir \<noteq> []}"
    by (simp add: BuildIngressBased_fold[OF assms] set_NormalizeDnsHosts set_entries_by_key
        ran_router_hosts[OF assms])
  moreover have "normalize_entry \<lparr>dns_IP = irs_IPAddress (ir_Spec ir),
        dns_Hostnames = concat (map snd (router_sources routers ?srcs ir))\<rparr> =
      \<lparr>dns_IP = irs_IPAddress (ir_Spec ir),
       dns_Hostnames = sorted_list_of_set
        (\<Union>src\<in>set (router_sources routers (ingress_sources ingresses routes) ir). set (snd src))\<rparr>" for ir
    by (simp add: normalize_entry_def Compact_Sort same)
  ultimately show ?thesis by (simp add: setcompr_eq_image image_image empty) blast
qed

end
