(* ===== verification/DesiredLB.thy ===== *)
theory DesiredLB
  imports ApiTypes DnsSpec DesiredIngress
begin

text \<open>
  \<open>internal/desired/loadbalancer.go\<close>: the DNS entries wanted for Services of type
  LoadBalancer, one per address in use. The map \<open>byIP\<close> holds pointers to entries, as
  \<open>hostsByRouter\<close> does in theory \<open>DesiredIngress\<close>.
\<close>

definition LoadBalancerBasedName :: string where
  "LoadBalancerBasedName = ''load-balancer-based''"

definition compareServiceKey :: "Service \<Rightarrow> Service \<Rightarrow> int" where
  "compareServiceKey a b =
    cmp_Compare (Namespace a @ ''/'' @ Name a) (Namespace b @ ''/'' @ Name b)"

text \<open>The address of a service: the one its status reports first, else the one asked for.\<close>

definition service_ip :: "Service \<Rightarrow> string" where
  "service_ip svc =
    (case svc_LoadBalancerIngress svc of
       ing # _ \<Rightarrow> if lbi_IP ing \<noteq> [] then lbi_IP ing else svc_LoadBalancerIP svc
     | [] \<Rightarrow> svc_LoadBalancerIP svc)"

definition service_round :: "string \<Rightarrow> Service \<Rightarrow> host_map \<Rightarrow> host_map" where
  "service_round sfx svc byIP =
    (if svc_Type svc \<noteq> ServiceTypeLoadBalancer then byIP
     else
       let ip = service_ip svc in
       if ip = [] then byIP
       else
         let entry = (case map_of byIP ip of
                        Some entry \<Rightarrow> entry
                      | None \<Rightarrow> \<lparr>dns_IP = ip, dns_Hostnames = []\<rparr>)
         in map_set ip (entry\<lparr>dns_Hostnames := dns_Hostnames entry @ [Name svc @ sfx]\<rparr>) byIP)"

definition BuildLoadBalancerBased :: "Service list \<Rightarrow> string \<Rightarrow> DnsHostsSpec" where
  "BuildLoadBalancerBased services sfx =
    (let services = slices_SortFunc services compareServiceKey;
         byIP = fold (service_round sfx) services [];
         spec = \<lparr>dns_Controller = [], dns_Hosts = entries_by_key byIP\<rparr>
     in NormalizeDnsHosts spec)"

interpretation service_keys: comparator_on compareServiceKey UNIV
  by unfold_locales (auto simp: compareServiceKey_def)

subsection \<open>The loop in closed form\<close>

definition balanced :: "Service \<Rightarrow> bool" where
  "balanced svc \<longleftrightarrow> svc_Type svc = ServiceTypeLoadBalancer \<and> service_ip svc \<noteq> []"

interpretation ip_groups: group_by
  "service_round sfx" balanced service_ip "\<lambda>svc. [Name svc @ sfx]"
  "\<lambda>ip hs. \<lparr>dns_IP = ip, dns_Hostnames = hs\<rparr>" dns_Hostnames
  for sfx
proof unfold_locales
  fix svc :: Service and m :: host_map
  assume "balanced svc"
    and "\<And>s. map_of m (service_ip svc) = Some s \<Longrightarrow>
      s = \<lparr>dns_IP = service_ip svc, dns_Hostnames = dns_Hostnames s\<rparr>"
  then show "service_round sfx svc m =
      map_set (service_ip svc)
        \<lparr>dns_IP = service_ip svc,
         dns_Hostnames = (case map_of m (service_ip svc) of None \<Rightarrow> [] | Some s \<Rightarrow> dns_Hostnames s) @
           [Name svc @ sfx]\<rparr> m"
    by (auto simp: service_round_def balanced_def Let_def DnsHostEntry_with_names
        split: option.splits dest!: arg_cong[of _ _ dns_IP])
qed (auto simp: service_round_def balanced_def Let_def)

lemma set_BuildLoadBalancerBased:
  "h \<in> set (dns_Hosts (BuildLoadBalancerBased services sfx)) \<longleftrightarrow>
    (\<exists>svc\<in>set services. balanced svc \<and>
      h = \<lparr>dns_IP = service_ip svc,
           dns_Hostnames = sorted_list_of_set
             {Name s @ sfx | s. s \<in> set services \<and> balanced s \<and> service_ip s = service_ip svc}\<rparr>)"
proof -
  let ?ss = "slices_SortFunc services compareServiceKey"
  let ?members = "\<lambda>ip. ip_groups.members ?ss ip"
  let ?e = "\<lambda>ip. \<lparr>dns_IP = ip, dns_Hostnames = map (\<lambda>s. Name s @ sfx) (?members ip)\<rparr>"
  have mem: "set (?members ip) = {s \<in> set services. balanced s \<and> service_ip s = ip}" for ip
    by (auto simp: ip_groups.members_def)
  have "ran (map_of (fold (service_round sfx) ?ss [])) = ?e ` {ip. ?members ip \<noteq> []}"
    by (auto simp: ran_def ip_groups.map_of_fold_step image_iff)
  moreover have "normalize_entry (?e ip) = \<lparr>dns_IP = ip, dns_Hostnames = sorted_list_of_set
      {Name s @ sfx | s. s \<in> set services \<and> balanced s \<and> service_ip s = ip}\<rparr>" for ip
  proof -
    have "(\<lambda>s. Name s @ sfx) ` set (?members ip) =
        {Name s @ sfx | s. s \<in> set services \<and> balanced s \<and> service_ip s = ip}"
      unfolding mem by blast
    then show ?thesis by (simp add: normalize_entry_def Compact_Sort)
  qed
  moreover have "?members ip \<noteq> [] \<longleftrightarrow> (\<exists>svc\<in>set services. balanced svc \<and> service_ip svc = ip)" for ip
    using mem[of ip] by (metis (mono_tags, lifting) empty_Collect_eq set_empty)
  ultimately show ?thesis
    by (simp add: BuildLoadBalancerBased_def Let_def set_NormalizeDnsHosts set_entries_by_key
        image_image) blast
qed

lemma entries_by_key_IPs:
  assumes "\<And>k e. map_of m k = Some e \<Longrightarrow> dns_IP e = k"
  shows "map dns_IP (entries_by_key m) = slices_Sort (map_keys m)"
proof -
  have "dns_IP (the (map_of m k)) = k" if "k \<in> set (map_keys m)" for k
    using that assms by (metis domD option.sel set_keys_dom)
  then show ?thesis unfolding entries_by_key_def map_map by (intro map_idI) simp
qed

lemma BuildLoadBalancerBased_distinct:
  "distinct (map dns_IP (dns_Hosts (BuildLoadBalancerBased services sfx)))"
proof -
  let ?m = "fold (service_round sfx) (slices_SortFunc services compareServiceKey) []"
  have "map dns_IP (entries_by_key ?m) = slices_Sort (map_keys ?m)"
    by (rule entries_by_key_IPs) (auto simp: ip_groups.map_of_fold_step split: if_splits)
  moreover have "distinct (slices_Sort (map_keys ?m))"
    using ip_groups.wf_fold_step[of sfx "slices_SortFunc services compareServiceKey"]
    by (simp add: slices_Sort_sort wf_map_def)
  ultimately have "distinct (map dns_IP (entries_by_key ?m))" by simp
  then show ?thesis
    by (simp add: BuildLoadBalancerBased_def Let_def NormalizeDnsHosts_def comp_def)
qed

text \<open>
  (C17) The DNS entries wanted for LoadBalancer Services: exactly one per address some such
  service has, with the sorted, distinct suffixed names of the services at that address.
\<close>

theorem BuildLoadBalancerBased_entries:
  "distinct (map dns_IP (dns_Hosts (BuildLoadBalancerBased services sfx))) \<and>
   (h \<in> set (dns_Hosts (BuildLoadBalancerBased services sfx)) \<longleftrightarrow>
    (\<exists>svc\<in>set services. svc_Type svc = ServiceTypeLoadBalancer \<and> service_ip svc \<noteq> [] \<and>
      h = \<lparr>dns_IP = service_ip svc,
           dns_Hostnames = sorted_list_of_set
             {Name s @ sfx | s. s \<in> set services \<and> svc_Type s = ServiceTypeLoadBalancer \<and>
               service_ip s = service_ip svc}\<rparr>))"
proof -
  have "{Name s @ sfx | s. s \<in> set services \<and> balanced s \<and> service_ip s = service_ip svc} =
      {Name s @ sfx | s. s \<in> set services \<and> svc_Type s = ServiceTypeLoadBalancer \<and>
        service_ip s = service_ip svc}" if "service_ip svc \<noteq> []" for svc
    using that by (auto simp: balanced_def)
  then show ?thesis
    using set_BuildLoadBalancerBased[of h services sfx] BuildLoadBalancerBased_distinct[of services sfx]
    by (auto simp: balanced_def)
qed

end
