(* ===== verification/Config.thy ===== *)
theory Config
  imports GoStrings
begin

text \<open>
  Package \<open>internal/config\<close>: the \<open>Config\<close> struct, \<open>Load\<close> from the environment
  (\<open>config.go\<close>), the derived domain-search list (\<open>domain_search.go\<close>), and
  \<open>splitCommaList\<close> and \<open>finalize\<close> (\<open>flags.go\<close>). The process environment is a parameter
  \<open>env\<close>, the function \<open>os.LookupEnv\<close>; the command line is in theory \<open>Flags\<close>.
\<close>

record Config =
  DryRun :: bool
  DnsmasqResourcesNamespace :: string
  DnsmasqDNSServer :: string
  DnsmasqDomainName :: string
  DnsmasqDomainSearch :: "string list"
  EnableDeviceBasedHosts :: bool
  EnableDeviceShortName :: bool
  DeviceSuffix :: string
  EnableFreeRadiusDevices :: bool
  FreeRadiusDevicesNamespace :: string
  FreeRadiusDevicesWirelessOnly :: bool
  EnableIngressBasedDNSHosts :: bool
  UseHTTPRoutesForIngress :: bool
  EnableLoadBalancerBasedDNSHosts :: bool
  LoadBalancerBasedSuffix :: string
  WatchNamespaces :: "string list"

type_synonym environ = "string \<Rightarrow> string option"

definition os_Getenv :: "environ \<Rightarrow> string \<Rightarrow> string" where
  "os_Getenv env key = (case env key of None \<Rightarrow> [] | Some v \<Rightarrow> v)"

definition envBool :: "environ \<Rightarrow> string \<Rightarrow> bool \<Rightarrow> bool" where
  "envBool env key defaultVal =
    (case env key of None \<Rightarrow> defaultVal | Some v \<Rightarrow> v \<noteq> ''false'' \<and> v \<noteq> ''0'')"

definition getenv :: "environ \<Rightarrow> string \<Rightarrow> string \<Rightarrow> string" where
  "getenv env key def = (let v = os_Getenv env key in if v \<noteq> [] then v else def)"

subsection \<open>splitCommaList\<close>

text \<open>The loop over the parts: trim, keep what is not empty, append.\<close>

fun keep_parts :: "string list \<Rightarrow> string list \<Rightarrow> string list" where
  "keep_parts [] out = out"
| "keep_parts (part # parts) out =
    (let part = strings_TrimSpace part in
     keep_parts parts (if part \<noteq> [] then out @ [part] else out))"

definition splitCommaList :: "string \<Rightarrow> string list" where
  "splitCommaList s = (if s = [] then [] else keep_parts (split_byte (CHR '','') s) [])"

lemma keep_parts_eq:
  "keep_parts parts out = out @ filter (\<lambda>p. p \<noteq> []) (map strings_TrimSpace parts)"
  by (induction parts arbitrary: out) (simp_all add: Let_def)

lemma splitCommaList_eq:
  "splitCommaList s = filter (\<lambda>p. p \<noteq> []) (map strings_TrimSpace (split_byte (CHR '','') s))"
proof -
  have "strings_TrimSpace [] = []" using set_TrimSpace[of "[]"] by simp
  then show ?thesis by (simp add: splitCommaList_def keep_parts_eq)
qed

text \<open>A list entry as \<open>splitCommaList\<close> produces it.\<close>

definition clean_entry :: "string \<Rightarrow> bool" where
  "clean_entry p \<longleftrightarrow> p \<noteq> [] \<and> strings_TrimSpace p = p \<and> CHR '','' \<notin> set p"

lemma splitCommaList_clean: "p \<in> set (splitCommaList s) \<Longrightarrow> clean_entry p"
  using set_TrimSpace split_byte_no_sep
  by (fastforce simp: splitCommaList_eq clean_entry_def)

lemma splitCommaList_parts:
  assumes "\<forall>p\<in>set ps. CHR '','' \<notin> set p"
  shows "splitCommaList (strings_Join ps '','') = filter (\<lambda>p. p \<noteq> []) (map strings_TrimSpace ps)"
proof (cases "ps = []")
  case True
  then show ?thesis by (simp add: splitCommaList_def)
next
  case False
  then show ?thesis using assms by (simp add: splitCommaList_eq split_byte_Join)
qed

lemma splitCommaList_Join:
  assumes "\<forall>p\<in>set ps. clean_entry p"
  shows "splitCommaList (strings_Join ps '','') = ps"
proof -
  have "map strings_TrimSpace ps = ps"
    using assms by (intro map_idI) (auto simp: clean_entry_def)
  moreover have "filter (\<lambda>p. p \<noteq> []) ps = ps"
    using assms by (auto simp: filter_id_conv clean_entry_def)
  ultimately show ?thesis using assms by (simp add: splitCommaList_parts clean_entry_def)
qed

subsection \<open>deriveDomainSearch, finalize\<close>

text \<open>The closure \<open>add\<close> of \<open>deriveDomainSearch\<close>, on the captured list \<open>out\<close>.\<close>

definition add_search :: "string \<Rightarrow> string list \<Rightarrow> string list" where
  "add_search raw out =
    (let d = strings_TrimPrefix (strings_TrimSpace raw) ''.'' in
     if d = [] then out
     else if slices_Contains out d then out
     else out @ [d])"

definition deriveDomainSearch :: "Config \<Rightarrow> Config" where
  "deriveDomainSearch cfg =
    (if length (DnsmasqDomainSearch cfg) > 0 \<or> DnsmasqDomainName cfg = [] then cfg
     else if DeviceSuffix cfg = [] \<and> LoadBalancerBasedSuffix cfg = [] then cfg
     else
       let out = add_search (DnsmasqDomainName cfg) [];
           out = add_search (LoadBalancerBasedSuffix cfg) out;
           out = add_search (DeviceSuffix cfg) out
       in cfg\<lparr>DnsmasqDomainSearch := out\<rparr>)"

definition finalize :: "Config \<Rightarrow> Config" where
  "finalize cfg =
    (let cfg = (if EnableFreeRadiusDevices cfg \<and> FreeRadiusDevicesNamespace cfg = []
                then cfg\<lparr>FreeRadiusDevicesNamespace := DnsmasqResourcesNamespace cfg\<rparr>
                else cfg)
     in deriveDomainSearch cfg)"

definition Load :: "environ \<Rightarrow> Config" where
  "Load env =
    (let watchNS = os_Getenv env ''HOMELAB_WATCH_NAMESPACES'';
         watch = (if watchNS \<noteq> [] then keep_parts (split_byte (CHR '','') watchNS) [] else []);
         cfg =
           \<lparr>DryRun = envBool env ''DRY_RUN'' False,
            DnsmasqResourcesNamespace = getenv env ''DNSMASQ_RESOURCES_NAMESPACE'' ''default'',
            DnsmasqDNSServer = os_Getenv env ''DNSMASQ_DNS_SERVER'',
            DnsmasqDomainName = os_Getenv env ''DNSMASQ_DOMAIN_NAME'',
            DnsmasqDomainSearch = splitCommaList (os_Getenv env ''DNSMASQ_DOMAIN_SEARCH''),
            EnableDeviceBasedHosts = envBool env ''ENABLE_DEVICE_BASED_HOSTS'' True,
            EnableDeviceShortName = envBool env ''ENABLE_DEVICE_SHORT_NAME'' True,
            DeviceSuffix = os_Getenv env ''DEVICE_SUFFIX'',
            EnableFreeRadiusDevices = envBool env ''ENABLE_FREERADIUS_DEVICES'' False,
            FreeRadiusDevicesNamespace = os_Getenv env ''FREERADIUS_DEVICES_NAMESPACE'',
            FreeRadiusDevicesWirelessOnly = envBool env ''FREERADIUS_DEVICES_WIRELESS_ONLY'' True,
            EnableIngressBasedDNSHosts = envBool env ''ENABLE_INGRESS_BASED_DNS_HOSTS'' True,
            UseHTTPRoutesForIngress = envBool env ''USE_HTTP_ROUTES_FOR_INGRESS'' True,
            EnableLoadBalancerBasedDNSHosts =
              envBool env ''ENABLE_LOAD_BALANCER_BASED_DNS_HOSTS'' True,
            LoadBalancerBasedSuffix = getenv env ''LOAD_BALANCER_BASED_SUFFIX'' '''',
            WatchNamespaces = watch\<rparr>
     in finalize cfg)"

text \<open>What \<open>finalize\<close> leaves alone, and that it runs once as well as twice.\<close>

lemma deriveDomainSearch_other [simp]:
  "DryRun (deriveDomainSearch cfg) = DryRun cfg"
  "DnsmasqResourcesNamespace (deriveDomainSearch cfg) = DnsmasqResourcesNamespace cfg"
  "DnsmasqDomainName (deriveDomainSearch cfg) = DnsmasqDomainName cfg"
  "EnableFreeRadiusDevices (deriveDomainSearch cfg) = EnableFreeRadiusDevices cfg"
  "FreeRadiusDevicesNamespace (deriveDomainSearch cfg) = FreeRadiusDevicesNamespace cfg"
  "DeviceSuffix (deriveDomainSearch cfg) = DeviceSuffix cfg"
  "LoadBalancerBasedSuffix (deriveDomainSearch cfg) = LoadBalancerBasedSuffix cfg"
  "WatchNamespaces (deriveDomainSearch cfg) = WatchNamespaces cfg"
  by (simp_all add: deriveDomainSearch_def Let_def)

lemma deriveDomainSearch_idem: "deriveDomainSearch (deriveDomainSearch cfg) = deriveDomainSearch cfg"
  by (simp add: deriveDomainSearch_def Let_def)

lemma finalize_other [simp]:
  "DryRun (finalize cfg) = DryRun cfg"
  "DnsmasqResourcesNamespace (finalize cfg) = DnsmasqResourcesNamespace cfg"
  "DnsmasqDomainName (finalize cfg) = DnsmasqDomainName cfg"
  "EnableFreeRadiusDevices (finalize cfg) = EnableFreeRadiusDevices cfg"
  "DeviceSuffix (finalize cfg) = DeviceSuffix cfg"
  "LoadBalancerBasedSuffix (finalize cfg) = LoadBalancerBasedSuffix cfg"
  "WatchNamespaces (finalize cfg) = WatchNamespaces cfg"
  by (simp_all add: finalize_def Let_def)

lemma finalize_FreeRadius:
  "FreeRadiusDevicesNamespace (finalize cfg) =
    (if EnableFreeRadiusDevices cfg \<and> FreeRadiusDevicesNamespace cfg = []
     then DnsmasqResourcesNamespace cfg else FreeRadiusDevicesNamespace cfg)"
  by (simp add: finalize_def Let_def)

lemma finalize_DomainSearch:
  "DnsmasqDomainSearch (finalize cfg) = DnsmasqDomainSearch (deriveDomainSearch cfg)"
  by (auto simp: finalize_def Let_def deriveDomainSearch_def)

lemma Load_WatchNamespaces:
  "WatchNamespaces (Load env) = splitCommaList (os_Getenv env ''HOMELAB_WATCH_NAMESPACES'')"
  by (simp add: Load_def Let_def splitCommaList_def)

lemma Load_finalized: "\<exists>cfg. Load env = finalize cfg"
  unfolding Load_def Let_def by blast

lemma add_search_props:
  assumes "distinct out" and "[] \<notin> set out"
  shows "distinct (add_search raw out)" "[] \<notin> set (add_search raw out)"
  using assms by (auto simp: add_search_def Let_def)

lemma set_add_search:
  "set (add_search raw out) =
    set out \<union> {d. d = strings_TrimPrefix (strings_TrimSpace raw) ''.'' \<and> d \<noteq> []}"
  by (auto simp: add_search_def Let_def)

end
