(* ===== verification/DesiredDevice.thy ===== *)
theory DesiredDevice
  imports ApiTypes Config DnsSpec
begin

text \<open>
  \<open>internal/desired/devicebased.go\<close>: the dnsmasq and FreeRADIUS objects wanted for the
  devices and networks of a namespace. \<open>BuildDeviceBased\<close> sorts the slices it is given in
  place, so the model returns them with the output. Its loops are folds over the named
  rounds below. The lemmas describe the result without the loops: which objects exist, what
  each one holds, and that the order in which the API server lists the inputs is irrelevant.
\<close>

definition DhcpOptionsName :: string where
  "DhcpOptionsName = ''device-based-hosts''"

definition DeviceBasedNetworkName :: "string \<Rightarrow> string" where
  "DeviceBasedNetworkName network = ''device-based-'' @ network"

record DeviceBasedOutput =
  out_DhcpOptions :: DhcpOptionsSpec
  out_DhcpHosts :: "(string, DhcpHostsSpec) gomap"
  out_DnsHosts :: "(string, DnsHostsSpec) gomap"
  out_FreeRadius :: "(string, jobj) gomap"

subsection \<open>Host names of a device\<close>

text \<open>The closure \<open>add\<close> of \<open>hostnamesForDevice\<close>, on the captured list \<open>names\<close>.\<close>

definition add_hostname :: "Config \<Rightarrow> string \<Rightarrow> string list \<Rightarrow> string list" where
  "add_hostname cfg h names =
    (let names = (if EnableDeviceShortName cfg then names @ [h] else names) in
     if DeviceSuffix cfg \<noteq> [] then names @ [h @ DeviceSuffix cfg] else names)"

definition hostnamesForDevice :: "Device \<Rightarrow> Config \<Rightarrow> string list" where
  "hostnamesForDevice device cfg =
    fold (add_hostname cfg) (ds_AdditionalHostnames (d_Spec device))
      (add_hostname cfg (Name device) [])"

text \<open>JSON-compatible spec of a FreeRADIUS device.\<close>

definition freeRadiusDeviceSpec :: "string list \<Rightarrow> int64 \<Rightarrow> jobj" where
  "freeRadiusDeviceSpec macAddresses vlan =
    [(''macAddresses'', JArray (map JString macAddresses)), (''vlan'', JInt vlan)]"

subsection \<open>BuildDeviceBased\<close>

definition compareDeviceName :: "Device \<Rightarrow> Device \<Rightarrow> int" where
  "compareDeviceName a b = cmp_Compare (Name a) (Name b)"

definition compareNetworkName :: "Network \<Rightarrow> Network \<Rightarrow> int" where
  "compareNetworkName a b = cmp_Compare (Name a) (Name b)"

definition global_options :: "Config \<Rightarrow> DhcpOption list" where
  "global_options cfg =
    (let opts = [];
         opts = (if DnsmasqDomainName cfg \<noteq> [] then
                   opts @ [\<lparr>opt_Key = ''option:domain-name'',
                            opt_Values = [DnsmasqDomainName cfg], opt_Tags = []\<rparr>]
                 else opts)
     in if length (DnsmasqDomainSearch cfg) > 0 then
          opts @ [\<lparr>opt_Key = ''option:domain-search'',
                   opt_Values = DnsmasqDomainSearch cfg, opt_Tags = []\<rparr>]
        else opts)"

definition network_round :: "Config \<Rightarrow> Network \<Rightarrow> DhcpOption list \<Rightarrow> DhcpOption list" where
  "network_round cfg network opts =
    (if \<not> ns_ServeDHCP (n_Spec network) \<or> ns_Router (n_Spec network) = [] then opts
     else
       let tag = Name network;
           opts =
             (if ns_DNSServer (n_Spec network) \<noteq> [] then
                opts @ [\<lparr>opt_Key = ''option:dns-server'',
                         opt_Values = [ns_DNSServer (n_Spec network)], opt_Tags = [tag]\<rparr>]
              else if DnsmasqDNSServer cfg \<noteq> [] then
                opts @ [\<lparr>opt_Key = ''option:dns-server'',
                         opt_Values = [DnsmasqDNSServer cfg], opt_Tags = [tag]\<rparr>]
              else opts)
       in opts @ [\<lparr>opt_Key = ''option:router'',
                   opt_Values = [ns_Router (n_Spec network)], opt_Tags = [tag]\<rparr>])"

definition dns_entry :: "Config \<Rightarrow> Device \<Rightarrow> DnsHostEntry" where
  "dns_entry cfg device =
    \<lparr>dns_IP = ds_IP (d_Spec device), dns_Hostnames = hostnamesForDevice device cfg\<rparr>"

definition dhcp_entry :: "string \<Rightarrow> Device \<Rightarrow> DhcpHostEntry" where
  "dhcp_entry netName device =
    \<lparr>dhcp_MACs = ds_MACAddresses (d_Spec device), dhcp_IP = ds_IP (d_Spec device),
     dhcp_Hostname = Name device, dhcp_SetTags = [netName],
     dhcp_LeaseTime = DhcpLeaseTimeInfinite\<rparr>"

definition add_dns_host ::
    "Config \<Rightarrow> string \<Rightarrow> Device \<Rightarrow> (string, DnsHostsSpec) gomap \<Rightarrow> (string, DnsHostsSpec) gomap" where
  "add_dns_host cfg resName device m =
    (let dnsSpec = (case map_of m resName of
                      Some s \<Rightarrow> s
                    | None \<Rightarrow> \<lparr>dns_Controller = [], dns_Hosts = []\<rparr>)
     in map_set resName (dnsSpec\<lparr>dns_Hosts := dns_Hosts dnsSpec @ [dns_entry cfg device]\<rparr>) m)"

definition add_dhcp_host ::
    "string \<Rightarrow> string \<Rightarrow> Device \<Rightarrow> (string, DhcpHostsSpec) gomap \<Rightarrow> (string, DhcpHostsSpec) gomap" where
  "add_dhcp_host netName resName device m =
    (let dhcp = (case map_of m resName of
                   Some s \<Rightarrow> s
                 | None \<Rightarrow> \<lparr>dhcp_Controller = [], dhcp_Hosts = []\<rparr>)
     in map_set resName (dhcp\<lparr>dhcp_Hosts := dhcp_Hosts dhcp @ [dhcp_entry netName device]\<rparr>) m)"

definition device_round ::
    "Config \<Rightarrow> (string, Network) gomap \<Rightarrow> Device \<Rightarrow> DeviceBasedOutput \<Rightarrow> DeviceBasedOutput" where
  "device_round cfg netByName device out =
    (if ds_Network (d_Spec device) = [] then out
     else case map_of netByName (ds_Network (d_Spec device)) of
       None \<Rightarrow> out
     | Some network \<Rightarrow>
         let netName = ds_Network (d_Spec device);
             resName = DeviceBasedNetworkName netName;
             out = (if ds_IP (d_Spec device) \<noteq> []
                    then out\<lparr>out_DnsHosts := add_dns_host cfg resName device (out_DnsHosts out)\<rparr>
                    else out);
             out = (if ds_DHCP (d_Spec device)
                    then out\<lparr>out_DhcpHosts := add_dhcp_host netName resName device (out_DhcpHosts out)\<rparr>
                    else out)
         in if EnableFreeRadiusDevices cfg then
              if FreeRadiusDevicesWirelessOnly cfg \<and> \<not> ds_Wireless (d_Spec device) then out
              else out\<lparr>out_FreeRadius := map_set (Name device)
                         (freeRadiusDeviceSpec (ds_MACAddresses (d_Spec device)) (ns_VLAN (n_Spec network)))
                         (out_FreeRadius out)\<rparr>
            else out)"

definition networks_by_name :: "Network list \<Rightarrow> (string, Network) gomap" where
  "networks_by_name networks = fold (\<lambda>n m. map_set (Name n) n m) networks []"

text \<open>Ranging over a map and storing back under each key is the same for every key order.\<close>

definition normalize_all :: "(string, DnsHostsSpec) gomap \<Rightarrow> (string, DnsHostsSpec) gomap" where
  "normalize_all m = map (\<lambda>(name, dnsSpec). (name, NormalizeDnsHosts dnsSpec)) m"

definition BuildDeviceBased ::
    "Device list \<Rightarrow> Network list \<Rightarrow> Config \<Rightarrow> DeviceBasedOutput \<times> Device list \<times> Network list" where
  "BuildDeviceBased devices networks cfg =
    (let devices = slices_SortFunc devices compareDeviceName;
         networks = slices_SortFunc networks compareNetworkName;
         netByName = networks_by_name networks;
         opts = fold (network_round cfg) networks (global_options cfg);
         out = \<lparr>out_DhcpOptions = \<lparr>opts_Controller = [], opts_Options = opts\<rparr>,
                out_DhcpHosts = [], out_DnsHosts = [], out_FreeRadius = []\<rparr>;
         out = fold (device_round cfg netByName) devices out;
         out = out\<lparr>out_DnsHosts := normalize_all (out_DnsHosts out)\<rparr>
     in (out, devices, networks))"

abbreviation device_output :: "Device list \<Rightarrow> Network list \<Rightarrow> Config \<Rightarrow> DeviceBasedOutput" where
  "device_output devices networks cfg \<equiv> fst (BuildDeviceBased devices networks cfg)"

subsection \<open>The loops in closed form\<close>

definition names_of :: "Config \<Rightarrow> string \<Rightarrow> string list" where
  "names_of cfg h =
    (if EnableDeviceShortName cfg then [h] else []) @
    (if DeviceSuffix cfg \<noteq> [] then [h @ DeviceSuffix cfg] else [])"

lemma add_hostname_eq: "add_hostname cfg h names = names @ names_of cfg h"
  by (simp add: add_hostname_def names_of_def Let_def)

lemma hostnamesForDevice_eq:
  "hostnamesForDevice device cfg =
    concat (map (names_of cfg) (Name device # ds_AdditionalHostnames (d_Spec device)))"
  unfolding hostnamesForDevice_def
  by (subst fold_append_concat, rule add_hostname_eq) (simp add: add_hostname_eq)

definition network_options :: "Config \<Rightarrow> Network \<Rightarrow> DhcpOption list" where
  "network_options cfg network = network_round cfg network []"

lemma network_round_eq: "network_round cfg network opts = opts @ network_options cfg network"
  by (simp add: network_options_def network_round_def Let_def)

lemma fold_network_round:
  "fold (network_round cfg) networks opts = opts @ concat (map (network_options cfg) networks)"
  by (rule fold_append_concat) (rule network_round_eq)

lemma map_of_networks_by_name:
  "map_of (networks_by_name networks) k =
    (case filter (\<lambda>n. Name n = k) (rev networks) of [] \<Rightarrow> None | n # _ \<Rightarrow> Some n)"
  by (simp add: networks_by_name_def map_of_fold_map_set split: list.split)

lemma dom_networks_by_name: "dom (map_of (networks_by_name networks)) = Name ` set networks"
  using fold_map_set_keys[of Name "\<lambda>n. n" networks "[]"]
  by (simp add: networks_by_name_def flip: set_keys_dom)

lemma networks_by_name_Some:
  "map_of (networks_by_name networks) k = Some n \<Longrightarrow> n \<in> set networks \<and> Name n = k"
  unfolding map_of_networks_by_name
  by (auto split: list.splits dest!: arg_cong[of _ _ set])

lemma networks_by_name_distinct:
  assumes "distinct (map Name networks)" and "n \<in> set networks"
  shows "map_of (networks_by_name networks) (Name n) = Some n"
proof -
  have "Name n \<in> dom (map_of (networks_by_name networks))"
    using assms(2) by (simp add: dom_networks_by_name)
  then obtain n' where "map_of (networks_by_name networks) (Name n) = Some n'" by blast
  moreover from networks_by_name_Some[OF this] have "n' = n"
    using assms by (auto simp: distinct_map dest: inj_onD)
  ultimately show ?thesis by simp
qed

text \<open>The network a device refers to exists.\<close>

definition has_network :: "(string, Network) gomap \<Rightarrow> Device \<Rightarrow> bool" where
  "has_network nets d \<longleftrightarrow>
    ds_Network (d_Spec d) \<noteq> [] \<and> map_of nets (ds_Network (d_Spec d)) \<noteq> None"

definition dns_step where
  "dns_step cfg nets d m =
    (if has_network nets d \<and> ds_IP (d_Spec d) \<noteq> []
     then add_dns_host cfg (DeviceBasedNetworkName (ds_Network (d_Spec d))) d m else m)"

definition dhcp_step where
  "dhcp_step nets d m =
    (if has_network nets d \<and> ds_DHCP (d_Spec d)
     then add_dhcp_host (ds_Network (d_Spec d)) (DeviceBasedNetworkName (ds_Network (d_Spec d))) d m
     else m)"

definition radius_wanted :: "Config \<Rightarrow> (string, Network) gomap \<Rightarrow> Device \<Rightarrow> bool" where
  "radius_wanted cfg nets d \<longleftrightarrow> has_network nets d \<and> EnableFreeRadiusDevices cfg \<and>
    (FreeRadiusDevicesWirelessOnly cfg \<longrightarrow> ds_Wireless (d_Spec d))"

definition radius_spec :: "(string, Network) gomap \<Rightarrow> Device \<Rightarrow> jobj" where
  "radius_spec nets d = freeRadiusDeviceSpec (ds_MACAddresses (d_Spec d))
    (ns_VLAN (n_Spec (the (map_of nets (ds_Network (d_Spec d))))))"

lemma device_round_fields:
  "out_DhcpOptions (device_round cfg nets d out) = out_DhcpOptions out"
  "out_DnsHosts (device_round cfg nets d out) = dns_step cfg nets d (out_DnsHosts out)"
  "out_DhcpHosts (device_round cfg nets d out) = dhcp_step nets d (out_DhcpHosts out)"
  "out_FreeRadius (device_round cfg nets d out) =
    (if radius_wanted cfg nets d
     then map_set (Name d) (radius_spec nets d) (out_FreeRadius out) else out_FreeRadius out)"
  by (auto simp: device_round_def dns_step_def dhcp_step_def has_network_def radius_wanted_def
      radius_spec_def Let_def split: option.splits)

lemma fold_device_round_fields:
  "out_DhcpOptions (fold (device_round cfg nets) ds out) = out_DhcpOptions out"
  "out_DnsHosts (fold (device_round cfg nets) ds out) = fold (dns_step cfg nets) ds (out_DnsHosts out)"
  "out_DhcpHosts (fold (device_round cfg nets) ds out) = fold (dhcp_step nets) ds (out_DhcpHosts out)"
  "out_FreeRadius (fold (device_round cfg nets) ds out) =
    fold (\<lambda>d m. map_set (Name d) (radius_spec nets d) m) (filter (radius_wanted cfg nets) ds)
      (out_FreeRadius out)"
  by (induction ds arbitrary: out) (simp_all add: device_round_fields)

lemma DeviceBasedNetworkName_inject [simp]:
  "DeviceBasedNetworkName a = DeviceBasedNetworkName b \<longleftrightarrow> a = b"
  by (simp add: DeviceBasedNetworkName_def)

lemma DnsHostsSpec_with_hosts:
  "dns_Controller s = [] \<Longrightarrow> s\<lparr>dns_Hosts := es\<rparr> = \<lparr>dns_Controller = [], dns_Hosts = es\<rparr>"
  by (cases s) simp

lemma DhcpHostsSpec_with_hosts:
  "dhcp_Controller s = [] \<Longrightarrow> s\<lparr>dhcp_Hosts := es\<rparr> = \<lparr>dhcp_Controller = [], dhcp_Hosts = es\<rparr>"
  by (cases s) simp

text \<open>The two loops that collect host entries per network, as instances of the grouping loop.\<close>

interpretation dns_groups: group_by
  "dns_step cfg nets"
  "\<lambda>d. has_network nets d \<and> ds_IP (d_Spec d) \<noteq> []"
  "\<lambda>d. DeviceBasedNetworkName (ds_Network (d_Spec d))"
  "\<lambda>d. [dns_entry cfg d]"
  "\<lambda>_ es. \<lparr>dns_Controller = [], dns_Hosts = es\<rparr>" dns_Hosts
  for cfg nets
proof unfold_locales
  fix d :: Device and m :: "(string, DnsHostsSpec) gomap"
  assume "has_network nets d \<and> ds_IP (d_Spec d) \<noteq> []"
    and "\<And>s. map_of m (DeviceBasedNetworkName (ds_Network (d_Spec d))) = Some s \<Longrightarrow>
      s = \<lparr>dns_Controller = [], dns_Hosts = dns_Hosts s\<rparr>"
  then show "dns_step cfg nets d m =
      map_set (DeviceBasedNetworkName (ds_Network (d_Spec d)))
        \<lparr>dns_Controller = [],
         dns_Hosts =
           (case map_of m (DeviceBasedNetworkName (ds_Network (d_Spec d))) of
              None \<Rightarrow> [] | Some s \<Rightarrow> dns_Hosts s) @ [dns_entry cfg d]\<rparr> m"
    by (auto simp: dns_step_def add_dns_host_def Let_def DnsHostsSpec_with_hosts split: option.splits
      dest!: arg_cong[of _ _ dns_Controller])
qed (auto simp: dns_step_def)

interpretation dhcp_groups: group_by
  "dhcp_step nets"
  "\<lambda>d. has_network nets d \<and> ds_DHCP (d_Spec d)"
  "\<lambda>d. DeviceBasedNetworkName (ds_Network (d_Spec d))"
  "\<lambda>d. [dhcp_entry (ds_Network (d_Spec d)) d]"
  "\<lambda>_ es. \<lparr>dhcp_Controller = [], dhcp_Hosts = es\<rparr>" dhcp_Hosts
  for nets
proof unfold_locales
  fix d :: Device and m :: "(string, DhcpHostsSpec) gomap"
  assume "has_network nets d \<and> ds_DHCP (d_Spec d)"
    and "\<And>s. map_of m (DeviceBasedNetworkName (ds_Network (d_Spec d))) = Some s \<Longrightarrow>
      s = \<lparr>dhcp_Controller = [], dhcp_Hosts = dhcp_Hosts s\<rparr>"
  then show "dhcp_step nets d m =
      map_set (DeviceBasedNetworkName (ds_Network (d_Spec d)))
        \<lparr>dhcp_Controller = [],
         dhcp_Hosts =
           (case map_of m (DeviceBasedNetworkName (ds_Network (d_Spec d))) of
              None \<Rightarrow> [] | Some s \<Rightarrow> dhcp_Hosts s) @ [dhcp_entry (ds_Network (d_Spec d)) d]\<rparr> m"
    by (auto simp: dhcp_step_def add_dhcp_host_def Let_def DhcpHostsSpec_with_hosts split: option.splits
      dest!: arg_cong[of _ _ dhcp_Controller])
qed (auto simp: dhcp_step_def)

subsection \<open>What is wanted, without the loops\<close>

text \<open>The devices of a network, in name order; none for a network that does not exist.\<close>

definition network_devices :: "Device list \<Rightarrow> Network list \<Rightarrow> string \<Rightarrow> Device list" where
  "network_devices devices networks net =
    (if net \<noteq> [] \<and> net \<in> Name ` set networks
     then filter (\<lambda>d. ds_Network (d_Spec d) = net) (slices_SortFunc devices compareDeviceName)
     else [])"

definition host_names :: "Config \<Rightarrow> Device \<Rightarrow> string list" where
  "host_names cfg d = concat (map (names_of cfg) (Name d # ds_AdditionalHostnames (d_Spec d)))"

definition wanted_DnsHosts ::
    "Device list \<Rightarrow> Network list \<Rightarrow> Config \<Rightarrow> string \<Rightarrow> DnsHostsSpec option" where
  "wanted_DnsHosts devices networks cfg net =
    (let ds = filter (\<lambda>d. ds_IP (d_Spec d) \<noteq> []) (network_devices devices networks net) in
     if ds = [] then None
     else Some (NormalizeDnsHosts \<lparr>dns_Controller = [], dns_Hosts =
       map (\<lambda>d. \<lparr>dns_IP = ds_IP (d_Spec d), dns_Hostnames = host_names cfg d\<rparr>) ds\<rparr>))"

definition wanted_DhcpHosts :: "Device list \<Rightarrow> Network list \<Rightarrow> string \<Rightarrow> DhcpHostsSpec option" where
  "wanted_DhcpHosts devices networks net =
    (let ds = filter (\<lambda>d. ds_DHCP (d_Spec d)) (network_devices devices networks net) in
     if ds = [] then None
     else Some \<lparr>dhcp_Controller = [], dhcp_Hosts =
       map (\<lambda>d. \<lparr>dhcp_MACs = ds_MACAddresses (d_Spec d), dhcp_IP = ds_IP (d_Spec d),
                  dhcp_Hostname = Name d, dhcp_SetTags = [net], dhcp_LeaseTime = ''infinite''\<rparr>) ds\<rparr>)"

lemma dns_entry_eq:
  "dns_entry cfg = (\<lambda>d. \<lparr>dns_IP = ds_IP (d_Spec d), dns_Hostnames = host_names cfg d\<rparr>)"
  by (rule ext) (simp add: dns_entry_def host_names_def hostnamesForDevice_eq)

lemma dhcp_entry_eq:
  "dhcp_entry net = (\<lambda>d. \<lparr>dhcp_MACs = ds_MACAddresses (d_Spec d), dhcp_IP = ds_IP (d_Spec d),
    dhcp_Hostname = Name d, dhcp_SetTags = [net], dhcp_LeaseTime = ''infinite''\<rparr>)"
  by (rule ext) (simp add: dhcp_entry_def DhcpLeaseTimeInfinite_def)

definition for_network_object :: "(string \<Rightarrow> 'a option) \<Rightarrow> string \<Rightarrow> 'a option" where
  "for_network_object wanted name =
    (case strip_prefix ''device-based-'' name of None \<Rightarrow> None | Some net \<Rightarrow> wanted net)"

lemma for_network_object_name [simp]:
  "for_network_object wanted (DeviceBasedNetworkName net) = wanted net"
  by (simp add: for_network_object_def DeviceBasedNetworkName_def split: option.split)

lemma for_network_object_eqI:
  assumes "\<And>net. g (DeviceBasedNetworkName net) = wanted net"
    and "(\<And>net. name \<noteq> DeviceBasedNetworkName net) \<Longrightarrow> g name = None"
  shows "g name = for_network_object wanted name"
proof (cases "strip_prefix ''device-based-'' name")
  case None
  have "name \<noteq> DeviceBasedNetworkName net" for net
    using None by (auto simp: DeviceBasedNetworkName_def)
  with assms(2) None show ?thesis by (simp add: for_network_object_def)
next
  case (Some net)
  then have "name = DeviceBasedNetworkName net" by (simp add: DeviceBasedNetworkName_def)
  with assms(1) show ?thesis by simp
qed

lemma has_network_by_name:
  "has_network (networks_by_name networks) d \<longleftrightarrow>
    ds_Network (d_Spec d) \<noteq> [] \<and> ds_Network (d_Spec d) \<in> Name ` set networks"
  unfolding has_network_def by (auto simp: domIff[symmetric] dom_networks_by_name simp del: not_None_eq)

lemma map_of_normalize_all: "map_of (normalize_all m) k = map_option NormalizeDnsHosts (map_of m k)"
  by (simp add: normalize_all_def map_of_map comp_def)

lemma device_output_fields:
  fixes devices networks cfg
  defines "nets \<equiv> networks_by_name (slices_SortFunc networks compareNetworkName)"
    and "ds \<equiv> slices_SortFunc devices compareDeviceName"
  shows "out_DnsHosts (device_output devices networks cfg) = normalize_all (fold (dns_step cfg nets) ds [])"
    and "out_DhcpHosts (device_output devices networks cfg) = fold (dhcp_step nets) ds []"
    and "out_FreeRadius (device_output devices networks cfg) =
      fold (\<lambda>d m. map_set (Name d) (radius_spec nets d) m) (filter (radius_wanted cfg nets) ds) []"
    and "out_DhcpOptions (device_output devices networks cfg) =
      \<lparr>opts_Controller = [], opts_Options = global_options cfg @
        concat (map (network_options cfg) (slices_SortFunc networks compareNetworkName))\<rparr>"
  by (simp_all add: BuildDeviceBased_def Let_def fold_device_round_fields fold_network_round
      nets_def ds_def)

lemma dns_members:
  "dns_groups.members (networks_by_name networks) ds (DeviceBasedNetworkName net) =
    (if net \<noteq> [] \<and> net \<in> Name ` set networks
     then filter (\<lambda>d. ds_IP (d_Spec d) \<noteq> []) (filter (\<lambda>d. ds_Network (d_Spec d) = net) ds) else [])"
  unfolding dns_groups.members_def
  by (auto simp: has_network_by_name filter_empty_conv intro!: filter_cong)

lemma dhcp_members:
  "dhcp_groups.members (networks_by_name networks) ds (DeviceBasedNetworkName net) =
    (if net \<noteq> [] \<and> net \<in> Name ` set networks
     then filter (\<lambda>d. ds_DHCP (d_Spec d)) (filter (\<lambda>d. ds_Network (d_Spec d) = net) ds) else [])"
  unfolding dhcp_groups.members_def
  by (auto simp: has_network_by_name filter_empty_conv intro!: filter_cong)

lemma image_Name_SortFunc [simp]: "Name ` set (slices_SortFunc xs cmp) = Name ` set xs"
  by simp

text \<open>
  (C8) The DNS objects wanted for a namespace: one per existing, named network that has a device
  with an address, named after the network; it holds one entry per such device, with the device's
  host names, in normal form. No other object is wanted.
\<close>

theorem BuildDeviceBased_DnsHosts:
  "map_of (out_DnsHosts (device_output devices networks cfg)) name =
    for_network_object (wanted_DnsHosts devices networks cfg) name"
proof (rule for_network_object_eqI)
  fix net
  show "map_of (out_DnsHosts (device_output devices networks cfg)) (DeviceBasedNetworkName net) =
      wanted_DnsHosts devices networks cfg net"
    by (simp add: device_output_fields map_of_normalize_all dns_groups.map_of_fold_step dns_members
        wanted_DnsHosts_def network_devices_def Let_def dns_entry_eq)
next
  assume "\<And>net. name \<noteq> DeviceBasedNetworkName net"
  then show "map_of (out_DnsHosts (device_output devices networks cfg)) name = None"
    unfolding device_output_fields map_of_normalize_all dns_groups.map_of_fold_step
      dns_groups.members_def by (auto simp: filter_empty_conv)
qed

text \<open>
  (C9) The DHCP objects wanted: one per existing, named network that has a DHCP device, with one
  permanent lease per such device, in name order, tagged with the network. No other object is
  wanted.
\<close>

theorem BuildDeviceBased_DhcpHosts:
  "map_of (out_DhcpHosts (device_output devices networks cfg)) name =
    for_network_object (wanted_DhcpHosts devices networks) name"
proof (rule for_network_object_eqI)
  fix net
  let ?ds = "filter (\<lambda>d. ds_DHCP (d_Spec d)) (network_devices devices networks net)"
  have "map (\<lambda>d. dhcp_entry (ds_Network (d_Spec d)) d) ?ds = map (dhcp_entry net) ?ds"
    by (auto simp: network_devices_def)
  then show "map_of (out_DhcpHosts (device_output devices networks cfg)) (DeviceBasedNetworkName net) =
      wanted_DhcpHosts devices networks net"
    by (simp add: device_output_fields dhcp_groups.map_of_fold_step dhcp_members
        wanted_DhcpHosts_def network_devices_def Let_def dhcp_entry_eq)
next
  assume "\<And>net. name \<noteq> DeviceBasedNetworkName net"
  then show "map_of (out_DhcpHosts (device_output devices networks cfg)) name = None"
    unfolding device_output_fields dhcp_groups.map_of_fold_step dhcp_groups.members_def
    by (auto simp: filter_empty_conv)
qed

text \<open>
  (C14) A device's FreeRADIUS object: wanted exactly when the feature is on, the device refers to
  an existing network, and it is wireless or wired devices are included; it carries the device's
  MAC addresses and the VLAN of its network.
\<close>

theorem BuildDeviceBased_FreeRadius:
  assumes "distinct (map Name devices)" and "distinct (map Name networks)"
    and "d \<in> set devices"
  shows "map_of (out_FreeRadius (device_output devices networks cfg)) (Name d) =
    (case filter (\<lambda>n. Name n = ds_Network (d_Spec d) \<and> Name n \<noteq> []) networks of
       [] \<Rightarrow> None
     | n # _ \<Rightarrow>
         if EnableFreeRadiusDevices cfg \<and>
            (FreeRadiusDevicesWirelessOnly cfg \<longrightarrow> ds_Wireless (d_Spec d))
         then Some (freeRadiusDeviceSpec (ds_MACAddresses (d_Spec d)) (ns_VLAN (n_Spec n)))
         else None)"
proof -
  let ?ns = "slices_SortFunc networks compareNetworkName"
  let ?nets = "networks_by_name ?ns"
  let ?ds = "slices_SortFunc devices compareDeviceName"
  have "filter (\<lambda>x. Name x = Name d) (filter (radius_wanted cfg ?nets) ?ds) =
      (if radius_wanted cfg ?nets d then [d] else [])"
    using filter_unique_key[of Name ?ds d] assms
    by (subst filter_swap_filter) (simp del: filter_filter)
  then have out: "map_of (out_FreeRadius (device_output devices networks cfg)) (Name d) =
      (if radius_wanted cfg ?nets d then Some (radius_spec ?nets d) else None)"
    by (simp add: device_output_fields map_of_fold_map_set rev_filter[symmetric])
  show ?thesis
  proof (cases "filter (\<lambda>n. Name n = ds_Network (d_Spec d) \<and> Name n \<noteq> []) networks")
    case Nil
    then have "\<not> has_network ?nets d"
      by (auto simp: has_network_by_name filter_empty_conv)
    with Nil out show ?thesis by (simp add: radius_wanted_def)
  next
    case (Cons n rest)
    then have "n \<in> set (filter (\<lambda>n. Name n = ds_Network (d_Spec d) \<and> Name n \<noteq> []) networks)"
      by (simp only: list.set_intros)
    then have n: "n \<in> set networks" "Name n = ds_Network (d_Spec d)" "Name n \<noteq> []" by auto
    then have "map_of ?nets (ds_Network (d_Spec d)) = Some n"
      using networks_by_name_distinct[of ?ns n] assms(2) by simp
    with n Cons out show ?thesis
      by (simp add: radius_wanted_def has_network_def radius_spec_def)
  qed
qed

interpretation device_names: comparator_on compareDeviceName UNIV
  by unfold_locales (auto simp: compareDeviceName_def)

interpretation network_names: comparator_on compareNetworkName UNIV
  by unfold_locales (auto simp: compareNetworkName_def)

text \<open>
  (C13) The desired state does not depend on the order in which the API server lists devices and
  networks, whose names are unique in a namespace.
\<close>

theorem BuildDeviceBased_order_independent:
  assumes "distinct (map Name devices)" and "distinct (map Name networks)"
    and "mset devices' = mset devices" and "mset networks' = mset networks"
  shows "BuildDeviceBased devices' networks' cfg = BuildDeviceBased devices networks cfg"
proof -
  have "slices_SortFunc devices' compareDeviceName = slices_SortFunc devices compareDeviceName"
    using assms(1,3)
    by (intro device_names.SortFunc_permutation)
      (auto simp: compareDeviceName_def distinct_map dest: inj_onD)
  moreover have "slices_SortFunc networks' compareNetworkName =
      slices_SortFunc networks compareNetworkName"
    using assms(2,4)
    by (intro network_names.SortFunc_permutation)
      (auto simp: compareNetworkName_def distinct_map dest: inj_onD)
  ultimately show ?thesis by (simp add: BuildDeviceBased_def)
qed

lemma network_options_router:
  "filter (\<lambda>opt. opt_Key opt = ''option:router'' \<and> opt_Tags opt = [t]) (network_options cfg n) =
    (if ns_ServeDHCP (n_Spec n) \<and> ns_Router (n_Spec n) \<noteq> [] \<and> Name n = t
     then [\<lparr>opt_Key = ''option:router'', opt_Values = [ns_Router (n_Spec n)], opt_Tags = [t]\<rparr>]
     else [])"
  by (auto simp: network_options_def network_round_def Let_def)

lemma global_options_untagged: "opt \<in> set (global_options cfg) \<Longrightarrow> opt_Tags opt = []"
  by (auto simp: global_options_def Let_def split: if_splits)

lemma filter_concat_unique:
  assumes "distinct (map f xs)" and "x \<in> set xs"
    and "\<And>y. y \<in> set xs \<Longrightarrow> f y \<noteq> f x \<Longrightarrow> filter P (g y) = []"
  shows "filter P (concat (map g xs)) = filter P (g x)"
  using assms
proof (induction xs)
  case Nil
  then show ?case by simp
next
  case (Cons y ys)
  show ?case
  proof (cases "y = x")
    case True
    have "filter P (g z) = []" if "z \<in> set ys" for z
      using that Cons.prems True by (intro Cons.prems(3)) (auto simp: image_iff)
    then have "filter P (concat (map g ys)) = []" by (auto simp: filter_empty_conv)
    with True show ?thesis by simp
  next
    case False
    with Cons.prems have "f y \<noteq> f x" by auto
    with Cons show ?thesis by auto
  qed
qed

text \<open>
  (C15) Routers are advertised per network: among the DHCP options there is exactly one router
  option tagged with the network if the network serves DHCP and has a router, none otherwise.
\<close>

theorem BuildDeviceBased_router_option:
  assumes "distinct (map Name networks)" and "n \<in> set networks"
  shows "filter (\<lambda>opt. opt_Key opt = ''option:router'' \<and> opt_Tags opt = [Name n])
      (opts_Options (out_DhcpOptions (device_output devices networks cfg))) =
    (if ns_ServeDHCP (n_Spec n) \<and> ns_Router (n_Spec n) \<noteq> []
     then [\<lparr>opt_Key = ''option:router'', opt_Values = [ns_Router (n_Spec n)], opt_Tags = [Name n]\<rparr>]
     else [])"
proof -
  let ?P = "\<lambda>opt. opt_Key opt = ''option:router'' \<and> opt_Tags opt = [Name n]"
  let ?ns = "slices_SortFunc networks compareNetworkName"
  have "filter ?P (global_options cfg) = []"
    using global_options_untagged by (auto simp: filter_empty_conv)
  moreover have "filter ?P (concat (map (network_options cfg) ?ns)) = filter ?P (network_options cfg n)"
    using assms by (intro filter_concat_unique[where f = Name]) (auto simp: network_options_router)
  ultimately show ?thesis by (simp add: device_output_fields network_options_router)
qed

end
