(* ===== verification/Kube.thy ===== *)
theory Kube
  imports ApiTypes "HOL-Library.State_Monad"
begin

text \<open>
  The code around the operator that is not in the repository, and the programs over it.

  The record \<open>kube\<close> collects the functions of apimachinery and controller-runtime the source
  calls, each as it is called; nothing is assumed of them here. What the documentation promises
  of some is stated as a predicate, a hypothesis of the few theorems that need it. The client's
  calls run against a \<open>world\<close> of any type, so the API server, its caches, other writers and
  the clock are as arbitrary as they are in a cluster: every call may fail or answer anything.

  The state of a reconciler is that world, its busy keys and its recorded triggers, and a ghost
  \<open>trace\<close> of the calls made with their answers. A reconciler is a program of the library's
  state monad, with errors as \<open>Inl\<close>. \<open>traces\<close> says what a program's result and calls satisfy
  for every world; its rules follow the program's structure.
\<close>

subsection \<open>Library and client functions\<close>

record 'w kube =
  NestedMap :: "jobj \<Rightarrow> string list \<Rightarrow> error + jobj option"
  NestedSlice :: "jobj \<Rightarrow> string list \<Rightarrow> error + jv list option"
  NestedStringSlice :: "jobj \<Rightarrow> string list \<Rightarrow> error + string list option"
  NestedFieldNoCopy :: "jobj \<Rightarrow> string list \<Rightarrow> error + jv option"
  SetNestedMap :: "jobj \<Rightarrow> jobj \<Rightarrow> string list \<Rightarrow> error + jobj"
  DeepEqual :: "jobj option \<Rightarrow> jobj option \<Rightarrow> bool"
  IsNotFound :: "error \<Rightarrow> bool"
  IsNoMatchError :: "error \<Rightarrow> bool"
  SetStatusCondition :: "Condition list \<Rightarrow> Condition \<Rightarrow> 'w \<Rightarrow> Condition list \<times> 'w"
  SetOwnerReference :: "ConfigMap \<Rightarrow> Unstructured \<Rightarrow> error + Unstructured"
  CreateOrUpdate :: "Unstructured \<Rightarrow> (Unstructured \<Rightarrow> error + Unstructured) \<Rightarrow> 'w \<Rightarrow>
    (error + string) \<times> 'w"
  CreateOrUpdateConfigMap :: "ConfigMap \<Rightarrow> (ConfigMap \<Rightarrow> ConfigMap) \<Rightarrow> 'w \<Rightarrow>
    (error + ConfigMap) \<times> 'w"
  GetObject :: "GroupVersionKind \<Rightarrow> string \<Rightarrow> string \<Rightarrow> 'w \<Rightarrow> (error + Unstructured) \<times> 'w"
  ListDevices :: "string \<Rightarrow> 'w \<Rightarrow> (error + Device list) \<times> 'w"
  ListNetworks :: "string \<Rightarrow> 'w \<Rightarrow> (error + Network list) \<times> 'w"
  ListIngressRouters :: "'w \<Rightarrow> (error + IngressRouter list) \<times> 'w"
  ListIngresses :: "'w \<Rightarrow> (error + Ingress list) \<times> 'w"
  ListServices :: "'w \<Rightarrow> (error + Service list) \<times> 'w"
  ListObjects :: "GroupVersionKind \<Rightarrow> string option \<Rightarrow> (string, string) gomap \<Rightarrow> 'w \<Rightarrow>
    (error + Unstructured list) \<times> 'w"
  DeleteObject :: "Unstructured \<Rightarrow> 'w \<Rightarrow> error option \<times> 'w"
  UpdateDeviceStatus :: "Device \<Rightarrow> 'w \<Rightarrow> error option \<times> 'w"
  UpdateNetworkStatus :: "Network \<Rightarrow> 'w \<Rightarrow> error option \<times> 'w"
  UpdateIngressRouterStatus :: "IngressRouter \<Rightarrow> 'w \<Rightarrow> error option \<times> 'w"
  Now :: "'w \<Rightarrow> go_time \<times> 'w"
  MapRange :: "string list \<Rightarrow> 'w \<Rightarrow> string list \<times> 'w"

subsection \<open>Calls and the state of a reconciler\<close>

datatype log_value = LogString string | LogInt nat

datatype log_line =
    LogNoResources string
  | LogSummary bool string nat nat nat nat
  | LogChange bool string string string string
  | LogError string error

datatype event =
    Got GroupVersionKind string string "error + Unstructured"
  | ListedDevices string "error + Device list"
  | ListedNetworks string "error + Network list"
  | ListedIngressRouters "error + IngressRouter list"
  | ListedIngresses "error + Ingress list"
  | ListedServices "error + Service list"
  | ListedObjects GroupVersionKind "string option" "(string, string) gomap" "error + Unstructured list"
  | Applied Unstructured "error + Unstructured" "error + string"
  | AppliedConfigMap ConfigMap "error + ConfigMap"
  | Deleted Unstructured "error option"
  | UpdatedDevice Device "error option"
  | UpdatedNetwork Network "error option"
  | UpdatedIngressRouter IngressRouter "error option"
  | Logged "(string \<times> log_value) list" log_line

text \<open>The calls that change the cluster.\<close>

fun is_write :: "event \<Rightarrow> bool" where
  "is_write (Applied _ _ _) = True"
| "is_write (AppliedConfigMap _ _) = True"
| "is_write (Deleted _ _) = True"
| "is_write (UpdatedDevice _ _) = True"
| "is_write (UpdatedNetwork _ _) = True"
| "is_write (UpdatedIngressRouter _ _) = True"
| "is_write _ = False"

record reconcileTrigger =
  tr_Kind :: string
  tr_Name :: string

record 'w st =
  world :: 'w
  trace :: "event list"
  gate_keys :: "(string, unit) gomap"
  byKey :: "(string, reconcileTrigger) gomap"

type_synonym ('w, 'a) prog = "('w st, 'a) state"

abbreviation ret :: "'a \<Rightarrow> ('w, 'a) prog" where
  "ret x \<equiv> State_Monad.return x"

definition call :: "('w \<Rightarrow> 'a \<times> 'w) \<Rightarrow> ('a \<Rightarrow> event list) \<Rightarrow> ('w, 'a) prog" where
  "call f ev = State (\<lambda>s. case f (world s) of (a, w) \<Rightarrow> (a, s\<lparr>world := w, trace := trace s @ ev a\<rparr>))"

definition log_info :: "(string \<times> log_value) list \<Rightarrow> log_line \<Rightarrow> ('w, unit) prog" where
  "log_info values line = call (\<lambda>w. ((), w)) (\<lambda>_. [Logged values line])"

text \<open>
  Ranging over a map: the runtime picks the order, any permutation of the keys. (An answer that
  is none is replaced by the insertion order, so the model has exactly the permutations.)
\<close>

definition range_map :: "'w kube \<Rightarrow> (string, 'v) gomap \<Rightarrow> ('w, (string \<times> 'v) list) prog" where
  "range_map k m = do {
     ks \<leftarrow> call (MapRange k (map_keys m)) (\<lambda>_. []);
     ret (map (\<lambda>n. (n, the (map_of m n)))
       (if mset ks = mset (map_keys m) then ks else map_keys m))
   }"

subsection \<open>What a program's calls satisfy\<close>

definition traces :: "('w, 'a) prog \<Rightarrow> ('a \<Rightarrow> event list \<Rightarrow> bool) \<Rightarrow> bool" where
  "traces m Q \<longleftrightarrow>
    (\<forall>s. \<exists>es. trace (snd (run_state m s)) = trace s @ es \<and> Q (fst (run_state m s)) es)"

named_theorems trace_rules \<open>rules that follow the structure of a program\<close>

lemma traces_conseq:
  "traces m Q \<Longrightarrow> (\<And>x es. Q x es \<Longrightarrow> Q' x es) \<Longrightarrow> traces m Q'"
  unfolding traces_def by blast

lemma traces_conj: "traces m Q \<Longrightarrow> traces m R \<Longrightarrow> traces m (\<lambda>x es. Q x es \<and> R x es)"
  unfolding traces_def by (metis same_append_eq)

lemma traces_run:
  "traces m Q \<Longrightarrow> run_state m s = (x, s') \<Longrightarrow> trace s = [] \<Longrightarrow> Q x (trace s')"
  unfolding traces_def by (metis append_Nil fst_conv snd_conv)

lemma traces_return [trace_rules]: "Q x [] \<Longrightarrow> traces (ret x) Q"
  by (simp add: traces_def)

lemma traces_bind [trace_rules]:
  assumes "traces m (\<lambda>x es. traces (f x) (\<lambda>y es'. Q y (es @ es')))"
  shows "traces (m \<bind> f) Q"
  unfolding traces_def
proof
  fix s
  obtain x s' where m: "run_state m s = (x, s')" by fastforce
  obtain y s'' where f: "run_state (f x) s' = (y, s'')" by fastforce
  obtain es where es: "trace s' = trace s @ es"
    and fx: "traces (f x) (\<lambda>y es'. Q y (es @ es'))"
    using assms m unfolding traces_def by (metis fst_conv snd_conv)
  from fx f obtain es' where "trace s'' = trace s' @ es'" and "Q y (es @ es')"
    unfolding traces_def by (metis fst_conv snd_conv)
  with m f es show "\<exists>es. trace (snd (run_state (m \<bind> f) s)) = trace s @ es \<and>
      Q (fst (run_state (m \<bind> f) s)) es" by simp
qed

lemma traces_seq:
  assumes "traces m R" and "\<And>x es. R x es \<Longrightarrow> traces (f x) (\<lambda>y es'. Q y (es @ es'))"
  shows "traces (m \<bind> f) Q"
  by (rule traces_bind, rule traces_conseq[OF assms(1)], rule assms(2))

lemma traces_call [trace_rules]: "(\<And>a. Q a (ev a)) \<Longrightarrow> traces (call f ev) Q"
  by (auto simp: traces_def call_def split: prod.splits)

text \<open>The rule for a call whose function is known.\<close>

lemma traces_known_call: "(\<And>w. Q (fst (f w)) (ev (fst (f w)))) \<Longrightarrow> traces (call f ev) Q"
  by (auto simp: traces_def call_def split: prod.splits) (metis fst_conv)

lemma traces_log [trace_rules]: "Q () [Logged values line] \<Longrightarrow> traces (log_info values line) Q"
  unfolding log_info_def by (rule traces_call) simp

lemma traces_if [trace_rules]:
  "(b \<Longrightarrow> traces m Q) \<Longrightarrow> (\<not> b \<Longrightarrow> traces n Q) \<Longrightarrow> traces (if b then m else n) Q"
  by simp

lemma traces_case_sum [trace_rules]:
  "(\<And>e. r = Inl e \<Longrightarrow> traces (f e) Q) \<Longrightarrow> (\<And>x. r = Inr x \<Longrightarrow> traces (g x) Q) \<Longrightarrow>
    traces (case r of Inl e \<Rightarrow> f e | Inr x \<Rightarrow> g x) Q"
  by (cases r) auto

lemma traces_case_option [trace_rules]:
  "(r = None \<Longrightarrow> traces m Q) \<Longrightarrow> (\<And>x. r = Some x \<Longrightarrow> traces (g x) Q) \<Longrightarrow>
    traces (case r of None \<Rightarrow> m | Some x \<Rightarrow> g x) Q"
  by (cases r) auto

lemma traces_case_prod [trace_rules]:
  "(\<And>a b. p = (a, b) \<Longrightarrow> traces (f a b) Q) \<Longrightarrow> traces (case p of (a, b) \<Rightarrow> f a b) Q"
  by (cases p) auto

lemma traces_Let [trace_rules]: "traces (f x) Q \<Longrightarrow> traces (let y = x in f y) Q"
  by (simp add: Let_def)

lemma traces_range [trace_rules]:
  assumes "\<And>kvs. mset kvs = mset (map (\<lambda>n. (n, the (map_of m n))) (map_keys m)) \<Longrightarrow> Q kvs []"
  shows "traces (range_map k m) Q"
  unfolding range_map_def by (intro trace_rules) (auto intro!: assms simp: multiset.map_comp comp_def)

text \<open>All calls of a program satisfy a property.\<close>

abbreviation calls_only :: "(event \<Rightarrow> bool) \<Rightarrow> ('w, 'a) prog \<Rightarrow> bool" where
  "calls_only P m \<equiv> traces m (\<lambda>_ es. list_all P es)"

named_theorems only_rules \<open>rules for a property of all calls of a program\<close>

lemma only_return [only_rules]: "calls_only P (ret x)"
  by (rule traces_return) simp

lemma only_bind [only_rules]:
  assumes "calls_only P m" and "\<And>x. calls_only P (f x)"
  shows "calls_only P (m \<bind> f)"
  by (rule traces_bind, rule traces_conseq[OF assms(1)], rule traces_conseq[OF assms(2)]) simp

lemma only_call [only_rules]: "(\<And>a. list_all P (ev a)) \<Longrightarrow> calls_only P (call f ev)"
  by (rule traces_call)

lemma only_log [only_rules]: "P (Logged values line) \<Longrightarrow> calls_only P (log_info values line)"
  by (rule traces_log) simp

lemma only_range [only_rules]: "calls_only P (range_map k m)"
  by (rule traces_range) simp

lemmas [only_rules] = traces_if traces_case_sum traces_case_option traces_case_prod traces_Let

lemma only_mono: "calls_only P m \<Longrightarrow> (\<And>e. P e \<Longrightarrow> P' e) \<Longrightarrow> calls_only P' m"
  by (erule traces_conseq) (auto simp: list_all_iff)

subsection \<open>Programs that leave the gate and the triggers alone\<close>

definition leaves_locks :: "('w, 'a) prog \<Rightarrow> bool" where
  "leaves_locks m \<longleftrightarrow> (\<forall>s. gate_keys (snd (run_state m s)) = gate_keys s)"

named_theorems lock_rules \<open>rules for programs that do not touch the gate\<close>

lemma locks_return [lock_rules]: "leaves_locks (ret x)"
  by (simp add: leaves_locks_def)

lemma locks_bind [lock_rules]:
  "leaves_locks m \<Longrightarrow> (\<And>x. leaves_locks (f x)) \<Longrightarrow> leaves_locks (m \<bind> f)"
  by (auto simp: leaves_locks_def split: prod.splits) (metis snd_conv)

lemma locks_call [lock_rules]: "leaves_locks (call f ev)"
  by (simp add: leaves_locks_def call_def split: prod.splits)

lemma locks_log [lock_rules]: "leaves_locks (log_info values line)"
  by (simp add: log_info_def locks_call)

lemma locks_range [lock_rules]: "leaves_locks (range_map k m)"
  unfolding range_map_def by (intro lock_rules)

lemma locks_if [lock_rules]:
  "leaves_locks m \<Longrightarrow> leaves_locks n \<Longrightarrow> leaves_locks (if b then m else n)"
  by simp

lemma locks_case_sum [lock_rules]:
  "(\<And>e. leaves_locks (f e)) \<Longrightarrow> (\<And>x. leaves_locks (g x)) \<Longrightarrow>
    leaves_locks (case r of Inl e \<Rightarrow> f e | Inr x \<Rightarrow> g x)"
  by (cases r) auto

lemma locks_case_option [lock_rules]:
  "leaves_locks m \<Longrightarrow> (\<And>x. leaves_locks (g x)) \<Longrightarrow>
    leaves_locks (case r of None \<Rightarrow> m | Some x \<Rightarrow> g x)"
  by (cases r) auto

lemma locks_case_prod [lock_rules]:
  "(\<And>a b. leaves_locks (f a b)) \<Longrightarrow> leaves_locks (case p of (a, b) \<Rightarrow> f a b)"
  by (cases p) auto

lemma locks_Let [lock_rules]: "leaves_locks (f x) \<Longrightarrow> leaves_locks (let y = x in f y)"
  by (simp add: Let_def)

end
