(* ===== verification/DnsObjects.thy ===== *)
theory DnsObjects
  imports Kube DnsSpec
begin

text \<open>
  The objects the operator writes: the group-version-kinds of \<open>internal/dnsmasq/gvk.go\<close> with
  their list kinds, the management labels (\<open>internal/labels/labels.go\<close>), and the constructors of \<open>internal/dnsmasq/unstructured.go\<close>.

  A constructor takes its spec through \<open>encoding/json\<close> into a dynamic map. The structs hold
  only strings, so that is the map of the fields' JSON names without the empty \<open>omitempty\<close>
  fields; strings are taken to be valid UTF-8, as everything read from the API server is.
\<close>

subsection \<open>Kinds and labels\<close>

definition Group :: string where
  "Group = ''dnsmasq.kvaps.cf''"

definition Version :: string where
  "Version = ''v1beta1''"

definition DnsHostsGVK :: GroupVersionKind where
  "DnsHostsGVK = \<lparr>gvk_Group = Group, gvk_Version = Version, gvk_Kind = ''DnsHosts''\<rparr>"

definition DhcpHostsGVK :: GroupVersionKind where
  "DhcpHostsGVK = \<lparr>gvk_Group = Group, gvk_Version = Version, gvk_Kind = ''DhcpHosts''\<rparr>"

definition DhcpOptionsGVK :: GroupVersionKind where
  "DhcpOptionsGVK = \<lparr>gvk_Group = Group, gvk_Version = Version, gvk_Kind = ''DhcpOptions''\<rparr>"

definition FreeRadiusGroup :: string where
  "FreeRadiusGroup = ''freeradius.valdron.ca''"

definition FreeRadiusVersion :: string where
  "FreeRadiusVersion = ''v1''"

definition FreeRadiusDeviceGVK :: GroupVersionKind where
  "FreeRadiusDeviceGVK =
    \<lparr>gvk_Group = FreeRadiusGroup, gvk_Version = FreeRadiusVersion, gvk_Kind = ''Device''\<rparr>"

definition HTTPRouteGVK :: GroupVersionKind where
  "HTTPRouteGVK =
    \<lparr>gvk_Group = ''gateway.networking.k8s.io'', gvk_Version = ''v1'', gvk_Kind = ''HTTPRoute''\<rparr>"

definition list_gvk :: "GroupVersionKind \<Rightarrow> GroupVersionKind" where
  "list_gvk gvk = gvk\<lparr>gvk_Kind := gvk_Kind gvk @ ''List''\<rparr>"

definition ManagedBy :: string where
  "ManagedBy = ''app.kubernetes.io/managed-by''"

definition ManagedByValue :: string where
  "ManagedByValue = ''homelab-operator''"

definition AggregateKey :: string where
  "AggregateKey = ''homelab.valdron.ca/aggregate''"

definition NetworkKey :: string where
  "NetworkKey = ''homelab.valdron.ca/network''"

definition Managed :: "string \<Rightarrow> string \<Rightarrow> (string, string) gomap" where
  "Managed aggregate network =
    (let m = [(ManagedBy, ManagedByValue), (AggregateKey, aggregate)] in
     if network \<noteq> [] then map_set NetworkKey network m else m)"

lemmas label_key_defs = ManagedBy_def AggregateKey_def NetworkKey_def

lemma map_of_Managed:
  "map_of (Managed aggregate network) ManagedBy = Some ManagedByValue"
  "map_of (Managed aggregate network) AggregateKey = Some aggregate"
  "map_of (Managed aggregate network) NetworkKey = (if network = [] then None else Some network)"
  by (simp_all add: Managed_def Let_def label_key_defs)

subsection \<open>Specs as dynamic maps\<close>

definition json_strings :: "string list \<Rightarrow> jv" where
  "json_strings xs = JArray (map JString xs)"

definition omit_empty_string :: "string \<Rightarrow> string \<Rightarrow> jobj" where
  "omit_empty_string key s = (if s = [] then [] else [(key, JString s)])"

definition omit_empty_list :: "string \<Rightarrow> ('a \<Rightarrow> jv) \<Rightarrow> 'a list \<Rightarrow> jobj" where
  "omit_empty_list key f xs = (if xs = [] then [] else [(key, JArray (map f xs))])"

definition json_DnsHostEntry :: "DnsHostEntry \<Rightarrow> jv" where
  "json_DnsHostEntry e = JObject
    ([(''ip'', JString (dns_IP e))] @ omit_empty_list ''hostnames'' JString (dns_Hostnames e))"

definition json_DnsHostsSpec :: "DnsHostsSpec \<Rightarrow> jobj" where
  "json_DnsHostsSpec spec =
    omit_empty_string ''controller'' (dns_Controller spec) @
    omit_empty_list ''hosts'' json_DnsHostEntry (dns_Hosts spec)"

definition json_DhcpHostEntry :: "DhcpHostEntry \<Rightarrow> jv" where
  "json_DhcpHostEntry e = JObject
    (omit_empty_list ''macs'' JString (dhcp_MACs e) @
     omit_empty_string ''ip'' (dhcp_IP e) @
     omit_empty_string ''hostname'' (dhcp_Hostname e) @
     omit_empty_list ''setTags'' JString (dhcp_SetTags e) @
     omit_empty_string ''leaseTime'' (dhcp_LeaseTime e))"

definition json_DhcpHostsSpec :: "DhcpHostsSpec \<Rightarrow> jobj" where
  "json_DhcpHostsSpec spec =
    omit_empty_string ''controller'' (dhcp_Controller spec) @
    omit_empty_list ''hosts'' json_DhcpHostEntry (dhcp_Hosts spec)"

definition json_DhcpOption :: "DhcpOption \<Rightarrow> jv" where
  "json_DhcpOption opt = JObject
    ([(''key'', JString (opt_Key opt)), (''values'', json_strings (opt_Values opt))] @
     omit_empty_list ''tags'' JString (opt_Tags opt))"

definition json_DhcpOptionsSpec :: "DhcpOptionsSpec \<Rightarrow> jobj" where
  "json_DhcpOptionsSpec spec =
    omit_empty_string ''controller'' (opts_Controller spec) @
    omit_empty_list ''options'' json_DhcpOption (opts_Options spec)"

subsection \<open>Constructors\<close>

text \<open>The error of \<open>SetNestedMap\<close> is dropped, as the source drops it.\<close>

definition newObject :: "'w kube \<Rightarrow> GroupVersionKind \<Rightarrow> string \<Rightarrow> string \<Rightarrow> jobj \<Rightarrow> Unstructured" where
  "newObject k gvk name namespace specMap =
    (let u = new_unstructured gvk name namespace in
     case SetNestedMap k (Object u) specMap [''spec''] of
       Inl _ \<Rightarrow> u
     | Inr obj \<Rightarrow> u\<lparr>Object := obj\<rparr>)"

definition NewDnsHosts :: "'w kube \<Rightarrow> string \<Rightarrow> string \<Rightarrow> DnsHostsSpec \<Rightarrow> Unstructured" where
  "NewDnsHosts k name namespace spec =
    newObject k DnsHostsGVK name namespace (json_DnsHostsSpec spec)"

definition NewDhcpHosts :: "'w kube \<Rightarrow> string \<Rightarrow> string \<Rightarrow> DhcpHostsSpec \<Rightarrow> Unstructured" where
  "NewDhcpHosts k name namespace spec =
    newObject k DhcpHostsGVK name namespace (json_DhcpHostsSpec spec)"

definition NewDhcpOptions :: "'w kube \<Rightarrow> string \<Rightarrow> string \<Rightarrow> DhcpOptionsSpec \<Rightarrow> Unstructured" where
  "NewDhcpOptions k name namespace spec =
    newObject k DhcpOptionsGVK name namespace (json_DhcpOptionsSpec spec)"

lemma newObject_meta [simp]:
  "Name (newObject k gvk name ns m) = name"
  "Namespace (newObject k gvk name ns m) = ns"
  "u_GVK (newObject k gvk name ns m) = gvk"
  "Labels (newObject k gvk name ns m) = []"
  by (simp_all add: newObject_def Let_def split: sum.splits)

text \<open>What apimachinery documents of the accessors of a top-level field.\<close>

definition documented_NestedMap :: "'w kube \<Rightarrow> bool" where
  "documented_NestedMap k \<longleftrightarrow>
    (\<forall>obj f m. map_of obj f = Some (JObject m) \<longrightarrow> NestedMap k obj [f] = Inr (Some m)) \<and>
    (\<forall>obj f. map_of obj f = None \<longrightarrow> NestedMap k obj [f] = Inr None)"

definition documented_SetNestedMap :: "'w kube \<Rightarrow> bool" where
  "documented_SetNestedMap k \<longleftrightarrow>
    (\<forall>obj m f. SetNestedMap k obj m [f] = Inr (map_set f (JObject m) obj))"

lemma newObject_spec:
  "documented_SetNestedMap k \<Longrightarrow>
    map_of (Object (newObject k gvk name ns m)) ''spec'' = Some (JObject m)"
  by (simp add: newObject_def documented_SetNestedMap_def)

end
