(* ===== verification/Ensure.thy ===== *)
theory Ensure
  imports DnsObjects
begin

text \<open>
  Package \<open>internal/ensure\<close>: \<open>PlanUnstructured\<close> compares a wanted object with the cluster's
  (\<open>plan.go\<close>), \<open>ApplyUnstructured\<close> and \<open>Apply\<close> write it (\<open>ensure.go\<close>). What the closure
  passed to \<open>CreateOrUpdate\<close> does to the live object is \<open>apply_mutate\<close>.
\<close>

record ApplyPlan =
  p_Action :: string
  p_GroupKind :: string
  p_Namespace :: string
  p_Name :: string
  p_Summary :: string

subsection \<open>Summaries\<close>

text \<open>Go's \<open>%v\<close> of a dynamic value; maps print their keys in order.\<close>

fun fmt_v :: "jv \<Rightarrow> string" where
  "fmt_v JNull = ''<nil>''"
| "fmt_v (JBool b) = (if b then ''true'' else ''false'')"
| "fmt_v (JInt i) = itoa (sint i)"
| "fmt_v (JString s) = s"
| "fmt_v (JArray vs) = ''['' @ strings_Join (map fmt_v vs) '' '' @ '']''"
| "fmt_v (JObject m) =
    ''map['' @ strings_Join (map snd (slices_SortFunc (map (\<lambda>(key, v). (key, key @ '':'' @ fmt_v v)) m)
      (\<lambda>a b. cmp_Compare (fst a) (fst b)))) '' '' @ '']''"

text \<open>The line \<open>summarizeHostEntries\<close> shows for one entry, if any.\<close>

definition host_name :: "jv \<Rightarrow> string option" where
  "host_name h =
    (case h of
       JObject m \<Rightarrow>
         let ip = (case map_of m ''ip'' of Some (JString s) \<Rightarrow> s | _ \<Rightarrow> []);
             hn = (case map_of m ''hostnames'' of Some (JArray xs) \<Rightarrow> xs | _ \<Rightarrow> [])
         in (case hn of
               JString s # _ \<Rightarrow> Some (s @ ''@'' @ ip)
             | _ \<Rightarrow>
                 let hostname = (case map_of m ''hostname'' of Some (JString s) \<Rightarrow> s | _ \<Rightarrow> []) in
                 if hostname \<noteq> [] then Some (hostname @ ''@'' @ ip)
                 else if ip \<noteq> [] then Some ip
                 else None)
     | _ \<Rightarrow> None)"

definition summarizeHostEntries :: "jv list \<Rightarrow> string" where
  "summarizeHostEntries hosts =
    (let names = List.map_filter host_name hosts;
         maxShow = 8;
         shown = (if length names > maxShow then take maxShow names else names);
         more = (if length names > maxShow
                 then '', '' @ [CHR 0xE2, CHR 0x80, CHR 0xA6] @ ''+'' @ itoa (int (length names - maxShow))
                 else [])
     in if length shown = 0 then itoa (int (length hosts)) @ '' entries''
        else itoa (int (length hosts)) @ '' entries ('' @ strings_Join shown '', '' @ more @ '')'')"

definition summarizeSpec :: "'w kube \<Rightarrow> Unstructured \<Rightarrow> string" where
  "summarizeSpec k u =
    (case NestedSlice k (Object u) [''spec'', ''hosts''] of
       Inr (Some hosts) \<Rightarrow> summarizeHostEntries hosts
     | _ \<Rightarrow> (case NestedSlice k (Object u) [''spec'', ''options''] of
         Inr (Some options) \<Rightarrow> itoa (int (length options)) @ '' dhcp options''
       | _ \<Rightarrow> (case NestedStringSlice k (Object u) [''spec'', ''macAddresses''] of
           Inr (Some macs) \<Rightarrow>
             let vlan = (case NestedFieldNoCopy k (Object u) [''spec'', ''vlan''] of
                           Inr (Some v) \<Rightarrow> v | _ \<Rightarrow> JNull)
             in ''freeradius device vlan='' @ fmt_v vlan @ '' macs='' @ itoa (int (length macs))
         | _ \<Rightarrow> ''empty spec'')))"

subsection \<open>PlanUnstructured\<close>

definition get_object :: "'w kube \<Rightarrow> GroupVersionKind \<Rightarrow> string \<Rightarrow> string \<Rightarrow>
    ('w, error + Unstructured) prog" where
  "get_object k gvk ns name = call (GetObject k gvk ns name) (\<lambda>r. [Got gvk ns name r])"

definition plan_init :: "'w kube \<Rightarrow> Unstructured \<Rightarrow> ApplyPlan" where
  "plan_init k wanted =
    \<lparr>p_Action = [], p_GroupKind = gvk_Kind (u_GVK wanted) @ ''.'' @ gvk_Group (u_GVK wanted),
     p_Namespace = Namespace wanted, p_Name = Name wanted, p_Summary = summarizeSpec k wanted\<rparr>"

definition compare_specs :: "'w kube \<Rightarrow> Unstructured \<Rightarrow> Unstructured \<Rightarrow> error + string" where
  "compare_specs k wanted current =
    (case NestedMap k (Object wanted) [''spec''] of
       Inl e \<Rightarrow> Inl e
     | Inr desiredSpec \<Rightarrow>
         (case NestedMap k (Object current) [''spec''] of
            Inl e \<Rightarrow> Inl e
          | Inr currentSpec \<Rightarrow>
              Inr (if DeepEqual k desiredSpec currentSpec then ''unchanged'' else ''update'')))"

definition PlanUnstructured :: "'w kube \<Rightarrow> Unstructured \<Rightarrow> ('w, ApplyPlan \<times> error option) prog" where
  "PlanUnstructured k wanted = do {
     let plan = plan_init k wanted;
     r \<leftarrow> get_object k (u_GVK wanted) (Namespace wanted) (Name wanted);
     ret (case r of
       Inl e \<Rightarrow>
         if IsNotFound k e \<or> IsNoMatchError k e then (plan\<lparr>p_Action := ''create''\<rparr>, None)
         else (plan, Some e)
     | Inr current \<Rightarrow>
         (case compare_specs k wanted current of
            Inl e \<Rightarrow> (plan, Some e)
          | Inr action \<Rightarrow> (plan\<lparr>p_Action := action\<rparr>, None)))
   }"

subsection \<open>Apply\<close>

definition maps_Copy :: "('a, 'b) gomap \<Rightarrow> ('a, 'b) gomap \<Rightarrow> ('a, 'b) gomap" where
  "maps_Copy dst src = fold (\<lambda>(key, v) m. map_set key v m) src dst"

definition apply_mutate :: "'w kube \<Rightarrow> Unstructured \<Rightarrow> (string, string) gomap \<Rightarrow> ConfigMap option \<Rightarrow>
    Unstructured \<Rightarrow> error + Unstructured" where
  "apply_mutate k wanted extraLabels owner current =
    (case NestedMap k (Object wanted) [''spec''] of
       Inl e \<Rightarrow> Inl e
     | Inr found \<Rightarrow>
         let current = (case found of
                          Some spec \<Rightarrow> current\<lparr>Object := map_set ''spec'' (JObject spec) (Object current)\<rparr>
                        | None \<Rightarrow> current);
             current = current\<lparr>Labels := maps_Copy (Labels current) extraLabels\<rparr>
         in (case owner of
               None \<Rightarrow> Inr current
             | Some anchor \<Rightarrow> SetOwnerReference k anchor current))"

text \<open>\<open>controllerutil.OperationResultNone\<close>.\<close>

definition OperationResultNone :: string where
  "OperationResultNone = ''unchanged''"

definition create_or_update :: "'w kube \<Rightarrow> Unstructured \<Rightarrow> (Unstructured \<Rightarrow> error + Unstructured) \<Rightarrow>
    ('w, error + string) prog" where
  "create_or_update k current mutate =
    call (CreateOrUpdate k current mutate) (\<lambda>r. [Applied current (mutate current) r])"

definition ApplyUnstructured :: "'w kube \<Rightarrow> Unstructured \<Rightarrow> bool \<Rightarrow> (string, string) gomap \<Rightarrow>
    ConfigMap option \<Rightarrow> ('w, error + string) prog" where
  "ApplyUnstructured k wanted dryRun extraLabels owner =
    (if dryRun then ret (Inr OperationResultNone)
     else create_or_update k (new_unstructured (u_GVK wanted) (Name wanted) (Namespace wanted))
       (apply_mutate k wanted extraLabels owner))"

text \<open>\<open>Apply\<close>, used on ConfigMaps; the written object is left in its argument.\<close>

definition Apply :: "'w kube \<Rightarrow> ConfigMap \<Rightarrow> bool \<Rightarrow> (ConfigMap \<Rightarrow> ConfigMap) \<Rightarrow>
    ('w, error + ConfigMap) prog" where
  "Apply k cm dryRun mutate =
    (if dryRun then ret (Inr cm)
     else call (CreateOrUpdateConfigMap k cm mutate) (\<lambda>r. [AppliedConfigMap cm r]))"

subsection \<open>Plans\<close>

abbreviation reads_only :: "('w, 'a) prog \<Rightarrow> bool" where
  "reads_only m \<equiv> calls_only (\<lambda>e. \<not> is_write e) m"

definition absent :: "'w kube \<Rightarrow> error \<Rightarrow> bool" where
  "absent k e \<longleftrightarrow> IsNotFound k e \<or> IsNoMatchError k e"

definition same_spec :: "'w kube \<Rightarrow> Unstructured \<Rightarrow> Unstructured \<Rightarrow> bool" where
  "same_spec k wanted current \<longleftrightarrow>
    (\<exists>a b. NestedMap k (Object wanted) [''spec''] = Inr a \<and>
      NestedMap k (Object current) [''spec''] = Inr b \<and> DeepEqual k a b)"

lemma compare_specs_unchanged: "compare_specs k wanted current = Inr ''unchanged'' \<longleftrightarrow> same_spec k wanted current"
  by (simp add: compare_specs_def same_spec_def split: sum.split)

lemma compare_specs_cases:
  "compare_specs k wanted current = Inr a \<Longrightarrow> a = ''unchanged'' \<or> a = ''update''"
  by (auto simp: compare_specs_def split: sum.splits if_splits)

lemma plan_init_simps [simp]:
  "p_GroupKind (plan_init k wanted) = gvk_Kind (u_GVK wanted) @ ''.'' @ gvk_Group (u_GVK wanted)"
  "p_Namespace (plan_init k wanted) = Namespace wanted"
  "p_Name (plan_init k wanted) = Name wanted"
  "p_Action (plan_init k wanted) = []"
  by (simp_all add: plan_init_def)

lemma get_object_rule [trace_rules]:
  "(\<And>r. Q r [Got gvk ns name r]) \<Longrightarrow> traces (get_object k gvk ns name) Q"
  unfolding get_object_def by (rule traces_call)

lemma get_object_locks [lock_rules]: "leaves_locks (get_object k gvk ns name)"
  unfolding get_object_def by (rule locks_call)

lemma PlanUnstructured_locks [lock_rules]: "leaves_locks (PlanUnstructured k wanted)"
  unfolding PlanUnstructured_def by (intro lock_rules)

text \<open>
  (C26) Planning one resource makes one read and nothing else, and its action is right: none when
  the plan failed, ``create'' exactly when the cluster has no such object or not even its kind,
  ``unchanged'' exactly when an object is there with an equal spec, otherwise ``update''.
\<close>

theorem PlanUnstructured_action:
  "traces (PlanUnstructured k wanted) (\<lambda>(plan, err) es.
    \<exists>r. es = [Got (u_GVK wanted) (Namespace wanted) (Name wanted) r] \<and>
      p_GroupKind plan = gvk_Kind (u_GVK wanted) @ ''.'' @ gvk_Group (u_GVK wanted) \<and>
      p_Namespace plan = Namespace wanted \<and> p_Name plan = Name wanted \<and>
      (p_Action plan = [] \<longleftrightarrow> err \<noteq> None) \<and>
      (p_Action plan = ''create'' \<longleftrightarrow> (\<exists>e. r = Inl e \<and> absent k e)) \<and>
      (p_Action plan = ''unchanged'' \<longleftrightarrow> (\<exists>current. r = Inr current \<and> same_spec k wanted current)) \<and>
      p_Action plan \<in> {[], ''create'', ''update'', ''unchanged''})"
  unfolding PlanUnstructured_def Let_def
  by (intro trace_rules)
    (auto simp: absent_def compare_specs_unchanged[symmetric] dest: compare_specs_cases
      split: sum.split)

subsection \<open>What an apply writes\<close>

text \<open>
  \<open>controllerutil.SetOwnerReference\<close> refuses an owner of another namespace and otherwise
  changes nothing but the owner references.
\<close>

definition documented_SetOwnerReference :: "'w kube \<Rightarrow> bool" where
  "documented_SetOwnerReference k \<longleftrightarrow>
    (\<forall>owner obj. Namespace owner = Namespace obj \<longrightarrow> (\<exists>new. SetOwnerReference k owner obj = Inr new)) \<and>
    (\<forall>owner obj new. SetOwnerReference k owner obj = Inr new \<longrightarrow>
      (\<exists>refs. new = obj\<lparr>u_OwnerReferences := refs\<rparr>))"

lemma map_of_maps_Copy: "wf_map src \<Longrightarrow> map_of (maps_Copy dst src) = map_of dst ++ map_of src"
proof (induction src arbitrary: dst)
  case Nil
  then show ?case by (simp add: maps_Copy_def)
next
  case (Cons kv src)
  obtain key v where kv: "kv = (key, v)" by fastforce
  have "map_of src key = None" and wf: "wf_map src"
    using Cons.prems by (simp_all add: kv wf_map_def map_of_eq_None_iff)
  moreover have "maps_Copy dst (kv # src) = maps_Copy (map_set key v dst) src"
    by (simp add: maps_Copy_def kv)
  then have "map_of (maps_Copy dst (kv # src)) = (map_of dst)(key \<mapsto> v) ++ map_of src"
    by (simp only: Cons.IH[OF wf] map_of_map_set)
  ultimately show ?case
    by (auto simp: kv map_add_def fun_eq_iff split: option.splits)
qed

text \<open>The object an apply makes of a live one, but for its owner references.\<close>

definition with_wanted :: "jobj \<Rightarrow> (string, string) gomap \<Rightarrow> Unstructured \<Rightarrow> Unstructured" where
  "with_wanted spec extraLabels current =
    current\<lparr>Object := map_set ''spec'' (JObject spec) (Object current),
            Labels := maps_Copy (Labels current) extraLabels\<rparr>"

lemma with_wanted_simps [simp]:
  "Name (with_wanted spec lbl u) = Name u"
  "Namespace (with_wanted spec lbl u) = Namespace u"
  "u_GVK (with_wanted spec lbl u) = u_GVK u"
  "Labels (with_wanted spec lbl u) = maps_Copy (Labels u) lbl"
  "map_of (Object (with_wanted spec lbl u)) = (map_of (Object u))(''spec'' \<mapsto> JObject spec)"
  by (simp_all add: with_wanted_def)

lemma apply_mutate_eq:
  assumes "documented_NestedMap k" and "map_of (Object wanted) ''spec'' = Some (JObject spec)"
  shows "apply_mutate k wanted lbl owner current =
    (case owner of
       None \<Rightarrow> Inr (with_wanted spec lbl current)
     | Some anchor \<Rightarrow> SetOwnerReference k anchor (with_wanted spec lbl current))"
proof -
  have "NestedMap k (Object wanted) [''spec''] = Inr (Some spec)"
    using assms by (auto simp: documented_NestedMap_def)
  then show ?thesis
    by (simp add: apply_mutate_def with_wanted_def split: option.split)
qed

lemma apply_mutate_Inr:
  assumes "documented_NestedMap k" and "documented_SetOwnerReference k"
    and "map_of (Object wanted) ''spec'' = Some (JObject spec)"
    and "apply_mutate k wanted lbl owner current = Inr new"
  shows "\<exists>refs. new = (with_wanted spec lbl current)\<lparr>u_OwnerReferences := refs\<rparr>"
proof (cases owner)
  case None
  then have "new = with_wanted spec lbl current"
    using apply_mutate_eq[OF assms(1,3)] assms(4) by simp
  then have "new = (with_wanted spec lbl current)\<lparr>u_OwnerReferences := u_OwnerReferences new\<rparr>"
    by simp
  then show ?thesis by blast
next
  case (Some anchor)
  then have "SetOwnerReference k anchor (with_wanted spec lbl current) = Inr new"
    using apply_mutate_eq[OF assms(1,3)] assms(4) by simp
  then show ?thesis using assms(2) unfolding documented_SetOwnerReference_def by blast
qed

text \<open>
  (C24) An apply changes of the live object the spec, which becomes the wanted one, the labels,
  to which the management labels are added, and the owner references. Every other field of
  the object and every other label survives.
\<close>

theorem apply_mutate_result:
  assumes "documented_NestedMap k" and "documented_SetOwnerReference k"
    and "map_of (Object wanted) ''spec'' = Some (JObject spec)" and "wf_map lbl"
    and "apply_mutate k wanted lbl owner current = Inr new"
  shows "map_of (Object new) = (map_of (Object current))(''spec'' \<mapsto> JObject spec) \<and>
    map_of (Labels new) = map_of (Labels current) ++ map_of lbl \<and>
    (Name new, Namespace new, UID new, Annotations new, u_GVK new) =
      (Name current, Namespace current, UID current, Annotations current, u_GVK current)"
proof -
  obtain refs where "new = (with_wanted spec lbl current)\<lparr>u_OwnerReferences := refs\<rparr>"
    using apply_mutate_Inr[OF assms(1-3,5)] by blast
  then show ?thesis by (simp add: map_of_maps_Copy[OF assms(4)]) (simp add: with_wanted_def)
qed

lemma apply_mutate_succeeds:
  assumes "documented_NestedMap k" and "documented_SetOwnerReference k"
    and "map_of (Object wanted) ''spec'' = Some (JObject spec)"
    and "\<And>anchor. owner = Some anchor \<Longrightarrow> Namespace anchor = Namespace current"
  shows "\<exists>new. apply_mutate k wanted lbl owner current = Inr new"
proof (cases owner)
  case None
  then show ?thesis using apply_mutate_eq[OF assms(1,3)] by simp
next
  case (Some anchor)
  with assms(4) have "Namespace anchor = Namespace (with_wanted spec lbl current)" by simp
  then show ?thesis
    using assms(2) Some apply_mutate_eq[OF assms(1,3)] unfolding documented_SetOwnerReference_def by simp
qed

subsection \<open>Planning after applying\<close>

text \<open>
  What the API server documents of an object nobody else writes to: a read that succeeds returns
  the stored object; a create-or-update that succeeds has stored what the mutate function made
  of the object it was given, with the UID and generation the server sets. \<open>objs\<close> is the cluster's content in a world.
\<close>

definition documented_store ::
    "'w kube \<Rightarrow> ('w \<Rightarrow> GroupVersionKind \<Rightarrow> string \<Rightarrow> string \<Rightarrow> Unstructured option) \<Rightarrow> bool" where
  "documented_store k objs \<longleftrightarrow>
    (\<forall>gvk ns name w u. fst (GetObject k gvk ns name w) = Inr u \<longrightarrow> objs w gvk ns name = Some u) \<and>
    (\<forall>gvk ns name w e. fst (GetObject k gvk ns name w) = Inl e \<longrightarrow> absent k e \<longrightarrow> objs w gvk ns name = None) \<and>
    (\<forall>u mutate w op. fst (CreateOrUpdate k u mutate w) = Inr op \<longrightarrow>
      (\<exists>old new uid gen. mutate old = Inr new \<and>
        objs (snd (CreateOrUpdate k u mutate w)) (u_GVK u) (Namespace u) (Name u) =
          Some (new\<lparr>UID := uid, Generation := gen\<rparr>)))"

definition documented_DeepEqual :: "'w kube \<Rightarrow> bool" where
  "documented_DeepEqual k \<longleftrightarrow> (\<forall>x. DeepEqual k x x)"

lemma run_call: "run_state (call f ev) s =
    (fst (f (world s)), s\<lparr>world := snd (f (world s)), trace := trace s @ ev (fst (f (world s)))\<rparr>)"
  by (simp add: call_def split: prod.split)

text \<open>
  The plan made right after a successful apply finds nothing left to do: applying is
  idempotent, and a reconcile of an unchanged cluster reports every resource as unchanged.
\<close>

theorem plan_after_apply:
  assumes "documented_NestedMap k" and "documented_SetOwnerReference k"
    and "documented_DeepEqual k" and "documented_store k objs"
    and "map_of (Object wanted) ''spec'' = Some (JObject spec)"
    and "run_state (ApplyUnstructured k wanted False lbl owner) s = (Inr op, s')"
    and "run_state (PlanUnstructured k wanted) s' = ((plan, None), s'')"
  shows "p_Action plan = ''unchanged''"
proof -
  let ?fresh = "new_unstructured (u_GVK wanted) (Name wanted) (Namespace wanted)"
  let ?co = "CreateOrUpdate k ?fresh (apply_mutate k wanted lbl owner) (world s)"
  have "fst ?co = Inr op" and s': "world s' = snd ?co"
    using assms(6) by (auto simp: ApplyUnstructured_def create_or_update_def run_call)
  then obtain old made uid gen where "apply_mutate k wanted lbl owner old = Inr made"
    and stored: "objs (world s') (u_GVK wanted) (Namespace wanted) (Name wanted) =
      Some (made\<lparr>UID := uid, Generation := gen\<rparr>)"
    using assms(4) unfolding documented_store_def by (metis new_unstructured_simps(1,2,4))
  then obtain refs where "made = (with_wanted spec lbl old)\<lparr>u_OwnerReferences := refs\<rparr>"
    using apply_mutate_Inr[OF assms(1,2,5)] by blast
  then have "map_of (Object (made\<lparr>UID := uid, Generation := gen\<rparr>)) ''spec'' = Some (JObject spec)" by simp
  define new where "new = made\<lparr>UID := uid, Generation := gen\<rparr>"
  note stored = stored[folded new_def]
  from \<open>map_of (Object (made\<lparr>UID := uid, Generation := gen\<rparr>)) ''spec'' = Some (JObject spec)\<close>
  have "map_of (Object new) ''spec'' = Some (JObject spec)" by (simp only: new_def)
  with assms(1,3,5) have same: "same_spec k wanted new"
    by (auto simp: same_spec_def documented_NestedMap_def documented_DeepEqual_def)
  let ?get = "fst (GetObject k (u_GVK wanted) (Namespace wanted) (Name wanted) (world s'))"
  show ?thesis
  proof (cases ?get)
    case (Inl e)
    then have "\<not> absent k e" using stored assms(4) unfolding documented_store_def by fastforce
    then show ?thesis
      using assms(7) Inl
      by (simp add: PlanUnstructured_def get_object_def run_call absent_def Let_def)
  next
    case (Inr current)
    then have "current = new" using stored assms(4) unfolding documented_store_def by fastforce
    then have "compare_specs k wanted current = Inr ''unchanged''"
      using same by (simp add: compare_specs_unchanged)
    then show ?thesis
      using assms(7) Inr by (auto simp: PlanUnstructured_def get_object_def run_call Let_def)
  qed
qed

subsection \<open>Rules for plans and applies\<close>

lemma create_or_update_locks [lock_rules]: "leaves_locks (create_or_update k u mutate)"
  unfolding create_or_update_def by (rule locks_call)

lemma ApplyUnstructured_locks [lock_rules]: "leaves_locks (ApplyUnstructured k wanted dryRun lbl owner)"
  unfolding ApplyUnstructured_def by (intro lock_rules)

lemma Apply_locks [lock_rules]: "leaves_locks (Apply k cm dryRun mutate)"
  unfolding Apply_def by (intro lock_rules)

lemma ApplyUnstructured_rule [trace_rules]:
  assumes "dryRun \<Longrightarrow> Q (Inr OperationResultNone) []"
    and "\<And>fresh r. fresh = new_unstructured (u_GVK wanted) (Name wanted) (Namespace wanted) \<Longrightarrow>
      \<not> dryRun \<Longrightarrow> Q r [Applied fresh (apply_mutate k wanted lbl owner fresh) r]"
  shows "traces (ApplyUnstructured k wanted dryRun lbl owner) Q"
  unfolding ApplyUnstructured_def create_or_update_def
  by (intro trace_rules) (auto intro: assms)

lemma Apply_rule [trace_rules]:
  assumes "dryRun \<Longrightarrow> Q (Inr cm) []" and "\<And>r. \<not> dryRun \<Longrightarrow> Q r [AppliedConfigMap cm r]"
  shows "traces (Apply k cm dryRun mutate) Q"
  unfolding Apply_def by (intro trace_rules) (auto intro: assms)

lemma PlanUnstructured_rule [trace_rules]:
  assumes "\<And>plan err r. p_Namespace plan = Namespace wanted \<Longrightarrow> p_Name plan = Name wanted \<Longrightarrow>
      p_GroupKind plan = gvk_Kind (u_GVK wanted) @ ''.'' @ gvk_Group (u_GVK wanted) \<Longrightarrow>
      Q (plan, err) [Got (u_GVK wanted) (Namespace wanted) (Name wanted) r]"
  shows "traces (PlanUnstructured k wanted) Q"
  unfolding PlanUnstructured_def Let_def
  by (intro trace_rules) (auto intro: assms split: sum.split)

lemma PlanUnstructured_only [only_rules]:
  "(\<And>gvk ns name r. P (Got gvk ns name r)) \<Longrightarrow> calls_only P (PlanUnstructured k wanted)"
  by (rule PlanUnstructured_rule) simp

end
