(* ===== verification/ReconcileLog.thy ===== *)
theory ReconcileLog
  imports Ensure
begin

text \<open>
  \<open>internal/controller/reconcile_log.go\<close>: one summary line per reconcile and a line per changed
  resource. \<open>dedupeApplyPlans\<close> keeps one plan per resource, the last one, in the order the
  resources first appear. A log line carries the logger's accumulated values.
\<close>

definition resource_key :: "ApplyPlan \<Rightarrow> string" where
  "resource_key p = p_GroupKind p @ ''/'' @ p_Namespace p @ ''/'' @ p_Name p"

definition dedupe_round :: "ApplyPlan \<Rightarrow> (string, ApplyPlan) gomap \<times> string list \<Rightarrow>
    (string, ApplyPlan) gomap \<times> string list" where
  "dedupe_round p st =
    (case st of (byResource, order) \<Rightarrow>
       let key = resource_key p;
           order = (if map_of byResource key = None then order @ [key] else order)
       in (map_set key p byResource, order))"

definition dedupeApplyPlans :: "ApplyPlan list \<Rightarrow> ApplyPlan list" where
  "dedupeApplyPlans plans =
    (case fold dedupe_round plans ([], []) of
       (byResource, order) \<Rightarrow> map (\<lambda>key. the (map_of byResource key)) order)"

record action_counts =
  creates :: nat
  updates :: nat
  unchanged :: nat

definition count_round :: "ApplyPlan \<Rightarrow> action_counts \<Rightarrow> action_counts" where
  "count_round p c =
    (if p_Action p = ''create'' then c\<lparr>creates := creates c + 1\<rparr>
     else if p_Action p = ''update'' then c\<lparr>updates := updates c + 1\<rparr>
     else c\<lparr>unchanged := unchanged c + 1\<rparr>)"

definition count_actions :: "ApplyPlan list \<Rightarrow> action_counts" where
  "count_actions plans = fold count_round plans \<lparr>creates = 0, updates = 0, unchanged = 0\<rparr>"

fun log_changes :: "(string \<times> log_value) list \<Rightarrow> bool \<Rightarrow> string \<Rightarrow> ApplyPlan list \<Rightarrow> ('w, unit) prog" where
  "log_changes values dryRun aggregate [] = ret ()"
| "log_changes values dryRun aggregate (p # plans) =
    (if p_Action p = ''unchanged'' then log_changes values dryRun aggregate plans
     else do {
       log_info values (LogChange dryRun aggregate (resource_key p) (p_Action p) (p_Summary p));
       log_changes values dryRun aggregate plans
     })"

definition logReconcileSummary ::
    "(string \<times> log_value) list \<Rightarrow> bool \<Rightarrow> string \<Rightarrow> ApplyPlan list \<Rightarrow> ('w, unit) prog" where
  "logReconcileSummary values dryRun aggregate plans =
    (let plans = dedupeApplyPlans plans in
     if length plans = 0 then log_info values (LogNoResources aggregate)
     else
       let c = count_actions plans in
       do {
         log_info values (LogSummary dryRun aggregate (length plans) (creates c) (updates c) (unchanged c));
         log_changes values dryRun aggregate plans
       })"

subsection \<open>What is kept\<close>

lemma fold_dedupe_map:
  "fst (fold dedupe_round plans st) = fold (\<lambda>p m. map_set (resource_key p) p m) plans (fst st)"
  by (induction plans arbitrary: st) (auto simp: dedupe_round_def Let_def split: prod.split)

lemma fold_dedupe_order:
  "fold dedupe_round plans ([], []) = (byResource, order) \<Longrightarrow>
    distinct order \<and> set order = dom (map_of byResource)"
proof (induction plans arbitrary: byResource order rule: rev_induct)
  case Nil
  then show ?case by simp
next
  case (snoc p plans)
  obtain m o' where st: "fold dedupe_round plans ([], []) = (m, o')" by fastforce
  have "fold dedupe_round (plans @ [p]) ([], []) = dedupe_round p (m, o')" by (simp add: st)
  then have "(byResource, order) = dedupe_round p (m, o')" by (simp only: snoc.prems)
  then have "byResource = map_set (resource_key p) p m"
    and "order = (if map_of m (resource_key p) = None then o' @ [resource_key p] else o')"
    by (simp_all add: dedupe_round_def Let_def)
  with snoc.IH[OF st] show ?case by (auto simp: dom_def)
qed

lemma fold_dedupe_round:
  assumes "fold dedupe_round plans ([], []) = (byResource, order)"
  shows "distinct order \<and> set order = dom (map_of byResource) \<and>
    (\<forall>key. map_of byResource key =
      (case filter (\<lambda>p. resource_key p = key) (rev plans) of [] \<Rightarrow> None | p # _ \<Rightarrow> Some p))"
proof -
  have "byResource = fold (\<lambda>p m. map_set (resource_key p) p m) plans []"
    using fold_dedupe_map[of plans "([], [])"] assms by simp
  with fold_dedupe_order[OF assms] show ?thesis
    by (simp add: map_of_fold_map_set split: list.split)
qed

text \<open>
  (C40) The summary of a reconcile speaks of every resource once, by the last plan made for it:
  the deduplicated plans have distinct resources, the resources are those planned, and the plan
  kept for a resource is the last one of that resource.
\<close>

theorem dedupeApplyPlans_last:
  "distinct (map resource_key (dedupeApplyPlans plans)) \<and>
    (p \<in> set (dedupeApplyPlans plans) \<longleftrightarrow>
      (\<exists>earlier later. plans = earlier @ p # later \<and> resource_key p \<notin> resource_key ` set later))"
proof -
  obtain m order where st: "fold dedupe_round plans ([], []) = (m, order)" by fastforce
  have kept: "dedupeApplyPlans plans = map (\<lambda>key. the (map_of m key)) order"
    by (simp add: dedupeApplyPlans_def st)
  note inv = fold_dedupe_round[OF st]
  have key: "resource_key (the (map_of m key)) = key" if "key \<in> set order" for key
    using that inv by (auto split: list.splits dest!: filter_eq_ConsD)
  then have keys: "map resource_key (dedupeApplyPlans plans) = order"
    by (simp add: kept map_idI)
  have mem: "p \<in> set (dedupeApplyPlans plans) \<longleftrightarrow> map_of m (resource_key p) = Some p"
  proof
    assume "p \<in> set (dedupeApplyPlans plans)"
    then obtain k where k: "k \<in> set order" "p = the (map_of m k)" by (auto simp: kept)
    then have "resource_key p = k" using key by simp
    with k inv show "map_of m (resource_key p) = Some p" by auto
  next
    assume "map_of m (resource_key p) = Some p"
    with inv have "resource_key p \<in> set order" "p = the (map_of m (resource_key p))" by auto
    then show "p \<in> set (dedupeApplyPlans plans)" unfolding kept by auto
  qed
  have "map_of m (resource_key p) = Some p \<longleftrightarrow>
      (\<exists>qs. filter (\<lambda>q. resource_key q = resource_key p) (rev plans) = p # qs)"
    using inv by (auto split: list.splits)
  also have "\<dots> \<longleftrightarrow> (\<exists>us vs. rev plans = us @ p # vs \<and> (\<forall>u\<in>set us. resource_key u \<noteq> resource_key p))"
    by (auto simp: filter_eq_Cons_iff)
  also have "\<dots> \<longleftrightarrow>
      (\<exists>earlier later. plans = earlier @ p # later \<and> resource_key p \<notin> resource_key ` set later)"
    unfolding rev_swap
  proof (intro iffI; elim exE conjE)
    fix us vs
    assume "plans = rev (us @ p # vs)" and "\<forall>u\<in>set us. resource_key u \<noteq> resource_key p"
    then have "plans = rev vs @ p # rev us \<and> resource_key p \<notin> resource_key ` set (rev us)"
      by auto
    then show "\<exists>earlier later. plans = earlier @ p # later \<and> resource_key p \<notin> resource_key ` set later"
      by blast
  next
    fix earlier later
    assume "plans = earlier @ p # later" and "resource_key p \<notin> resource_key ` set later"
    then have "plans = rev (rev later @ p # rev earlier) \<and>
        (\<forall>u\<in>set (rev later). resource_key u \<noteq> resource_key p)"
      by simp (metis imageI)
    then show "\<exists>us vs. plans = rev (us @ p # vs) \<and> (\<forall>u\<in>set us. resource_key u \<noteq> resource_key p)"
      by blast
  qed
  finally show ?thesis using mem keys inv by simp
qed

subsection \<open>What is logged\<close>

lemma count_round_fields:
  "creates (count_round p c) = creates c + (if p_Action p = ''create'' then 1 else 0)"
  "updates (count_round p c) = updates c + (if p_Action p = ''update'' then 1 else 0)"
  "creates (count_round p c) + updates (count_round p c) + unchanged (count_round p c) =
    creates c + updates c + unchanged c + 1"
  by (simp_all add: count_round_def)

lemma fold_count_creates:
  "creates (fold count_round plans c) =
    creates c + length (filter (\<lambda>p. p_Action p = ''create'') plans)"
  by (induction plans arbitrary: c) (simp_all add: count_round_fields)

lemma fold_count_updates:
  "updates (fold count_round plans c) =
    updates c + length (filter (\<lambda>p. p_Action p = ''update'') plans)"
  by (induction plans arbitrary: c) (simp_all add: count_round_fields)

lemma fold_count_total:
  "creates (fold count_round plans c) + updates (fold count_round plans c) +
      unchanged (fold count_round plans c) =
    creates c + updates c + unchanged c + length plans"
  by (induction plans arbitrary: c) (simp_all add: count_round_fields(3))

lemma count_actions_fields:
  "creates (count_actions plans) = length (filter (\<lambda>p. p_Action p = ''create'') plans)"
  "updates (count_actions plans) = length (filter (\<lambda>p. p_Action p = ''update'') plans)"
  "creates (count_actions plans) + updates (count_actions plans) + unchanged (count_actions plans) =
    length plans"
  unfolding count_actions_def fold_count_total by (simp_all add: fold_count_creates fold_count_updates)

lemma log_changes_rule [trace_rules]:
  "Q () (map (\<lambda>p. Logged values (LogChange dryRun aggregate (resource_key p) (p_Action p) (p_Summary p)))
      (filter (\<lambda>p. p_Action p \<noteq> ''unchanged'') plans)) \<Longrightarrow>
    traces (log_changes values dryRun aggregate plans) Q"
  by (induction plans arbitrary: Q) (auto intro!: trace_rules)

lemma dedupeApplyPlans_Nil [simp]: "dedupeApplyPlans plans = [] \<longleftrightarrow> plans = []"
proof (cases plans rule: rev_cases)
  case Nil
  then show ?thesis by (simp add: dedupeApplyPlans_def)
next
  case (snoc ps p)
  obtain m order where st: "fold dedupe_round plans ([], []) = (m, order)" by fastforce
  have "plans \<noteq> []" using snoc by simp
  have "resource_key p \<in> set order"
    using fold_dedupe_round[OF st] snoc by auto
  then have "order \<noteq> []" by auto
  then show ?thesis using \<open>plans \<noteq> []\<close> by (simp add: dedupeApplyPlans_def st)
qed

text \<open>
  What a reconcile logs: one summary line, whose create and update counts are those of the
  deduplicated plans and whose three counts add up to the number of resources, then one line per
  resource that is not unchanged; or the single line that there was no resource.
\<close>

theorem logReconcileSummary_lines:
  "traces (logReconcileSummary values dryRun aggregate plans) (\<lambda>_ es.
    let kept = dedupeApplyPlans plans;
        count = (\<lambda>action. length (filter (\<lambda>p. p_Action p = action) kept)) in
    if plans = [] then es = [Logged values (LogNoResources aggregate)]
    else \<exists>rest. count ''create'' + count ''update'' + rest = length kept \<and>
      es = Logged values (LogSummary dryRun aggregate (length kept) (count ''create'') (count ''update'') rest) #
        map (\<lambda>p. Logged values
            (LogChange dryRun aggregate (resource_key p) (p_Action p) (p_Summary p)))
          (filter (\<lambda>p. p_Action p \<noteq> ''unchanged'') kept))"
  unfolding logReconcileSummary_def Let_def
  using count_actions_fields[of "dedupeApplyPlans plans"]
  by (intro trace_rules) auto

lemma log_changes_locks [lock_rules]: "leaves_locks (log_changes values dryRun aggregate plans)"
  by (induction plans) (auto intro!: lock_rules)

lemma logReconcileSummary_locks [lock_rules]:
  "leaves_locks (logReconcileSummary values dryRun aggregate plans)"
  unfolding logReconcileSummary_def by (intro lock_rules)

lemma log_changes_only [only_rules]:
  "(\<And>l. P (Logged values l)) \<Longrightarrow> calls_only P (log_changes values dryRun aggregate plans)"
  by (rule log_changes_rule) (simp add: list_all_iff)

lemma logReconcileSummary_only [only_rules]:
  "(\<And>l. P (Logged values l)) \<Longrightarrow> calls_only P (logReconcileSummary values dryRun aggregate plans)"
  unfolding logReconcileSummary_def by (intro only_rules)

end
