(* ===== verification/Gate.thy ===== *)
theory Gate
  imports Kube
begin

text \<open>
  \<open>internal/controller/reconcile_gate.go\<close>: at most one reconcile runs per key, an
  overlapping call is asked to come back in 500 ms.

  \<open>gate_enter\<close> and \<open>gate_leave\<close> are the two critical sections of \<open>run\<close>. \<open>gate_run\<close> is
  \<open>run\<close> as one goroutine sees it; \<open>gate_step\<close> interleaves any number of goroutines, with the
  mutex explicit, and its invariant is the promise in the source's comment. The deferred
  function runs when \<open>fn\<close> panics as well, which is the same step as its return.
\<close>

subsection \<open>The gate\<close>

text \<open>\<open>ctrl.Result\<close>, the delay in nanoseconds.\<close>

record Result =
  RequeueAfter :: int

definition no_result :: Result where
  "no_result = \<lparr>RequeueAfter = 0\<rparr>"

definition time_Millisecond :: int where
  "time_Millisecond = 1000000"

definition gate_held :: "(string, unit) gomap \<Rightarrow> string \<Rightarrow> bool" where
  "gate_held keys key \<longleftrightarrow> map_of keys key \<noteq> None"

definition gate_enter :: "string \<Rightarrow> (string, unit) gomap \<Rightarrow> (string, unit) gomap option" where
  "gate_enter key keys = (if gate_held keys key then None else Some (map_set key () keys))"

definition gate_leave :: "string \<Rightarrow> (string, unit) gomap \<Rightarrow> (string, unit) gomap" where
  "gate_leave key keys = map_delete key keys"

definition try_enter :: "string \<Rightarrow> ('w, bool) prog" where
  "try_enter key = State (\<lambda>s.
     case gate_enter key (gate_keys s) of
       None \<Rightarrow> (False, s)
     | Some keys \<Rightarrow> (True, s\<lparr>gate_keys := keys\<rparr>))"

definition do_leave :: "string \<Rightarrow> ('w, unit) prog" where
  "do_leave key = State (\<lambda>s. ((), s\<lparr>gate_keys := gate_leave key (gate_keys s)\<rparr>))"

definition gate_run :: "string \<Rightarrow> ('w, Result \<times> error option) prog \<Rightarrow>
    ('w, Result \<times> error option) prog" where
  "gate_run key fn = do {
     entered \<leftarrow> try_enter key;
     if \<not> entered then ret (\<lparr>RequeueAfter = 500 * time_Millisecond\<rparr>, None)
     else do {
       r \<leftarrow> fn;
       do_leave key;
       ret r
     }
   }"

subsection \<open>The contract of a gate\<close>

text \<open>
  What a client of a gate relies on. \<open>sound holds g\<close>: the keys held are exactly those some
  client holds, and no two clients hold one key.
\<close>

locale key_gate =
  fixes enter :: "'k \<Rightarrow> 'g \<Rightarrow> 'g option" and leave :: "'k \<Rightarrow> 'g \<Rightarrow> 'g"
    and held :: "'g \<Rightarrow> 'k \<Rightarrow> bool"
  assumes enter_None: "enter k g = None \<longleftrightarrow> held g k"
    and enter_Some: "enter k g = Some g' \<Longrightarrow> held g' j \<longleftrightarrow> j = k \<or> held g j"
    and held_leave: "held (leave k g) j \<longleftrightarrow> j \<noteq> k \<and> held g j"
begin

definition sound :: "('t \<Rightarrow> 'k option) \<Rightarrow> 'g \<Rightarrow> bool" where
  "sound holds g \<longleftrightarrow>
    (\<forall>k. held g k \<longleftrightarrow> (\<exists>t. holds t = Some k)) \<and>
    (\<forall>t u k. holds t = Some k \<longrightarrow> holds u = Some k \<longrightarrow> t = u)"

lemma sound_exclusive: "sound holds g \<Longrightarrow> holds t = Some k \<Longrightarrow> holds u = Some k \<Longrightarrow> t = u"
  unfolding sound_def by blast

lemma sound_held: "sound holds g \<Longrightarrow> held g k \<longleftrightarrow> (\<exists>t. holds t = Some k)"
  unfolding sound_def by blast

lemma sound_enter:
  assumes "sound holds g" and "holds t = None" and "enter k g = Some g'"
  shows "sound (holds(t := Some k)) g'"
proof -
  have free: "holds u \<noteq> Some k" for u
    using assms(1,3) enter_None[of k g] by (auto simp: sound_held)
  show ?thesis
    using assms(1,2) free unfolding sound_def
    by (auto simp: enter_Some[OF assms(3)] split: if_splits) (metis option.distinct(1))
qed

lemma sound_leave:
  assumes "sound holds g" and "holds t = Some k"
  shows "sound (holds(t := None)) (leave k g)"
  using assms unfolding sound_def by (auto simp: held_leave) (metis option.inject)+

text \<open>An interval between entering and leaving: nobody else enters, and the key is free after it.\<close>

lemma refused_inside: "enter k g = Some g' \<Longrightarrow> enter k g' = None"
  by (simp add: enter_None enter_Some)

lemma restored: "enter k g = Some g' \<Longrightarrow> held (leave k g') j \<longleftrightarrow> held g j"
  using enter_None[of k g] by (auto simp: held_leave enter_Some)

end

interpretation gate: key_gate gate_enter gate_leave gate_held
  by unfold_locales (auto simp: gate_enter_def gate_held_def gate_leave_def split: if_splits)

subsection \<open>One goroutine\<close>

lemma gate_run_cases:
  "run_state (gate_run key fn) s =
    (case gate_enter key (gate_keys s) of
       None \<Rightarrow> ((\<lparr>RequeueAfter = 500 * time_Millisecond\<rparr>, None), s)
     | Some keys \<Rightarrow>
         (let out = run_state fn (s\<lparr>gate_keys := keys\<rparr>) in
          (fst out, (snd out)\<lparr>gate_keys := gate_leave key (gate_keys (snd out))\<rparr>)))"
  by (simp add: gate_run_def try_enter_def do_leave_def Let_def split: option.split prod.split)

lemma gate_run_rule [trace_rules]:
  assumes "Q (\<lparr>RequeueAfter = 500 * time_Millisecond\<rparr>, None) []" and "traces fn Q"
  shows "traces (gate_run key fn) Q"
  unfolding traces_def
proof
  fix s :: "'a st"
  show "\<exists>es. trace (snd (run_state (gate_run key fn) s)) = trace s @ es \<and>
      Q (fst (run_state (gate_run key fn) s)) es"
  proof (cases "gate_enter key (gate_keys s)")
    case None
    then show ?thesis using assms(1) by (simp add: gate_run_cases)
  next
    case (Some keys)
    from assms(2) have "\<exists>es. trace (snd (run_state fn (s\<lparr>gate_keys := keys\<rparr>))) =
        trace (s\<lparr>gate_keys := keys\<rparr>) @ es \<and> Q (fst (run_state fn (s\<lparr>gate_keys := keys\<rparr>))) es"
      unfolding traces_def by blast
    with Some show ?thesis by (simp add: gate_run_cases Let_def)
  qed
qed

subsection \<open>Many goroutines\<close>

text \<open>
  Where a goroutine is in a call of \<open>run\<close>: \<open>Locking\<close> waits for the mutex, \<open>Checking\<close> holds it
  before the test of the key, \<open>Running\<close> is in \<open>fn\<close>, \<open>Unlocking\<close> is in the deferred function
  waiting for the mutex and \<open>Deleting\<close> holds it there. \<open>Refused\<close> has returned the requeue.
\<close>

datatype pc = Idle | Locking string | Checking string | Refused | Running string
  | Unlocking string | Deleting string

record gate_state =
  g_mu :: "nat option"
  g_keys :: "(string, unit) gomap"
  g_pc :: "nat \<Rightarrow> pc"

definition at :: "nat \<Rightarrow> pc \<Rightarrow> gate_state \<Rightarrow> gate_state" where
  "at t c s = s\<lparr>g_pc := (g_pc s)(t := c)\<rparr>"

lemma at_simps [simp]:
  "g_mu (at t c s) = g_mu s" "g_keys (at t c s) = g_keys s" "g_pc (at t c s) = (g_pc s)(t := c)"
  by (simp_all add: at_def)

inductive gate_step :: "gate_state \<Rightarrow> gate_state \<Rightarrow> bool" where
  Call: "g_pc s t = Idle \<or> g_pc s t = Refused \<Longrightarrow> gate_step s (at t (Locking key) s)"
| Lock: "g_pc s t = Locking key \<Longrightarrow> g_mu s = None \<Longrightarrow>
    gate_step s (at t (Checking key) (s\<lparr>g_mu := Some t\<rparr>))"
| Busy: "g_pc s t = Checking key \<Longrightarrow> gate_enter key (g_keys s) = None \<Longrightarrow>
    gate_step s (at t Refused (s\<lparr>g_mu := None\<rparr>))"
| Enter: "g_pc s t = Checking key \<Longrightarrow> gate_enter key (g_keys s) = Some keys \<Longrightarrow>
    gate_step s (at t (Running key) (s\<lparr>g_mu := None, g_keys := keys\<rparr>))"
| Return: "g_pc s t = Running key \<Longrightarrow> gate_step s (at t (Unlocking key) s)"
| Relock: "g_pc s t = Unlocking key \<Longrightarrow> g_mu s = None \<Longrightarrow>
    gate_step s (at t (Deleting key) (s\<lparr>g_mu := Some t\<rparr>))"
| Leave: "g_pc s t = Deleting key \<Longrightarrow>
    gate_step s (at t Idle (s\<lparr>g_mu := None, g_keys := gate_leave key (g_keys s)\<rparr>))"

definition gate_init :: gate_state where
  "gate_init = \<lparr>g_mu = None, g_keys = [], g_pc = (\<lambda>_. Idle)\<rparr>"

abbreviation gate_reachable :: "gate_state \<Rightarrow> bool" where
  "gate_reachable s \<equiv> gate_step\<^sup>*\<^sup>* gate_init s"

text \<open>The key a goroutine has taken, and whether it holds the mutex.\<close>

fun holds_key :: "pc \<Rightarrow> string option" where
  "holds_key (Running key) = Some key"
| "holds_key (Unlocking key) = Some key"
| "holds_key (Deleting key) = Some key"
| "holds_key _ = None"

fun holds_mu :: "pc \<Rightarrow> bool" where
  "holds_mu (Checking key) = True"
| "holds_mu (Deleting key) = True"
| "holds_mu _ = False"

definition gate_inv :: "gate_state \<Rightarrow> bool" where
  "gate_inv s \<longleftrightarrow>
    gate.sound (\<lambda>t. holds_key (g_pc s t)) (g_keys s) \<and>
    (\<forall>t. holds_mu (g_pc s t) \<longleftrightarrow> g_mu s = Some t)"

lemma gate_inv_init: "gate_inv gate_init"
  by (simp add: gate_inv_def gate.sound_def gate_init_def gate_held_def)

lemma holds_key_upd:
  "(\<lambda>u. holds_key ((f(t := c)) u)) = (\<lambda>u. holds_key (f u))(t := holds_key c)"
  by auto

lemma holds_key_same:
  "holds_key c = holds_key (f t) \<Longrightarrow> (\<lambda>u. holds_key ((f(t := c)) u)) = (\<lambda>u. holds_key (f u))"
  by auto

text \<open>The mutex is kept, taken or released by one goroutine's move.\<close>

definition owns :: "(nat \<Rightarrow> pc) \<Rightarrow> nat option \<Rightarrow> bool" where
  "owns f mu \<longleftrightarrow> (\<forall>t. holds_mu (f t) \<longleftrightarrow> mu = Some t)"

lemma owns_keep: "owns f mu \<Longrightarrow> holds_mu c = holds_mu (f t) \<Longrightarrow> owns (f(t := c)) mu"
  by (simp add: owns_def)

lemma owns_take: "owns f None \<Longrightarrow> holds_mu c \<Longrightarrow> owns (f(t := c)) (Some t)"
  by (auto simp: owns_def)

lemma owns_release: "owns f mu \<Longrightarrow> holds_mu (f t) \<Longrightarrow> \<not> holds_mu c \<Longrightarrow> owns (f(t := c)) None"
  by (auto simp: owns_def)

lemma gate_inv_step:
  assumes "gate_inv s" and "gate_step s s'"
  shows "gate_inv s'"
proof -
  let ?holds = "\<lambda>t. holds_key (g_pc s t)"
  from assms(1) have sound: "gate.sound ?holds (g_keys s)" and mu: "owns (g_pc s) (g_mu s)"
    unfolding gate_inv_def owns_def by blast+
  from assms(2) have "gate.sound (\<lambda>t. holds_key (g_pc s' t)) (g_keys s') \<and> owns (g_pc s') (g_mu s')"
  proof (cases rule: gate_step.cases)
    case (Call t key)
    then have "holds_key (g_pc s t) = None" "\<not> holds_mu (g_pc s t)" by auto
    with Call(1) sound mu show ?thesis by (simp add: holds_key_same owns_keep del: fun_upd_apply)
  next
    case (Lock t key)
    with sound mu show ?thesis by (simp add: holds_key_same owns_take del: fun_upd_apply)
  next
    case (Busy t key)
    with sound mu show ?thesis by (simp add: holds_key_same del: fun_upd_apply) (rule owns_release, simp_all)
  next
    case (Enter t key keys)
    have "gate.sound (?holds(t := Some key)) keys"
      by (rule gate.sound_enter[OF sound]) (simp_all add: Enter)
    with Enter mu show ?thesis by (simp add: holds_key_upd del: fun_upd_apply) (rule owns_release, simp_all)
  next
    case (Return t key)
    with sound mu show ?thesis by (simp add: holds_key_same owns_keep del: fun_upd_apply)
  next
    case (Relock t key)
    with sound mu show ?thesis by (simp add: holds_key_same owns_take del: fun_upd_apply)
  next
    case (Leave t key)
    have "gate.sound (?holds(t := None)) (gate_leave key (g_keys s))"
      by (rule gate.sound_leave[OF sound]) (simp add: Leave)
    with Leave mu show ?thesis by (simp add: holds_key_upd del: fun_upd_apply) (rule owns_release, simp_all)
  qed
  then show ?thesis unfolding gate_inv_def owns_def by blast
qed

lemma gate_inv_reachable: "gate_reachable s \<Longrightarrow> gate_inv s"
  by (induction rule: rtranclp_induct) (auto intro: gate_inv_init gate_inv_step)

text \<open>
  (C18) Mutual exclusion: however the calls of \<open>run\<close> interleave, no two goroutines are in a
  reconcile of the same key, and a call is refused only while some goroutine holds its key.
\<close>

theorem gate_mutual_exclusion:
  assumes "gate_reachable s"
  shows "(g_pc s t = Running key \<and> g_pc s u = Running key \<longrightarrow> t = u) \<and>
    (gate_enter key (g_keys s) = None \<longleftrightarrow> (\<exists>v. holds_key (g_pc s v) = Some key))"
proof -
  have sound: "gate.sound (\<lambda>t. holds_key (g_pc s t)) (g_keys s)"
    using gate_inv_reachable[OF assms] unfolding gate_inv_def by blast
  show ?thesis
    using gate.sound_exclusive[OF sound, of t key u] gate.sound_held[OF sound, of key]
    by (auto simp: gate.enter_None)
qed

text \<open>While a goroutine is inside a call, the holder of the mutex, or it, can step.\<close>

lemma gate_progress:
  assumes "gate_inv s" and "g_pc s t \<noteq> Idle" and "g_pc s t \<noteq> Refused"
  shows "\<exists>u s'. gate_step s s' \<and> g_pc s u \<noteq> Idle \<and> g_pc s u \<noteq> Refused \<and> g_pc s' u \<noteq> g_pc s u"
proof -
  have step: "\<exists>s'. gate_step s s' \<and> g_pc s' u \<noteq> g_pc s u"
    if "holds_mu (g_pc s u) \<or> g_mu s = None \<and> g_pc s u \<noteq> Idle \<and> g_pc s u \<noteq> Refused" for u
  proof (cases "g_pc s u")
    case (Checking key)
    then show ?thesis
      by (cases "gate_enter key (g_keys s)") (force dest: Busy Enter)+
  qed (use that in \<open>force dest: Lock Return Relock Leave\<close>)+
  show ?thesis
  proof (cases "g_mu s")
    case None
    with assms(2,3) step[of t] show ?thesis by blast
  next
    case (Some u)
    then have u: "holds_mu (g_pc s u)"
      using assms(1) unfolding gate_inv_def by blast
    then have "g_pc s u \<noteq> Idle" "g_pc s u \<noteq> Refused" by auto
    with step[of u] u show ?thesis by blast
  qed
qed

text \<open>
  (C19) No call of \<open>run\<close> can be left waiting for ever by the gate itself: while some goroutine
  is inside a call, some goroutine inside a call can take its next step.
\<close>

theorem gate_no_deadlock:
  assumes "gate_reachable s" and "g_pc s t \<noteq> Idle" and "g_pc s t \<noteq> Refused"
  shows "\<exists>u s'. gate_step s s' \<and> g_pc s u \<noteq> Idle \<and> g_pc s u \<noteq> Refused \<and> g_pc s' u \<noteq> g_pc s u"
  by (rule gate_progress[OF gate_inv_reachable[OF assms(1)] assms(2,3)])

end
