(* ===== verification/Trigger.thy ===== *)
theory Trigger
  imports Kube
begin

text \<open>
  \<open>internal/controller/reconcile_trigger.go\<close>: the watch event that enqueued a reconcile, kept
  per namespace until the reconcile consumes it. Each method is one critical section.
\<close>

definition note_map :: "string \<Rightarrow> reconcileTrigger \<Rightarrow> (string, reconcileTrigger) gomap \<Rightarrow>
    (string, reconcileTrigger) gomap" where
  "note_map key tr m = map_set key tr m"

definition consume_map :: "string \<Rightarrow> (string, reconcileTrigger) gomap \<Rightarrow>
    reconcileTrigger option \<times> (string, reconcileTrigger) gomap" where
  "consume_map key m =
    (case map_of m key of None \<Rightarrow> (None, m) | Some tr \<Rightarrow> (Some tr, map_delete key m))"

definition trigger_note :: "string \<Rightarrow> string \<Rightarrow> string \<Rightarrow> ('w, unit) prog" where
  "trigger_note key kind name = State (\<lambda>s.
     ((), s\<lparr>byKey := note_map key \<lparr>tr_Kind = kind, tr_Name = name\<rparr> (byKey s)\<rparr>))"

definition trigger_consume :: "string \<Rightarrow> ('w, reconcileTrigger option) prog" where
  "trigger_consume key = State (\<lambda>s.
     case consume_map key (byKey s) of (tr, m) \<Rightarrow> (tr, s\<lparr>byKey := m\<rparr>))"

definition triggerLogValues :: "reconcileTrigger \<Rightarrow> (string \<times> log_value) list" where
  "triggerLogValues tr =
    (if tr_Kind tr = [] then []
     else [(''triggerKind'', LogString (tr_Kind tr)), (''trigger'', LogString (tr_Name tr))])"

subsection \<open>The contract of a recorder\<close>

text \<open>
  \<open>pending k m\<close> is what consuming \<open>k\<close> would return. Noting replaces what is pending for a key,
  consuming clears it, and neither touches another key.
\<close>

locale recorder =
  fixes put :: "'k \<Rightarrow> 'v \<Rightarrow> 'm \<Rightarrow> 'm" and consume :: "'k \<Rightarrow> 'm \<Rightarrow> 'v option \<times> 'm"
  assumes consume_put: "fst (consume j (put k v m)) = (if j = k then Some v else fst (consume j m))"
    and consume_consume: "fst (consume j (snd (consume k m))) = (if j = k then None else fst (consume j m))"
begin

definition put_all :: "('k \<times> 'v) list \<Rightarrow> 'm \<Rightarrow> 'm" where
  "put_all kvs m = fold (\<lambda>(k, v). put k v) kvs m"

lemma consume_put_all:
  "fst (consume k (put_all kvs m)) =
    (case filter (\<lambda>kv. fst kv = k) (rev kvs) of [] \<Rightarrow> fst (consume k m) | kv # _ \<Rightarrow> Some (snd kv))"
  by (induction kvs arbitrary: m rule: rev_induct)
    (auto simp: put_all_def consume_put split: prod.splits)

lemma consumed_once: "fst (consume k (snd (consume k m))) = None"
  by (simp add: consume_consume)

end

interpretation triggers: recorder note_map consume_map
  by unfold_locales (auto simp: note_map_def consume_map_def split: option.splits)

text \<open>
  Trigger records coalesce per namespace: after any sequence of notes, consuming a key
  returns its last note, or what was pending before; a second consume returns nothing, and
  other keys keep what was pending for them.
\<close>

theorem triggers_coalesce:
  "let noted = fold (\<lambda>(k, v). note_map k v) kvs m in
     fst (consume_map key noted) =
       (case filter (\<lambda>kv. fst kv = key) (rev kvs) of
          [] \<Rightarrow> map_of m key | kv # _ \<Rightarrow> Some (snd kv)) \<and>
     fst (consume_map j (snd (consume_map key noted))) =
       (if j = key then None else fst (consume_map j noted))"
proof -
  have pending: "fst (consume_map key m) = map_of m key"
    by (simp add: consume_map_def split: option.split)
  show ?thesis
    unfolding Let_def
    using triggers.consume_put_all[of key kvs m, unfolded triggers.put_all_def pending]
      triggers.consume_consume by blast
qed

subsection \<open>Recording inside programs\<close>

lemma trigger_note_rule [trace_rules]: "Q () [] \<Longrightarrow> traces (trigger_note key kind name) Q"
  by (simp add: traces_def trigger_note_def)

lemma trigger_consume_rule [trace_rules]: "(\<And>tr. Q tr []) \<Longrightarrow> traces (trigger_consume key) Q"
  by (auto simp: traces_def trigger_consume_def split: prod.split)

lemma trigger_note_locks [lock_rules]: "leaves_locks (trigger_note key kind name)"
  by (simp add: leaves_locks_def trigger_note_def)

lemma trigger_consume_locks [lock_rules]: "leaves_locks (trigger_consume key)"
  by (auto simp: leaves_locks_def trigger_consume_def split: prod.split)

end
