(* ===== verification/DeviceController.thy ===== *)
theory DeviceController
  imports DesiredDevice ReconcileLog Gate Trigger
begin

text \<open>
  \<open>internal/controller/device_controller.go\<close>: the reconciler that turns the Devices and
  Networks of a namespace into dnsmasq and FreeRADIUS objects. A method of the Go struct takes
  the library functions \<open>k\<close> (its \<open>Client\<close> and the packages it calls) and its \<open>Config\<close>
  as arguments; its gate, triggers and the calls it makes are the program state of theory
  \<open>Kube\<close>. \<open>or_return\<close> is the idiom \<open>if err != nil { return ctrl.Result{}, err }\<close>.
\<close>

definition deviceAggregateName :: string where
  "deviceAggregateName = ''homelab-operator-anchor-device-based''"

record Request =
  req_Namespace :: string
  req_Name :: string

definition or_return :: "('w, error + 'a) prog \<Rightarrow> ('a \<Rightarrow> ('w, Result \<times> error option) prog) \<Rightarrow>
    ('w, Result \<times> error option) prog" where
  "or_return m f = do {
     r \<leftarrow> m;
     case r of Inl e \<Rightarrow> ret (no_result, Some e) | Inr x \<Rightarrow> f x
   }"

subsection \<open>Client calls\<close>

definition list_devices :: "'w kube \<Rightarrow> string \<Rightarrow> ('w, error + Device list) prog" where
  "list_devices k ns = call (ListDevices k ns) (\<lambda>r. [ListedDevices ns r])"

definition list_networks :: "'w kube \<Rightarrow> string \<Rightarrow> ('w, error + Network list) prog" where
  "list_networks k ns = call (ListNetworks k ns) (\<lambda>r. [ListedNetworks ns r])"

definition list_objects :: "'w kube \<Rightarrow> GroupVersionKind \<Rightarrow> string option \<Rightarrow> (string, string) gomap \<Rightarrow>
    ('w, error + Unstructured list) prog" where
  "list_objects k gvk ns lbl = call (ListObjects k gvk ns lbl) (\<lambda>r. [ListedObjects gvk ns lbl r])"

definition delete_object :: "'w kube \<Rightarrow> Unstructured \<Rightarrow> ('w, error option) prog" where
  "delete_object k u = call (DeleteObject k u) (\<lambda>r. [Deleted u r])"

definition update_device :: "'w kube \<Rightarrow> Device \<Rightarrow> ('w, error option) prog" where
  "update_device k d = call (UpdateDeviceStatus k d) (\<lambda>r. [UpdatedDevice d r])"

definition update_network :: "'w kube \<Rightarrow> Network \<Rightarrow> ('w, error option) prog" where
  "update_network k n = call (UpdateNetworkStatus k n) (\<lambda>r. [UpdatedNetwork n r])"

definition set_status_condition :: "'w kube \<Rightarrow> Condition list \<Rightarrow> Condition \<Rightarrow> ('w, Condition list) prog" where
  "set_status_condition k conds c = call (SetStatusCondition k conds c) (\<lambda>_. [])"

definition metav1_Now :: "'w kube \<Rightarrow> ('w, go_time) prog" where
  "metav1_Now k = call (Now k) (\<lambda>_. [])"

subsection \<open>Anchor and applies\<close>

definition anchor_data :: "(string, string) gomap option" where
  "anchor_data = Some [(''purpose'', ''homelab-operator anchor'')]"

definition anchor_mutate :: "(string, string) gomap \<Rightarrow> ConfigMap \<Rightarrow> ConfigMap" where
  "anchor_mutate lbl cm =
    (let cm = cm\<lparr>Labels := lbl\<rparr> in
     if Data cm = None then cm\<lparr>Data := anchor_data\<rparr> else cm)"

definition ensureAnchor :: "'w kube \<Rightarrow> Config \<Rightarrow> string \<Rightarrow> string \<Rightarrow> (string, string) gomap \<Rightarrow>
    ('w, error + ConfigMap) prog" where
  "ensureAnchor k cfg namespace name lbl =
    (let cm = \<lparr>Name = name, Namespace = namespace, UID = [], Labels = lbl, Annotations = [],
               Generation = 0, Data = anchor_data\<rparr>
     in if DryRun cfg then ret (Inr cm) else Apply k cm False (anchor_mutate lbl))"

definition planAndApply :: "'w kube \<Rightarrow> Config \<Rightarrow> Unstructured \<Rightarrow> (string, string) gomap \<Rightarrow> ConfigMap \<Rightarrow>
    ('w, ApplyPlan \<times> error option) prog" where
  "planAndApply k cfg obj lbl owner = do {
     (plan, err) \<leftarrow> PlanUnstructured k obj;
     case err of
       Some e \<Rightarrow> ret (plan, Some e)
     | None \<Rightarrow>
         if \<not> DryRun cfg then do {
           r \<leftarrow> ApplyUnstructured k obj False lbl (Some owner);
           ret (plan, case r of Inl e \<Rightarrow> Some e | Inr _ \<Rightarrow> None)
         }
         else ret (plan, None)
   }"

definition networkFromResourceName :: "string \<Rightarrow> string" where
  "networkFromResourceName name =
    (let p = ''device-based-'' in
     if length name > length p \<and> take (length p) name = p then drop (length p) name else [])"

definition applyDhcpOptions :: "'w kube \<Rightarrow> Config \<Rightarrow> string \<Rightarrow> DhcpOptionsSpec \<Rightarrow> ConfigMap \<Rightarrow>
    ('w, ApplyPlan \<times> error option) prog" where
  "applyDhcpOptions k cfg namespace spec owner =
    (let obj = NewDhcpOptions k DhcpOptionsName namespace spec
     in planAndApply k cfg obj (Managed ''device-based'' []) owner)"

definition applyDhcpHosts :: "'w kube \<Rightarrow> Config \<Rightarrow> string \<Rightarrow> ConfigMap \<Rightarrow> string \<Rightarrow> DhcpHostsSpec \<Rightarrow>
    ('w, ApplyPlan \<times> error option) prog" where
  "applyDhcpHosts k cfg namespace owner name spec =
    (let obj = NewDhcpHosts k name namespace spec;
         net = networkFromResourceName name
     in planAndApply k cfg obj (Managed ''device-based'' net) owner)"

definition applyDnsHosts :: "'w kube \<Rightarrow> Config \<Rightarrow> string \<Rightarrow> ConfigMap \<Rightarrow> string \<Rightarrow> DnsHostsSpec \<Rightarrow>
    ('w, ApplyPlan \<times> error option) prog" where
  "applyDnsHosts k cfg namespace owner name spec =
    (let obj = NewDnsHosts k name namespace spec;
         net = networkFromResourceName name
     in planAndApply k cfg obj (Managed ''device-based'' net) owner)"

definition free_radius_object :: "string \<Rightarrow> string \<Rightarrow> jobj \<Rightarrow> Unstructured" where
  "free_radius_object name namespace spec =
    (let u = new_unstructured FreeRadiusDeviceGVK name namespace
     in u\<lparr>Object := map_set ''spec'' (JObject spec) (Object u)\<rparr>)"

definition applyFreeRadius :: "'w kube \<Rightarrow> Config \<Rightarrow> string \<Rightarrow> ConfigMap \<Rightarrow> string \<Rightarrow> jobj \<Rightarrow>
    ('w, ApplyPlan \<times> error option) prog" where
  "applyFreeRadius k cfg namespace owner name spec =
    planAndApply k cfg (free_radius_object name namespace spec) (Managed ''device-based'' []) owner"

text \<open>A loop \<open>for name, spec := range m\<close> around one of the applies.\<close>

fun apply_each :: "(string \<Rightarrow> 'v \<Rightarrow> ('w, ApplyPlan \<times> error option) prog) \<Rightarrow> (string \<times> 'v) list \<Rightarrow>
    ApplyPlan list \<Rightarrow> ('w, error + ApplyPlan list) prog" where
  "apply_each apply [] plans = ret (Inr plans)"
| "apply_each apply ((name, spec) # kvs) plans = do {
     (plan, err) \<leftarrow> apply name spec;
     case err of
       Some e \<Rightarrow> ret (Inl e)
     | None \<Rightarrow> apply_each apply kvs (plans @ [plan])
   }"

definition apply_map :: "'w kube \<Rightarrow> (string \<Rightarrow> 'v \<Rightarrow> ('w, ApplyPlan \<times> error option) prog) \<Rightarrow>
    (string, 'v) gomap \<Rightarrow> ApplyPlan list \<Rightarrow> ('w, error + ApplyPlan list) prog" where
  "apply_map k apply m plans = do {
     kvs \<leftarrow> range_map k m;
     apply_each apply kvs plans
   }"

subsection \<open>Pruning\<close>

fun prune_items :: "'w kube \<Rightarrow> Config \<Rightarrow> (string, unit) gomap \<Rightarrow> Unstructured list \<Rightarrow>
    ('w, error option) prog" where
  "prune_items k cfg keep [] = ret None"
| "prune_items k cfg keep (item # items) =
    (if map_of keep (Name item) \<noteq> None then prune_items k cfg keep items
     else if DryRun cfg then prune_items k cfg keep items
     else do {
       err \<leftarrow> delete_object k item;
       case err of
         Some e \<Rightarrow> ret (Some e)
       | None \<Rightarrow> prune_items k cfg keep items
     })"

definition managed_selector :: "string \<Rightarrow> (string, string) gomap" where
  "managed_selector aggregate = [(AggregateKey, aggregate), (ManagedBy, ManagedByValue)]"

fun prune_kinds :: "'w kube \<Rightarrow> Config \<Rightarrow> string \<Rightarrow> string \<Rightarrow> (string, unit) gomap \<Rightarrow>
    GroupVersionKind list \<Rightarrow> ('w, error option) prog" where
  "prune_kinds k cfg namespace aggregate keep [] = ret None"
| "prune_kinds k cfg namespace aggregate keep (gvk # gvks) = do {
     r \<leftarrow> list_objects k (list_gvk gvk) (Some namespace) (managed_selector aggregate);
     case r of
       Inl e \<Rightarrow> ret (Some e)
     | Inr items \<Rightarrow> do {
         err \<leftarrow> prune_items k cfg keep items;
         case err of
           Some e \<Rightarrow> ret (Some e)
         | None \<Rightarrow> prune_kinds k cfg namespace aggregate keep gvks
       }
   }"

definition pruneManaged :: "'w kube \<Rightarrow> Config \<Rightarrow> string \<Rightarrow> string \<Rightarrow> (string, unit) gomap \<Rightarrow>
    GroupVersionKind list \<Rightarrow> ('w, error option) prog" where
  "pruneManaged k cfg namespace aggregate keep gvks =
    (let gvks = (if length gvks = 0 then [DhcpHostsGVK, DnsHostsGVK] else gvks)
     in prune_kinds k cfg namespace aggregate keep gvks)"

subsection \<open>Statuses\<close>

definition same_condition :: "Condition \<Rightarrow> Condition \<Rightarrow> bool" where
  "same_condition x y \<longleftrightarrow>
    \<not> (c_Type x \<noteq> c_Type y \<or> c_Status x \<noteq> c_Status y \<or> c_Reason x \<noteq> c_Reason y)"

definition conditionSliceEqual :: "Condition list \<Rightarrow> Condition list \<Rightarrow> bool" where
  "conditionSliceEqual a b =
    (if length a \<noteq> length b then False
     else list_all (\<lambda>i. same_condition (a ! i) (b ! i)) [0..<length a])"

definition network_available :: "'w kube \<Rightarrow> (string, unit) gomap \<Rightarrow> Device \<Rightarrow> Condition list \<Rightarrow>
    ('w, Condition list) prog" where
  "network_available k netNames dev conds = do {
     conds \<leftarrow> set_status_condition k conds
       (new_condition ConditionNetworkAvailable ConditionFalse ''NetworkMissing''
          ''Referenced network does not exist'');
     if ds_Network (d_Spec dev) \<noteq> [] then
       if map_of netNames (ds_Network (d_Spec dev)) \<noteq> None then
         set_status_condition k conds
           (new_condition ConditionNetworkAvailable ConditionTrue ''NetworkFound'' [])
       else ret conds
     else
       set_status_condition k conds
         (new_condition ConditionNetworkAvailable ConditionFalse ''NetworkNotSet''
            ''spec.network is empty'')
   }"

definition device_ready :: "(string, unit) gomap \<Rightarrow> bool \<Rightarrow> Device \<Rightarrow> bool" where
  "device_ready netNames ok dev =
    (if ok \<and> ds_Network (d_Spec dev) \<noteq> [] then map_of netNames (ds_Network (d_Spec dev)) \<noteq> None
     else False)"

text \<open>The conditions and last sync time for a condition \<open>Ready\<close>.\<close>

definition set_ready :: "'w kube \<Rightarrow> bool \<Rightarrow> string \<Rightarrow> HomelabStatus \<Rightarrow> ('w, HomelabStatus) prog" where
  "set_ready k ready msg status =
    (if ready then do {
       conds \<leftarrow> set_status_condition k (Conditions status)
         (new_condition ConditionReady ConditionTrue ConditionReasonSynced []);
       now \<leftarrow> metav1_Now k;
       ret (status\<lparr>Conditions := conds, LastSyncTime := Some now\<rparr>)
     }
     else do {
       conds \<leftarrow> set_status_condition k (Conditions status)
         (new_condition ConditionReady ConditionFalse ConditionReasonNotSynced msg);
       ret (status\<lparr>Conditions := conds\<rparr>)
     })"

definition device_status :: "'w kube \<Rightarrow> (string, unit) gomap \<Rightarrow> bool \<Rightarrow> string \<Rightarrow> Device \<Rightarrow>
    ('w, HomelabStatus) prog" where
  "device_status k netNames ok errMsg dev = do {
     conds \<leftarrow> network_available k netNames dev (Conditions (d_Status dev));
     let status = (d_Status dev)\<lparr>Conditions := conds\<rparr>;
     let msg = (if errMsg = [] then ''Device not synced'' else errMsg);
     status \<leftarrow> set_ready k (device_ready netNames ok dev) msg status;
     ret (status\<lparr>ObservedGeneration := Generation dev\<rparr>)
   }"

definition net_names :: "Network list \<Rightarrow> (string, unit) gomap" where
  "net_names networks = fold (\<lambda>n m. map_set (Name n) () m) networks []"

text \<open>Neither a skipped write nor the error of a write stops the loop.\<close>

definition status_unchanged :: "HomelabStatus \<Rightarrow> HomelabStatus \<Rightarrow> bool" where
  "status_unchanged old new \<longleftrightarrow>
    ObservedGeneration old = ObservedGeneration new \<and>
    conditionSliceEqual (Conditions old) (Conditions new)"

fun device_statuses :: "'w kube \<Rightarrow> Config \<Rightarrow> (string, unit) gomap \<Rightarrow> bool \<Rightarrow> string \<Rightarrow> Device list \<Rightarrow>
    ('w, unit) prog" where
  "device_statuses k cfg netNames ok errMsg [] = ret ()"
| "device_statuses k cfg netNames ok errMsg (dev # devs) = do {
     status \<leftarrow> device_status k netNames ok errMsg dev;
     (if status_unchanged (d_Status dev) status then ret None
      else if DryRun cfg then ret None
      else update_device k (dev\<lparr>d_Status := status\<rparr>));
     device_statuses k cfg netNames ok errMsg devs
   }"

definition updateDeviceStatuses :: "'w kube \<Rightarrow> Config \<Rightarrow> Device list \<Rightarrow> Network list \<Rightarrow> bool \<Rightarrow> string \<Rightarrow>
    ('w, unit) prog" where
  "updateDeviceStatuses k cfg devices networks ok errMsg =
    device_statuses k cfg (net_names networks) ok errMsg devices"

definition network_status :: "'w kube \<Rightarrow> bool \<Rightarrow> string \<Rightarrow> Network \<Rightarrow> ('w, HomelabStatus) prog" where
  "network_status k ok errMsg net = do {
     status \<leftarrow> set_ready k ok errMsg (n_Status net);
     ret (status\<lparr>ObservedGeneration := Generation net\<rparr>)
   }"

fun updateNetworkStatuses :: "'w kube \<Rightarrow> Config \<Rightarrow> Network list \<Rightarrow> bool \<Rightarrow> string \<Rightarrow> ('w, unit) prog" where
  "updateNetworkStatuses k cfg [] ok errMsg = ret ()"
| "updateNetworkStatuses k cfg (net # nets) ok errMsg = do {
     status \<leftarrow> network_status k ok errMsg net;
     (if status_unchanged (n_Status net) status then ret None
      else if DryRun cfg then ret None
      else update_network k (net\<lparr>n_Status := status\<rparr>));
     updateNetworkStatuses k cfg nets ok errMsg
   }"

subsection \<open>Reconcile\<close>

definition desired_names :: "DeviceBasedOutput \<Rightarrow> (string, unit) gomap" where
  "desired_names out =
    (let names = [(DhcpOptionsName, ())];
         names = fold (\<lambda>name m. map_set name () m) (map_keys (out_DhcpHosts out)) names
     in fold (\<lambda>name m. map_set name () m) (map_keys (out_DnsHosts out)) names)"

text \<open>The block under \<open>if r.Config.EnableFreeRadiusDevices\<close>.\<close>

definition free_radius_owner :: "'w kube \<Rightarrow> Config \<Rightarrow> ConfigMap \<Rightarrow> ('w, error + ConfigMap) prog" where
  "free_radius_owner k cfg anchor =
    (if FreeRadiusDevicesNamespace cfg \<noteq> DnsmasqResourcesNamespace cfg
     then ensureAnchor k cfg (FreeRadiusDevicesNamespace cfg) deviceAggregateName
            (Managed ''device-based'' [])
     else ret (Inr anchor))"

definition apply_free_radius :: "'w kube \<Rightarrow> Config \<Rightarrow> DeviceBasedOutput \<Rightarrow> ConfigMap \<Rightarrow> ApplyPlan list \<Rightarrow>
    ('w, error + ApplyPlan list) prog" where
  "apply_free_radius k cfg out anchor plans =
    (if EnableFreeRadiusDevices cfg then do {
       r \<leftarrow> free_radius_owner k cfg anchor;
       case r of
         Inl e \<Rightarrow> ret (Inl e)
       | Inr owner \<Rightarrow>
           apply_map k (applyFreeRadius k cfg (FreeRadiusDevicesNamespace cfg) owner)
             (out_FreeRadius out) plans
     }
     else ret (Inr plans))"

text \<open>The block under \<open>if !r.Config.DryRun\<close>.\<close>

definition prune_outputs :: "'w kube \<Rightarrow> Config \<Rightarrow> DeviceBasedOutput \<Rightarrow> (string, unit) gomap \<Rightarrow>
    ('w, error + unit) prog" where
  "prune_outputs k cfg out desiredNames =
    (if \<not> DryRun cfg then do {
       err \<leftarrow> pruneManaged k cfg (DnsmasqResourcesNamespace cfg) ''device-based'' desiredNames [];
       case err of
         Some e \<Rightarrow> ret (Inl e)
       | None \<Rightarrow>
           if EnableFreeRadiusDevices cfg then do {
             let keepFR = fold (\<lambda>name m. map_set name () m) (map_keys (out_FreeRadius out)) [];
             err \<leftarrow> pruneManaged k cfg (FreeRadiusDevicesNamespace cfg) ''device-based'' keepFR
               [FreeRadiusDeviceGVK];
             ret (case err of Some e \<Rightarrow> Inl e | None \<Rightarrow> Inr ())
           }
           else ret (Inr ())
     }
     else ret (Inr ()))"

definition device_log_values :: "Request \<Rightarrow> reconcileTrigger option \<Rightarrow> (string \<times> log_value) list" where
  "device_log_values req tr =
    (case tr of
       Some tr \<Rightarrow> triggerLogValues tr
     | None \<Rightarrow>
         if req_Name req \<noteq> []
         then [(''triggerKind'', LogString ''Network''), (''trigger'', LogString (req_Name req))]
         else [])"

text \<open>From the built output to the end: applies, prunes, statuses, summary.\<close>

definition reconcile_output :: "'w kube \<Rightarrow> Config \<Rightarrow> (string \<times> log_value) list \<Rightarrow> DeviceBasedOutput \<Rightarrow>
    Device list \<Rightarrow> Network list \<Rightarrow> ConfigMap \<Rightarrow> ('w, Result \<times> error option) prog" where
  "reconcile_output k cfg logger out devices networks anchor = do {
     let targetNS = DnsmasqResourcesNamespace cfg;
     (plan, err) \<leftarrow> applyDhcpOptions k cfg targetNS (out_DhcpOptions out) anchor;
     case err of
       Some e \<Rightarrow> do {
         log_info logger (LogError ''dhcp options'' e);
         updateDeviceStatuses k cfg devices networks False (Error e);
         ret (no_result, Some e)
       }
     | None \<Rightarrow> do {
         let plans = [plan];
         let desiredNames = desired_names out;
         or_return (apply_map k (applyDhcpHosts k cfg targetNS anchor) (out_DhcpHosts out) plans) (\<lambda>plans.
         or_return (apply_map k (applyDnsHosts k cfg targetNS anchor) (out_DnsHosts out) plans) (\<lambda>plans.
         or_return (apply_free_radius k cfg out anchor plans) (\<lambda>plans.
         or_return (prune_outputs k cfg out desiredNames) (\<lambda>_. do {
           updateDeviceStatuses k cfg devices networks True [];
           updateNetworkStatuses k cfg networks True [];
           let logger = logger @ [(''devices'', LogInt (length devices)),
                                  (''networks'', LogInt (length networks))];
           logReconcileSummary logger (DryRun cfg) ''device-based'' plans;
           ret (no_result, None)
         }))))
       }
   }"

definition reconcileNamespace :: "'w kube \<Rightarrow> Config \<Rightarrow> Request \<Rightarrow> ('w, Result \<times> error option) prog" where
  "reconcileNamespace k cfg req = do {
     let ns = req_Namespace req;
     tr \<leftarrow> trigger_consume ns;
     let logger = device_log_values req tr;
     or_return (list_devices k ns) (\<lambda>devices.
     or_return (list_networks k ns) (\<lambda>networks.
       case BuildDeviceBased devices networks cfg of
         (out, devices, networks) \<Rightarrow>
           or_return (ensureAnchor k cfg (DnsmasqResourcesNamespace cfg) deviceAggregateName
               (Managed ''device-based'' []))
             (\<lambda>anchor. reconcile_output k cfg logger out devices networks anchor)))
   }"

definition DeviceReconciler_Reconcile :: "'w kube \<Rightarrow> Config \<Rightarrow> Request \<Rightarrow> ('w, Result \<times> error option) prog" where
  "DeviceReconciler_Reconcile k cfg req =
    (if \<not> EnableDeviceBasedHosts cfg then ret (no_result, None)
     else gate_run (req_Namespace req) (reconcileNamespace k cfg req))"

end
