(* ===== verification/IngressController.thy ===== *)
theory IngressController
  imports DesiredIngress DeviceController
begin

text \<open>
  \<open>internal/controller/ingressdns_controller.go\<close>: the reconciler that turns the cluster's
  IngressRouters, Ingresses and HTTPRoutes into the object \<open>dnshosts/ingress-based\<close>.
\<close>

definition ingressAnchorName :: string where
  "ingressAnchorName = ''homelab-operator-anchor-ingress-based''"

subsection \<open>Client calls\<close>

definition list_routers :: "'w kube \<Rightarrow> ('w, error + IngressRouter list) prog" where
  "list_routers k = call (ListIngressRouters k) (\<lambda>r. [ListedIngressRouters r])"

definition list_ingresses :: "'w kube \<Rightarrow> ('w, error + Ingress list) prog" where
  "list_ingresses k = call (ListIngresses k) (\<lambda>r. [ListedIngresses r])"

definition update_router :: "'w kube \<Rightarrow> IngressRouter \<Rightarrow> ('w, error option) prog" where
  "update_router k ir = call (UpdateIngressRouterStatus k ir) (\<lambda>r. [UpdatedIngressRouter ir r])"

subsection \<open>HTTPRoutes\<close>

text \<open>
  The round of the loop over the listed routes: the accessors' errors are dropped, and so is a
  value of another type where \<open>name\<close> or the first parent are expected.
\<close>

definition http_route :: "'w kube \<Rightarrow> Unstructured \<Rightarrow> HTTPRouteLike option" where
  "http_route k item =
    (let parents = (case NestedSlice k (Object item) [''spec'', ''parentRefs''] of
                      Inr (Some ps) \<Rightarrow> ps | _ \<Rightarrow> []);
         hosts = (case NestedStringSlice k (Object item) [''spec'', ''hostnames''] of
                    Inr (Some hs) \<Rightarrow> hs | _ \<Rightarrow> [])
     in if length parents = 0 then None
        else
          let p0 = (case parents ! 0 of JObject m \<Rightarrow> m | _ \<Rightarrow> []);
              gw = (case map_of p0 ''name'' of Some (JString s) \<Rightarrow> s | _ \<Rightarrow> [])
          in Some \<lparr>hr_Gateway = gw, hr_Hostnames = hosts\<rparr>)"

definition listHTTPRoutes :: "'w kube \<Rightarrow> ('w, error + HTTPRouteLike list) prog" where
  "listHTTPRoutes k = do {
     r \<leftarrow> list_objects k (list_gvk HTTPRouteGVK) None [];
     ret (case r of
       Inl e \<Rightarrow> Inl e
     | Inr items \<Rightarrow> Inr (List.map_filter (http_route k) items))
   }"

subsection \<open>Statuses\<close>

definition router_status :: "'w kube \<Rightarrow> bool \<Rightarrow> string \<Rightarrow> IngressRouter \<Rightarrow> ('w, HomelabStatus) prog" where
  "router_status k ok errMsg ir = do {
     status \<leftarrow> set_ready k ok errMsg (ir_Status ir);
     ret (status\<lparr>ObservedGeneration := Generation ir\<rparr>)
   }"

fun updateRouterStatuses :: "'w kube \<Rightarrow> Config \<Rightarrow> IngressRouter list \<Rightarrow> bool \<Rightarrow> string \<Rightarrow> ('w, unit) prog" where
  "updateRouterStatuses k cfg [] ok errMsg = ret ()"
| "updateRouterStatuses k cfg (ir # irs) ok errMsg = do {
     status \<leftarrow> router_status k ok errMsg ir;
     (if conditionSliceEqual (Conditions (ir_Status ir)) (Conditions status) then ret None
      else if DryRun cfg then ret None
      else update_router k (ir\<lparr>ir_Status := status\<rparr>));
     updateRouterStatuses k cfg irs ok errMsg
   }"

subsection \<open>Reconcile\<close>

definition ensureIngressAnchor :: "'w kube \<Rightarrow> Config \<Rightarrow> string \<Rightarrow> ('w, error + ConfigMap) prog" where
  "ensureIngressAnchor k cfg namespace =
    ensureAnchor k cfg namespace ingressAnchorName (Managed ''ingress-based'' [])"

text \<open>
  Plan and apply the one object of an aggregate. Unlike \<open>planAndApply\<close> the callers return on
  either error at once; both \<open>reconcileIngress\<close> and \<open>reconcileLoadBalancer\<close> spell it out.
\<close>

definition plan_then_apply :: "'w kube \<Rightarrow> Config \<Rightarrow> Unstructured \<Rightarrow> (string, string) gomap \<Rightarrow> ConfigMap \<Rightarrow>
    (ApplyPlan \<Rightarrow> ('w, Result \<times> error option) prog) \<Rightarrow> ('w, Result \<times> error option) prog" where
  "plan_then_apply k cfg obj lbl anchor rest = do {
     (plan, err) \<leftarrow> PlanUnstructured k obj;
     case err of
       Some e \<Rightarrow> ret (no_result, Some e)
     | None \<Rightarrow>
         if \<not> DryRun cfg then
           or_return (ApplyUnstructured k obj False lbl (Some anchor)) (\<lambda>_. rest plan)
         else rest plan
   }"

definition reconcileIngress :: "'w kube \<Rightarrow> Config \<Rightarrow> string \<Rightarrow> ('w, Result \<times> error option) prog" where
  "reconcileIngress k cfg targetNS =
    or_return (ensureIngressAnchor k cfg targetNS) (\<lambda>anchor.
    or_return (list_routers k) (\<lambda>routers.
    or_return (list_ingresses k) (\<lambda>ingresses.
    or_return (if UseHTTPRoutesForIngress cfg then listHTTPRoutes k else ret (Inr [])) (\<lambda>routes.
      case BuildIngressBased routers ingresses routes of
        (spec, routers) \<Rightarrow>
          let obj = NewDnsHosts k IngressBasedName targetNS spec in
          plan_then_apply k cfg obj (Managed ''ingress-based'' []) anchor (\<lambda>plan. do {
            updateRouterStatuses k cfg routers True [];
            logReconcileSummary [] (DryRun cfg) ''ingress-based'' [plan];
            ret (no_result, None)
          })))))"

definition IngressDNSReconciler_Reconcile :: "'w kube \<Rightarrow> Config \<Rightarrow> Request \<Rightarrow>
    ('w, Result \<times> error option) prog" where
  "IngressDNSReconciler_Reconcile k cfg req =
    (if \<not> EnableIngressBasedDNSHosts cfg then ret (no_result, None)
     else
       let targetNS = DnsmasqResourcesNamespace cfg
       in gate_run targetNS (reconcileIngress k cfg targetNS))"

end
