(* ===== verification/LBController.thy ===== *)
theory LBController
  imports DesiredLB IngressController
begin

text \<open>
  \<open>internal/controller/loadbalancerdns_controller.go\<close>: the reconciler that turns the cluster's
  LoadBalancer Services into the object \<open>dnshosts/load-balancer-based\<close>.
\<close>

definition lbAnchorName :: string where
  "lbAnchorName = ''homelab-operator-anchor-loadbalancer-based''"

definition list_services :: "'w kube \<Rightarrow> ('w, error + Service list) prog" where
  "list_services k = call (ListServices k) (\<lambda>r. [ListedServices r])"

definition reconcileLoadBalancer :: "'w kube \<Rightarrow> Config \<Rightarrow> string \<Rightarrow> ('w, Result \<times> error option) prog" where
  "reconcileLoadBalancer k cfg targetNS =
    or_return (ensureAnchor k cfg targetNS lbAnchorName (Managed ''load-balancer-based'' [])) (\<lambda>anchor.
    or_return (list_services k) (\<lambda>services.
      let spec = BuildLoadBalancerBased services (LoadBalancerBasedSuffix cfg);
          obj = NewDnsHosts k LoadBalancerBasedName targetNS spec in
      plan_then_apply k cfg obj (Managed ''load-balancer-based'' []) anchor (\<lambda>plan. do {
        logReconcileSummary [] (DryRun cfg) ''load-balancer-based'' [plan];
        ret (no_result, None)
      })))"

definition LoadBalancerDNSReconciler_Reconcile :: "'w kube \<Rightarrow> Config \<Rightarrow> Request \<Rightarrow>
    ('w, Result \<times> error option) prog" where
  "LoadBalancerDNSReconciler_Reconcile k cfg req =
    (if \<not> EnableLoadBalancerBasedDNSHosts cfg then ret (no_result, None)
     else
       let targetNS = DnsmasqResourcesNamespace cfg
       in gate_run targetNS (reconcileLoadBalancer k cfg targetNS))"

end
