(* ===== verification/Reconcilers.thy ===== *)
theory Reconcilers
  imports LBController
begin

text \<open>
  What the three reconcilers share, operation by operation: which calls an operation can make,
  with the rules \<open>only_rules\<close> and \<open>lock_rules\<close> following the programs, and the contract
  of a reconciler as a locale, which the three reconcilers instantiate.
\<close>

subsection \<open>Calls of the operations\<close>

lemmas client_call_defs = list_devices_def list_networks_def list_objects_def delete_object_def
  update_device_def update_network_def set_status_condition_def metav1_Now_def list_routers_def
  list_ingresses_def update_router_def list_services_def

lemma or_return_only [only_rules]:
  "calls_only P m \<Longrightarrow> (\<And>x. calls_only P (f x)) \<Longrightarrow> calls_only P (or_return m f)"
  unfolding or_return_def by (intro only_rules)

lemma or_return_rule:
  "traces m (\<lambda>r es. (\<forall>e. r = Inl e \<longrightarrow> Q (no_result, Some e) es) \<and>
      (\<forall>x. r = Inr x \<longrightarrow> traces (f x) (\<lambda>y es'. Q y (es @ es')))) \<Longrightarrow> traces (or_return m f) Q"
  unfolding or_return_def
  by (rule traces_bind, erule traces_conseq) (auto intro: traces_return split: sum.split)

lemma or_return_locks [lock_rules]:
  "leaves_locks m \<Longrightarrow> (\<And>x. leaves_locks (f x)) \<Longrightarrow> leaves_locks (or_return m f)"
  unfolding or_return_def by (intro lock_rules)

lemma ensureAnchor_only [only_rules]:
  "(\<And>cm r. \<not> DryRun cfg \<Longrightarrow> P (AppliedConfigMap cm r)) \<Longrightarrow> calls_only P (ensureAnchor k cfg ns name lbl)"
  unfolding ensureAnchor_def by (intro only_rules Apply_rule) simp_all

lemma planAndApply_only [only_rules]:
  assumes "\<And>gvk ns name r. P (Got gvk ns name r)" and "\<And>u m r. \<not> DryRun cfg \<Longrightarrow> P (Applied u m r)"
  shows "calls_only P (planAndApply k cfg obj lbl owner)"
  unfolding planAndApply_def by (intro only_rules ApplyUnstructured_rule) (simp_all add: assms)

lemma apply_each_only [only_rules]:
  "(\<And>name spec. calls_only P (f name spec)) \<Longrightarrow> calls_only P (apply_each f kvs plans)"
  by (induction f kvs plans rule: apply_each.induct) (auto intro!: only_rules)

lemma apply_map_only [only_rules]:
  "(\<And>name spec. calls_only P (f name spec)) \<Longrightarrow> calls_only P (apply_map k f m plans)"
  unfolding apply_map_def by (intro only_rules)

lemma prune_items_only [only_rules]:
  "(\<And>u r. \<not> DryRun cfg \<Longrightarrow> P (Deleted u r)) \<Longrightarrow> calls_only P (prune_items k cfg keep items)"
  by (induction items) (auto intro!: only_rules simp: delete_object_def)

lemma prune_kinds_only [only_rules]:
  "(\<And>gvk r. gvk \<in> set gvks \<Longrightarrow> P (ListedObjects (list_gvk gvk) (Some ns) (managed_selector aggregate) r)) \<Longrightarrow>
    (\<And>u r. \<not> DryRun cfg \<Longrightarrow> P (Deleted u r)) \<Longrightarrow>
    calls_only P (prune_kinds k cfg ns aggregate keep gvks)"
  by (induction gvks) (auto intro!: only_rules simp: list_objects_def)

lemma set_ready_only [only_rules]: "calls_only P (set_ready k ready msg status)"
  unfolding set_ready_def client_call_defs by (intro only_rules) simp_all

lemma network_available_only [only_rules]: "calls_only P (network_available k names dev conds)"
  unfolding network_available_def client_call_defs by (intro only_rules) simp_all

lemma device_status_only [only_rules]: "calls_only P (device_status k names ok msg dev)"
  unfolding device_status_def by (intro only_rules)

lemma network_status_only [only_rules]: "calls_only P (network_status k ok msg net)"
  unfolding network_status_def by (intro only_rules)

lemma router_status_only [only_rules]: "calls_only P (router_status k ok msg ir)"
  unfolding router_status_def by (intro only_rules)

lemma updateDeviceStatuses_only [only_rules]:
  assumes "\<And>d r. \<not> DryRun cfg \<Longrightarrow> P (UpdatedDevice d r)"
  shows "calls_only P (updateDeviceStatuses k cfg devices networks ok msg)"
proof -
  have "calls_only P (device_statuses k cfg names ok msg devices)" for names
    by (induction devices) (auto intro!: only_rules simp: update_device_def assms)
  then show ?thesis by (simp add: updateDeviceStatuses_def)
qed

lemma updateNetworkStatuses_only [only_rules]:
  "(\<And>n r. \<not> DryRun cfg \<Longrightarrow> P (UpdatedNetwork n r)) \<Longrightarrow>
    calls_only P (updateNetworkStatuses k cfg networks ok msg)"
  by (induction networks) (auto intro!: only_rules simp: update_network_def)

lemma updateRouterStatuses_only [only_rules]:
  "(\<And>n r. \<not> DryRun cfg \<Longrightarrow> P (UpdatedIngressRouter n r)) \<Longrightarrow>
    calls_only P (updateRouterStatuses k cfg routers ok msg)"
  by (induction routers) (auto intro!: only_rules simp: update_router_def)

lemma listHTTPRoutes_only [only_rules]:
  "(\<And>r. P (ListedObjects (list_gvk HTTPRouteGVK) None [] r)) \<Longrightarrow> calls_only P (listHTTPRoutes k)"
  unfolding listHTTPRoutes_def client_call_defs by (intro only_rules) simp

lemma plan_then_apply_only [only_rules]:
  assumes "\<And>gvk ns name r. P (Got gvk ns name r)" and "\<And>u m r. \<not> DryRun cfg \<Longrightarrow> P (Applied u m r)"
    and "\<And>plan. calls_only P (rest plan)"
  shows "calls_only P (plan_then_apply k cfg obj lbl anchor rest)"
  unfolding plan_then_apply_def by (intro only_rules ApplyUnstructured_rule) (simp_all add: assms)

lemma gate_run_only [only_rules]: "calls_only P fn \<Longrightarrow> calls_only P (gate_run key fn)"
  by (rule gate_run_rule) simp_all

lemma trigger_consume_only [only_rules]: "calls_only P (trigger_consume key)"
  by (rule trigger_consume_rule) simp

lemmas apply_defs = applyDhcpOptions_def applyDhcpHosts_def applyDnsHosts_def applyFreeRadius_def

text \<open>A property of every read and every log line, and of every write unless dry-run is on.\<close>

definition covers :: "Config \<Rightarrow> (event \<Rightarrow> bool) \<Rightarrow> bool" where
  "covers cfg P \<longleftrightarrow> (\<forall>e. is_write e \<longrightarrow> DryRun cfg \<or> P e) \<and> (\<forall>e. \<not> is_write e \<longrightarrow> P e)"

lemma coversD:
  assumes "covers cfg P"
  shows "\<not> is_write e \<Longrightarrow> P e" and "\<not> DryRun cfg \<Longrightarrow> P e"
  using assms unfolding covers_def by blast+

lemma reconcileNamespace_only:
  assumes "covers cfg P"
  shows "calls_only P (reconcileNamespace k cfg req)"
  unfolding reconcileNamespace_def reconcile_output_def apply_defs apply_free_radius_def
    free_radius_owner_def prune_outputs_def pruneManaged_def list_devices_def list_networks_def Let_def
  by (intro only_rules) (simp_all add: coversD[OF assms])

lemma reconcileIngress_only:
  assumes "covers cfg P"
  shows "calls_only P (reconcileIngress k cfg ns)"
  unfolding reconcileIngress_def ensureIngressAnchor_def list_routers_def list_ingresses_def Let_def
  by (intro only_rules) (simp_all add: coversD[OF assms])

lemma reconcileLoadBalancer_only:
  assumes "covers cfg P"
  shows "calls_only P (reconcileLoadBalancer k cfg ns)"
  unfolding reconcileLoadBalancer_def list_services_def Let_def
  by (intro only_rules) (simp_all add: coversD[OF assms])

subsection \<open>The gate's keys are the gate's own\<close>

lemma ensureAnchor_locks [lock_rules]: "leaves_locks (ensureAnchor k cfg ns name lbl)"
  unfolding ensureAnchor_def by (intro lock_rules)

lemma planAndApply_locks [lock_rules]: "leaves_locks (planAndApply k cfg obj lbl owner)"
  unfolding planAndApply_def by (intro lock_rules)

lemma apply_each_locks [lock_rules]:
  "(\<And>name spec. leaves_locks (f name spec)) \<Longrightarrow> leaves_locks (apply_each f kvs plans)"
  by (induction f kvs plans rule: apply_each.induct) (auto intro!: lock_rules)

lemma apply_map_locks [lock_rules]:
  "(\<And>name spec. leaves_locks (f name spec)) \<Longrightarrow> leaves_locks (apply_map k f m plans)"
  unfolding apply_map_def by (intro lock_rules)

lemma prune_items_locks [lock_rules]: "leaves_locks (prune_items k cfg keep items)"
  by (induction items) (auto intro!: lock_rules simp: delete_object_def)

lemma prune_kinds_locks [lock_rules]: "leaves_locks (prune_kinds k cfg ns aggregate keep gvks)"
  by (induction gvks) (auto intro!: lock_rules simp: list_objects_def)

lemma set_ready_locks [lock_rules]: "leaves_locks (set_ready k ready msg status)"
  unfolding set_ready_def client_call_defs by (intro lock_rules)

lemma updateDeviceStatuses_locks [lock_rules]:
  "leaves_locks (updateDeviceStatuses k cfg devices networks ok msg)"
proof -
  have "leaves_locks (device_statuses k cfg names ok msg devices)" for names
    by (induction devices)
      (auto intro!: lock_rules simp: device_status_def network_available_def client_call_defs)
  then show ?thesis by (simp add: updateDeviceStatuses_def)
qed

lemma updateNetworkStatuses_locks [lock_rules]:
  "leaves_locks (updateNetworkStatuses k cfg networks ok msg)"
  by (induction networks) (auto intro!: lock_rules simp: update_network_def network_status_def)

lemma updateRouterStatuses_locks [lock_rules]:
  "leaves_locks (updateRouterStatuses k cfg routers ok msg)"
  by (induction routers) (auto intro!: lock_rules simp: update_router_def router_status_def)

lemma plan_then_apply_locks [lock_rules]:
  "(\<And>plan. leaves_locks (rest plan)) \<Longrightarrow> leaves_locks (plan_then_apply k cfg obj lbl anchor rest)"
  unfolding plan_then_apply_def by (intro lock_rules)

lemma reconcileNamespace_locks: "leaves_locks (reconcileNamespace k cfg req)"
  unfolding reconcileNamespace_def reconcile_output_def apply_defs apply_free_radius_def
    free_radius_owner_def prune_outputs_def pruneManaged_def list_devices_def list_networks_def Let_def
  by (intro lock_rules)

lemma reconcileIngress_locks: "leaves_locks (reconcileIngress k cfg ns)"
  unfolding reconcileIngress_def ensureIngressAnchor_def list_routers_def list_ingresses_def
    listHTTPRoutes_def list_objects_def Let_def
  by (intro lock_rules)

lemma reconcileLoadBalancer_locks: "leaves_locks (reconcileLoadBalancer k cfg ns)"
  unfolding reconcileLoadBalancer_def list_services_def Let_def
  by (intro lock_rules)

subsection \<open>The contract of a reconciler\<close>

text \<open>
  A reconciler does nothing while its aggregate is disabled; otherwise it runs a body under its
  gate, and the body respects dry-run and never touches the gate. Its users, the manager's
  workers, see what the lemmas say.
\<close>

locale aggregate_reconciler =
  fixes reconcile :: "'w kube \<Rightarrow> Config \<Rightarrow> Request \<Rightarrow> ('w, Result \<times> error option) prog"
    and body :: "'w kube \<Rightarrow> Config \<Rightarrow> Request \<Rightarrow> ('w, Result \<times> error option) prog"
    and enabled :: "Config \<Rightarrow> bool"
    and gate_key :: "Config \<Rightarrow> Request \<Rightarrow> string"
  assumes when_disabled: "\<not> enabled cfg \<Longrightarrow> reconcile k cfg req = ret (no_result, None)"
    and when_enabled: "enabled cfg \<Longrightarrow> reconcile k cfg req = gate_run (gate_key cfg req) (body k cfg req)"
    and body_only: "covers cfg P \<Longrightarrow> calls_only P (body k cfg req)"
    and body_locks: "leaves_locks (body k cfg req)"
begin

lemma covered:
  assumes "covers cfg P" shows "calls_only P (reconcile k cfg req)"
proof (cases "enabled cfg")
  case True
  then show ?thesis by (simp add: when_enabled gate_run_only body_only[OF assms])
next
  case False
  then show ?thesis by (simp add: when_disabled only_return)
qed

lemma dry_run:
  assumes "DryRun cfg" shows "reads_only (reconcile k cfg req)"
  by (rule covered) (simp add: covers_def assms)

lemma busy_requeues:
  assumes "enabled cfg" and "gate_held (gate_keys s) (gate_key cfg req)"
  shows "run_state (reconcile k cfg req) s = ((\<lparr>RequeueAfter = 500 * time_Millisecond\<rparr>, None), s)"
  using assms by (simp add: when_enabled gate_run_cases gate_enter_def)

lemma leaves_gate:
  assumes "run_state (reconcile k cfg req) s = (r, s')"
  shows "gate_held (gate_keys s') = gate_held (gate_keys s)"
proof (cases "enabled cfg")
  case True
  show ?thesis
  proof (cases "gate_enter (gate_key cfg req) (gate_keys s)")
    case None
    then show ?thesis using assms True by (simp add: when_enabled gate_run_cases)
  next
    case (Some keys)
    have "gate_keys (snd (run_state (body k cfg req) (s\<lparr>gate_keys := keys\<rparr>))) = keys"
      using body_locks unfolding leaves_locks_def by simp
    then have "gate_keys s' = gate_leave (gate_key cfg req) keys"
      using assms True Some by (auto simp: when_enabled gate_run_cases Let_def)
    then show ?thesis using gate.restored[OF Some] by auto
  qed
next
  case False
  then show ?thesis using assms by (simp add: when_disabled)
qed

end

interpretation device_reconciler: aggregate_reconciler
  DeviceReconciler_Reconcile reconcileNamespace EnableDeviceBasedHosts "\<lambda>_. req_Namespace"
  by unfold_locales
    (simp_all add: DeviceReconciler_Reconcile_def reconcileNamespace_only reconcileNamespace_locks)

interpretation ingress_reconciler: aggregate_reconciler
  IngressDNSReconciler_Reconcile
  "\<lambda>k cfg _. reconcileIngress k cfg (DnsmasqResourcesNamespace cfg)"
  EnableIngressBasedDNSHosts "\<lambda>cfg _. DnsmasqResourcesNamespace cfg"
  by unfold_locales
    (simp_all add: IngressDNSReconciler_Reconcile_def Let_def reconcileIngress_only reconcileIngress_locks)

interpretation lb_reconciler: aggregate_reconciler
  LoadBalancerDNSReconciler_Reconcile
  "\<lambda>k cfg _. reconcileLoadBalancer k cfg (DnsmasqResourcesNamespace cfg)"
  EnableLoadBalancerBasedDNSHosts "\<lambda>cfg _. DnsmasqResourcesNamespace cfg"
  by unfold_locales
    (simp_all add: LoadBalancerDNSReconciler_Reconcile_def Let_def reconcileLoadBalancer_only
      reconcileLoadBalancer_locks)

text \<open>
  (C7) Dry-run is read-only: with \<open>DryRun\<close> set, whatever the cluster answers, a reconcile of
  any of the three controllers creates, updates and deletes nothing, no status included.
\<close>

theorem dry_run_writes_nothing:
  assumes "DryRun cfg"
  shows "reads_only (DeviceReconciler_Reconcile k cfg req) \<and>
    reads_only (IngressDNSReconciler_Reconcile k cfg req) \<and>
    reads_only (LoadBalancerDNSReconciler_Reconcile k cfg req)"
  using device_reconciler.dry_run[OF assms] ingress_reconciler.dry_run[OF assms]
    lb_reconciler.dry_run[OF assms] by blast

text \<open>
  (C21) A reconcile of a namespace that is being reconciled does nothing and is requeued after
  500 ms; any reconcile leaves the gate as it found it, also when it fails.
\<close>

theorem reconcile_gated:
  assumes "run_state (DeviceReconciler_Reconcile k cfg req) s = (r, s')"
  shows "gate_held (gate_keys s') = gate_held (gate_keys s) \<and>
    (EnableDeviceBasedHosts cfg \<and> gate_held (gate_keys s) (req_Namespace req) \<longrightarrow>
      r = (\<lparr>RequeueAfter = 500000000\<rparr>, None) \<and> s' = s)"
  using device_reconciler.leaves_gate[OF assms]
    device_reconciler.busy_requeues[of cfg s req k] assms
  by (auto simp: time_Millisecond_def)

end
