(* ===== verification/DeviceOrder.thy ===== *)
theory DeviceOrder
  imports Reconcilers
begin

text \<open>
  The order of a device reconcile's calls and what a failing call stops. Every call belongs to a
  phase: reading the inputs (0), the anchor and the applies with their plans (1), pruning (2),
  statuses (3), the summary (4). A reconcile goes through the phases in order, and after a call
  that failed there are only status updates and log lines.
\<close>

fun phase :: "event \<Rightarrow> nat" where
  "phase (AppliedConfigMap _ _) = 1"
| "phase (Got _ _ _ _) = 1"
| "phase (Applied _ _ _) = 1"
| "phase (ListedObjects _ _ _ _) = 2"
| "phase (Deleted _ _) = 2"
| "phase (UpdatedDevice _ _) = 3"
| "phase (UpdatedNetwork _ _) = 3"
| "phase (Logged _ (LogError _ _)) = 3"
| "phase (Logged _ _) = 4"
| "phase _ = 0"

text \<open>A failed call. A plan takes a missing object for an answer; a failed status write is ignored.\<close>

fun failed :: "'w kube \<Rightarrow> event \<Rightarrow> bool" where
  "failed k (ListedDevices _ (Inl _)) = True"
| "failed k (ListedNetworks _ (Inl _)) = True"
| "failed k (AppliedConfigMap _ (Inl _)) = True"
| "failed k (Got _ _ _ (Inl e)) = (\<not> absent k e)"
| "failed k (Applied _ _ (Inl _)) = True"
| "failed k (ListedObjects _ _ _ (Inl _)) = True"
| "failed k (Deleted _ (Some _)) = True"
| "failed k _ = False"

fun orderly :: "'w kube \<Rightarrow> nat \<Rightarrow> event list \<Rightarrow> bool" where
  "orderly k n [] = True"
| "orderly k n (e # es) = (n \<le> phase e \<and> orderly k (if failed k e then max 3 (phase e) else phase e) es)"

lemma orderly_mono: "orderly k m es \<Longrightarrow> n \<le> m \<Longrightarrow> orderly k n es"
  by (cases es) auto

lemma orderly_phases: "orderly k n es \<Longrightarrow> sorted (map phase es) \<and> (\<forall>e\<in>set es. n \<le> phase e)"
proof (induction es arbitrary: n)
  case (Cons e es)
  let ?m = "if failed k e then max 3 (phase e) else phase e"
  have "orderly k ?m es" and "n \<le> phase e" using Cons.prems by simp_all
  from Cons.IH[OF this(1)] this(2)
  have "sorted (map phase es) \<and> (\<forall>x\<in>set es. ?m \<le> phase x)" and "n \<le> phase e" by blast+
  moreover have "phase e \<le> ?m" by simp
  ultimately show ?case by (auto intro: order_trans)
qed simp

lemma orderly_fail_stop:
  "orderly k n (pre @ e # post) \<Longrightarrow> failed k e \<Longrightarrow> x \<in> set post \<Longrightarrow> 3 \<le> phase x"
proof (induction pre arbitrary: n)
  case Nil
  then show ?case using orderly_phases[of k "max 3 (phase e)" post] by auto
qed auto

text \<open>A stretch of calls within phases \<open>a\<close> to \<open>b\<close>, none of them failed if \<open>ok\<close>.\<close>

definition stage :: "'w kube \<Rightarrow> nat \<Rightarrow> nat \<Rightarrow> bool \<Rightarrow> event list \<Rightarrow> bool" where
  "stage k a b ok es \<longleftrightarrow>
    orderly k a es \<and> (\<forall>e\<in>set es. phase e \<le> b) \<and> (ok \<longrightarrow> (\<forall>e\<in>set es. \<not> failed k e))"

lemma stage_Nil [simp]: "stage k a b ok []"
  by (simp add: stage_def)

lemma stage_single [simp]:
  "stage k a b ok [e] \<longleftrightarrow> a \<le> phase e \<and> phase e \<le> b \<and> (ok \<longrightarrow> \<not> failed k e)"
  by (auto simp: stage_def)

lemma stage_weaken: "stage k a b ok es \<Longrightarrow> a' \<le> a \<Longrightarrow> b \<le> b' \<Longrightarrow> (ok' \<Longrightarrow> ok) \<Longrightarrow> stage k a' b' ok' es"
  by (auto simp: stage_def intro: orderly_mono)

lemma orderly_append:
  "orderly k a es \<Longrightarrow> (\<forall>e\<in>set es. phase e \<le> b \<and> \<not> failed k e) \<Longrightarrow> orderly k c es' \<Longrightarrow>
    a \<le> c \<Longrightarrow> b \<le> c \<Longrightarrow> orderly k a (es @ es')"
  by (induction es arbitrary: a) (auto intro: orderly_mono)

lemma orderly_append_failed:
  "orderly k a es \<Longrightarrow> (\<forall>e\<in>set es. phase e \<le> b) \<Longrightarrow> orderly k c es' \<Longrightarrow>
    a \<le> c \<Longrightarrow> b \<le> c \<Longrightarrow> 3 \<le> c \<Longrightarrow> orderly k a (es @ es')"
  by (induction es arbitrary: a) (auto intro: orderly_mono)

lemma stage_append:
  assumes "stage k a b True es" and "stage k c d ok es'" and "a \<le> c" and "b \<le> c" and "b \<le> d"
  shows "stage k a d ok (es @ es')"
  using assms orderly_append[of k a es b c es'] unfolding stage_def by force

lemma stage_append_failed:
  assumes "stage k a b False es" and "stage k c d ok es'" and "a \<le> c" and "b \<le> c" and "b \<le> d" and "3 \<le> c"
  shows "stage k a d False (es @ es')"
  using assms orderly_append_failed[of k a es b c es'] unfolding stage_def by force

lemma seq_stage:
  assumes "traces m (\<lambda>r es. stage k a b (good r) es)"
    and "\<And>r. good r \<Longrightarrow> traces (f r) (\<lambda>y es. stage k c d (good' y) es)"
    and "\<And>r. \<not> good r \<Longrightarrow> traces (f r) (\<lambda>y es. es = [] \<and> \<not> good' y)"
    and "a \<le> c" and "b \<le> c" and "b \<le> d"
  shows "traces (m \<bind> f) (\<lambda>y es. stage k a d (good' y) es)"
proof (rule traces_seq[OF assms(1)])
  fix r es
  assume es: "stage k a b (good r) es"
  show "traces (f r) (\<lambda>y es'. stage k a d (good' y) (es @ es'))"
  proof (cases "good r")
    case True
    with es assms(2)[OF True] assms(4-6) show ?thesis
      by (auto elim!: traces_conseq intro: stage_append)
  next
    case False
    with es assms(3)[OF False] assms(6) show ?thesis
      by (auto elim!: traces_conseq intro: stage_weaken)
  qed
qed

lemmas seq_same = seq_stage[OF _ _ _ order_refl order_refl order_refl]

subsection \<open>The stages of the operations\<close>

abbreviation succeeded :: "error + 'a \<Rightarrow> bool" where
  "succeeded r \<equiv> (case r of Inl _ \<Rightarrow> False | Inr _ \<Rightarrow> True)"

abbreviation no_error :: "'a \<times> error option \<Rightarrow> bool" where
  "no_error r \<equiv> snd r = None"

lemma or_return_stage:
  assumes "traces m (\<lambda>r es. stage k a b (succeeded r) es)"
    and "\<And>x. traces (f x) (\<lambda>y es. stage k c d (no_error y) es)"
    and "a \<le> c" and "b \<le> c" and "b \<le> d"
  shows "traces (or_return m f) (\<lambda>y es. stage k a d (no_error y) es)"
  unfolding or_return_def
  by (rule seq_stage[OF assms(1) _ _ assms(3-5)]) (auto simp: assms(2) traces_return split: sum.split sum.split_asm)

lemma list_devices_stage: "traces (list_devices k ns) (\<lambda>r es. stage k 0 0 (succeeded r) es)"
  unfolding list_devices_def by (rule traces_call) (simp split: sum.split)

lemma list_networks_stage: "traces (list_networks k ns) (\<lambda>r es. stage k 0 0 (succeeded r) es)"
  unfolding list_networks_def by (rule traces_call) (simp split: sum.split)

lemma ensureAnchor_stage:
  "traces (ensureAnchor k cfg ns name lbl) (\<lambda>r es. stage k 1 1 (succeeded r) es)"
  unfolding ensureAnchor_def Let_def
  by (intro trace_rules) (simp_all split: sum.split)

lemma PlanUnstructured_stage:
  "traces (PlanUnstructured k u) (\<lambda>r es. stage k 1 1 (no_error r) es)"
  unfolding PlanUnstructured_def Let_def
  by (intro trace_rules) (auto simp: absent_def split: sum.split)

lemma planAndApply_stage:
  "traces (planAndApply k cfg u lbl owner) (\<lambda>r es. stage k 1 1 (no_error r) es)"
  unfolding planAndApply_def
  by (rule seq_same[OF PlanUnstructured_stage])
    (auto intro!: trace_rules split: sum.split option.split)

lemma apply_each_stage:
  assumes "\<And>name spec. traces (f name spec) (\<lambda>r es. stage k 1 1 (no_error r) es)"
  shows "traces (apply_each f kvs plans) (\<lambda>r es. stage k 1 1 (succeeded r) es)"
proof (induction kvs arbitrary: plans)
  case (Cons kv kvs)
  obtain name spec where kv: "kv = (name, spec)" by fastforce
  show ?case
    unfolding kv apply_each.simps
    by (rule seq_same[OF assms]) (auto simp: Cons.IH traces_return split: option.split prod.split simp del: One_nat_def)
qed (simp add: traces_return)

lemma apply_map_stage:
  assumes "\<And>name spec. traces (f name spec) (\<lambda>r es. stage k 1 1 (no_error r) es)"
  shows "traces (apply_map k f m plans) (\<lambda>r es. stage k 1 1 (succeeded r) es)"
  unfolding apply_map_def
  by (rule traces_bind, rule traces_range) (simp add: apply_each_stage assms del: One_nat_def)

lemma free_radius_owner_stage:
  "traces (free_radius_owner k cfg anchor) (\<lambda>r es. stage k 1 1 (succeeded r) es)"
  unfolding free_radius_owner_def by (simp add: ensureAnchor_stage traces_return del: One_nat_def)

lemma apply_free_radius_stage:
  "traces (apply_free_radius k cfg out anchor plans) (\<lambda>r es. stage k 1 1 (succeeded r) es)"
proof -
  have "traces (apply_map k (applyFreeRadius k cfg ns owner) m plans) (\<lambda>r es. stage k 1 1 (succeeded r) es)"
    for ns owner m
    unfolding applyFreeRadius_def by (rule apply_map_stage) (rule planAndApply_stage)
  then have "traces (free_radius_owner k cfg anchor \<bind>
      case_sum (\<lambda>e. ret (Inl e)) (\<lambda>owner. apply_map k (applyFreeRadius k cfg ns owner) m plans))
      (\<lambda>r es. stage k 1 1 (succeeded r) es)" for ns m
    by (intro seq_same[OF free_radius_owner_stage])
      (auto simp: traces_return simp del: One_nat_def split: sum.split sum.split_asm)
  then show ?thesis
    unfolding apply_free_radius_def by (simp add: traces_return del: One_nat_def)
qed

lemma prune_items_stage: "traces (prune_items k cfg keep items) (\<lambda>err es. stage k 2 2 (err = None) es)"
proof (induction items)
  case (Cons item items)
  have "traces (delete_object k item) (\<lambda>err es. stage k 2 2 (err = None) es)"
    unfolding delete_object_def by (rule traces_call) auto
  then show ?case
    using Cons by (auto intro!: seq_same simp: traces_return split: option.split)
qed (simp add: traces_return)

lemma prune_kinds_stage:
  "traces (prune_kinds k cfg ns aggregate keep gvks) (\<lambda>err es. stage k 2 2 (err = None) es)"
proof (induction gvks)
  case (Cons gvk gvks)
  have list: "traces (list_objects k gvk ns lbl) (\<lambda>r es. stage k 2 2 (succeeded r) es)" for gvk ns lbl
    unfolding list_objects_def by (rule traces_call) (simp split: sum.split)
  have "traces (prune_items k cfg keep items \<bind>
      case_option (prune_kinds k cfg ns aggregate keep gvks) (\<lambda>e. ret (Some e)))
      (\<lambda>err es. stage k 2 2 (err = None) es)" for items
    by (rule seq_same[OF prune_items_stage]) (auto simp: Cons.IH traces_return)
  then show ?case
    unfolding prune_kinds.simps
    by (intro seq_same[OF list]) (auto simp: traces_return split: sum.split sum.split_asm)
qed (simp add: traces_return)

lemma prune_outputs_stage:
  "traces (prune_outputs k cfg out names) (\<lambda>r es. stage k 2 2 (succeeded r) es)"
proof -
  have last: "traces (prune_kinds k cfg ns agg keep gvks \<bind>
      (\<lambda>err. ret (case err of None \<Rightarrow> Inr () | Some e \<Rightarrow> Inl e)))
      (\<lambda>r es. stage k 2 2 (succeeded r) es)" for ns agg keep gvks
    by (rule seq_same[OF prune_kinds_stage]) (auto simp: traces_return split: option.split)
  show ?thesis
    unfolding prune_outputs_def pruneManaged_def Let_def
    by (intro traces_if seq_same[OF prune_kinds_stage])
      (auto simp: traces_return last split: option.split simp del: prune_kinds.simps)
qed

lemma statuses_stage:
  assumes "calls_only (\<lambda>e. phase e = n \<and> \<not> failed k e) m"
  shows "traces m (\<lambda>_ es. stage k n n True es)"
proof (rule traces_conseq[OF assms])
  fix es assume "list_all (\<lambda>e. phase e = n \<and> \<not> failed k e) es"
  moreover have "orderly k n es" if "list_all (\<lambda>e. phase e = n \<and> \<not> failed k e) es" for es
    using that by (induction es) auto
  ultimately show "stage k n n True es" by (auto simp: stage_def list_all_iff)
qed

lemma updateDeviceStatuses_stage:
  "traces (updateDeviceStatuses k cfg devices networks ok msg) (\<lambda>_ es. stage k 3 3 True es)"
  by (intro statuses_stage updateDeviceStatuses_only) simp

lemma updateNetworkStatuses_stage:
  "traces (updateNetworkStatuses k cfg networks ok msg) (\<lambda>_ es. stage k 3 3 True es)"
  by (intro statuses_stage updateNetworkStatuses_only) simp

lemma logReconcileSummary_stage:
  "traces (logReconcileSummary values dryRun aggregate plans) (\<lambda>_ es. stage k 4 4 True es)"
  unfolding logReconcileSummary_def
  by (rule statuses_stage, intro only_rules log_changes_rule) (simp_all add: list_all_iff)

subsection \<open>The reconcile\<close>

lemma seq_always:
  assumes "traces m (\<lambda>_ es. stage k a b True es)" and "\<And>r. traces (f r) (\<lambda>y es. stage k c d (good y) es)"
    and "a \<le> c" and "b \<le> c" and "b \<le> d"
  shows "traces (m \<bind> f) (\<lambda>y es. stage k a d (good y) es)"
  by (rule seq_stage[where good = "\<lambda>_. True" and c = c, OF assms(1)]) (simp_all add: assms(2-))

lemma report_stage:
  "traces (do {
     updateDeviceStatuses k cfg devices networks ok msg;
     updateNetworkStatuses k cfg networks ok' msg';
     logReconcileSummary logger dryRun aggregate plans;
     ret (no_result, None)
   }) (\<lambda>y es. stage k 3 4 (no_error y) es)"
  by (intro seq_always[OF updateDeviceStatuses_stage, where c = 3]
      seq_always[OF updateNetworkStatuses_stage, where c = 4]
      seq_always[OF logReconcileSummary_stage, where c = 4]) (simp_all add: traces_return)

lemma apply_rest_stage:
  "traces (
     or_return (apply_map k (applyDhcpHosts k cfg ns anchor) m plans) (\<lambda>plans.
     or_return (apply_map k (applyDnsHosts k cfg ns anchor) m' plans) (\<lambda>plans.
     or_return (apply_free_radius k cfg out anchor plans) (\<lambda>plans.
     or_return (prune_outputs k cfg out names) (\<lambda>_. rest plans)))))
   (\<lambda>y es. stage k 1 4 (no_error y) es)"
  if rest: "\<And>plans. traces (rest plans) (\<lambda>y es. stage k 3 4 (no_error y) es)"
proof -
  have dhcp: "traces (apply_map k (applyDhcpHosts k cfg ns anchor) m plans)
      (\<lambda>r es. stage k 1 1 (succeeded r) es)" for m plans
    unfolding applyDhcpHosts_def Let_def by (rule apply_map_stage) (rule planAndApply_stage)
  have dns: "traces (apply_map k (applyDnsHosts k cfg ns anchor) m plans)
      (\<lambda>r es. stage k 1 1 (succeeded r) es)" for m plans
    unfolding applyDnsHosts_def Let_def by (rule apply_map_stage) (rule planAndApply_stage)
  have prune: "traces (or_return (prune_outputs k cfg out names) (\<lambda>_. rest plans))
      (\<lambda>y es. stage k 2 4 (no_error y) es)" for plans
    by (rule or_return_stage[OF prune_outputs_stage rest]) simp_all
  have radius: "traces (or_return (apply_free_radius k cfg out anchor plans)
      (\<lambda>plans. or_return (prune_outputs k cfg out names) (\<lambda>_. rest plans)))
      (\<lambda>y es. stage k 1 4 (no_error y) es)" for plans
    by (rule or_return_stage[OF apply_free_radius_stage prune]) simp_all
  show ?thesis
    by (rule or_return_stage[OF dhcp], rule or_return_stage[OF dns radius]) simp_all
qed

lemma options_failed_stage:
  "traces (do {
     log_info logger (LogError msg e);
     updateDeviceStatuses k cfg devices networks ok msg';
     ret (no_result, Some e)
   }) (\<lambda>y es. stage k 3 4 False es \<and> \<not> no_error y)"
proof -
  have "traces (log_info logger (LogError msg e)) (\<lambda>_ es. stage k 3 3 True es)"
    by (rule traces_log) simp
  from seq_always[OF this, of "\<lambda>_. do { updateDeviceStatuses k cfg devices networks ok msg';
      ret (no_result, Some e) }" 3 3 "\<lambda>_. True"]
  have "traces (do {
      log_info logger (LogError msg e);
      updateDeviceStatuses k cfg devices networks ok msg';
      ret (no_result, Some e)
    }) (\<lambda>y es. stage k 3 3 True es)"
    by (simp add: seq_always[OF updateDeviceStatuses_stage, where c = 3] traces_return)
  moreover have "traces (do {
      log_info logger (LogError msg e);
      updateDeviceStatuses k cfg devices networks ok msg';
      ret (no_result, Some e)
    }) (\<lambda>y es. \<not> no_error y)"
    by (rule traces_bind, rule traces_log, rule traces_seq[OF updateDeviceStatuses_stage])
      (simp add: traces_return)
  ultimately show ?thesis
    by (rule traces_conseq[OF traces_conj]) (auto intro: stage_weaken)
qed

lemma reconcile_output_stage:
  "traces (reconcile_output k cfg logger out devices networks anchor)
    (\<lambda>y es. stage k 1 4 (no_error y) es)"
proof -
  have options: "traces (applyDhcpOptions k cfg ns spec anchor) (\<lambda>r es. stage k 1 1 (no_error r) es)"
    for ns spec
    unfolding applyDhcpOptions_def Let_def by (rule planAndApply_stage)
  have stopped: "stage k 1 4 False (es @ es')" if "stage k 1 1 False es" "stage k 3 4 False es'" for es es'
    by (rule stage_append_failed[OF that]) simp_all
  show ?thesis
    unfolding reconcile_output_def Let_def
    by (rule traces_seq[OF options], intro traces_case_prod traces_case_option)
      (auto intro!: traces_conseq[OF apply_rest_stage[OF report_stage]]
        traces_conseq[OF options_failed_stage]
        intro: stage_append[of k 1 1 _ 1] stopped
        simp del: One_nat_def)
qed

lemma reconcileNamespace_stage:
  "traces (reconcileNamespace k cfg req) (\<lambda>y es. stage k 0 4 (no_error y) es)"
proof -
  have anchor: "traces (or_return (ensureAnchor k cfg ns name lbl)
      (\<lambda>anchor. reconcile_output k cfg logger out devices networks anchor))
      (\<lambda>y es. stage k 1 4 (no_error y) es)" for ns name lbl logger out devices networks
    by (rule or_return_stage[OF ensureAnchor_stage reconcile_output_stage]) simp_all
  have built: "traces (case BuildDeviceBased devices networks cfg of
      (out, devices, networks) \<Rightarrow> or_return (ensureAnchor k cfg ns name lbl)
        (\<lambda>anchor. reconcile_output k cfg logger out devices networks anchor))
      (\<lambda>y es. stage k 1 4 (no_error y) es)" for ns name lbl logger devices networks
    by (intro traces_case_prod anchor)
  have listed: "traces (or_return (list_networks k ns') (\<lambda>networks.
      case BuildDeviceBased devices networks cfg of
      (out, devices, networks) \<Rightarrow> or_return (ensureAnchor k cfg ns name lbl)
        (\<lambda>anchor. reconcile_output k cfg logger out devices networks anchor)))
      (\<lambda>y es. stage k 0 4 (no_error y) es)" for ns' ns name lbl logger devices
    by (rule or_return_stage[OF list_networks_stage built]) simp_all
  show ?thesis
    unfolding reconcileNamespace_def Let_def
    by (rule traces_bind, rule trigger_consume_rule, unfold append_Nil)
      (rule or_return_stage[OF list_devices_stage listed], simp_all)
qed

lemma DeviceReconciler_stage:
  "traces (DeviceReconciler_Reconcile k cfg req) (\<lambda>y es. stage k 0 4 (no_error y) es)"
  unfolding DeviceReconciler_Reconcile_def
  by (intro traces_if gate_run_rule reconcileNamespace_stage traces_return) simp_all

text \<open>
  (C6) A device reconcile reads its inputs, then writes the anchor and the wanted objects, then
  prunes, then updates statuses, then logs, in this order; a call that fails ends it but for status
  updates and log lines, so in particular nothing is pruned unless every apply succeeded; and a
  reconcile that reports success had no failed call.
\<close>

theorem device_reconcile_order:
  assumes "run_state (DeviceReconciler_Reconcile k cfg req) s = ((res, err), s')" and "trace s = []"
  shows "sorted (map phase (trace s')) \<and>
    (\<forall>pre e post. trace s' = pre @ e # post \<longrightarrow> failed k e \<longrightarrow> list_all (\<lambda>x. 3 \<le> phase x) post) \<and>
    (err = None \<longrightarrow> list_all (\<lambda>e. \<not> failed k e) (trace s'))"
  using traces_run[OF DeviceReconciler_stage assms]
  by (auto simp: stage_def list_all_iff dest: orderly_phases orderly_fail_stop)

end
