(* ===== verification/DeviceOutcome.thy ===== *)
theory DeviceOutcome
  imports DeviceOrder
begin

text \<open>
  What a device reconcile achieves and what it may write. \<open>wanted\<close> is the specification: the
  objects, with their labels, that the built output asks for. A reconcile that reports success
  has applied each of them and deleted every managed object it no longer wants; and any
  reconcile writes nothing else.
\<close>

subsection \<open>The objects asked for\<close>

type_synonym request = "Unstructured \<times> (string, string) gomap"

definition wanted_dnsmasq :: "'w kube \<Rightarrow> Config \<Rightarrow> DeviceBasedOutput \<Rightarrow> request set" where
  "wanted_dnsmasq k cfg out =
    (let ns = DnsmasqResourcesNamespace cfg in
     {(NewDhcpOptions k DhcpOptionsName ns (out_DhcpOptions out), Managed ''device-based'' [])} \<union>
     {(NewDhcpHosts k name ns spec, Managed ''device-based'' (networkFromResourceName name)) | name spec.
        map_of (out_DhcpHosts out) name = Some spec} \<union>
     {(NewDnsHosts k name ns spec, Managed ''device-based'' (networkFromResourceName name)) | name spec.
        map_of (out_DnsHosts out) name = Some spec})"

definition wanted_radius :: "Config \<Rightarrow> DeviceBasedOutput \<Rightarrow> request set" where
  "wanted_radius cfg out =
    (if EnableFreeRadiusDevices cfg then
       {(free_radius_object name (FreeRadiusDevicesNamespace cfg) spec, Managed ''device-based'' []) | name spec.
          map_of (out_FreeRadius out) name = Some spec}
     else {})"

definition wanted :: "'w kube \<Rightarrow> Config \<Rightarrow> DeviceBasedOutput \<Rightarrow> request set" where
  "wanted k cfg out = wanted_dnsmasq k cfg out \<union> wanted_radius cfg out"

text \<open>The call that applies a request under an owner, whatever its reply.\<close>

definition apply_call :: "'w kube \<Rightarrow> request \<Rightarrow> ConfigMap \<Rightarrow> error + string \<Rightarrow> event" where
  "apply_call k rq owner reply =
    (let fresh = new_unstructured (u_GVK (fst rq)) (Name (fst rq)) (Namespace (fst rq))
     in Applied fresh (apply_mutate k (fst rq) (snd rq) (Some owner) fresh) reply)"

definition was_applied :: "'w kube \<Rightarrow> request \<Rightarrow> event set \<Rightarrow> bool" where
  "was_applied k rq E \<longleftrightarrow> (\<exists>owner result. apply_call k rq owner (Inr result) \<in> E)"

definition was_pruned :: "GroupVersionKind \<Rightarrow> string \<Rightarrow> string set \<Rightarrow> event set \<Rightarrow> bool" where
  "was_pruned gvk ns keep E \<longleftrightarrow>
    (\<exists>items. ListedObjects (list_gvk gvk) (Some ns) (managed_selector ''device-based'') (Inr items) \<in> E \<and>
      (\<forall>u\<in>set items. Name u \<notin> keep \<longrightarrow> Deleted u None \<in> E))"

lemma was_applied_mono: "was_applied k rq E \<Longrightarrow> E \<subseteq> E' \<Longrightarrow> was_applied k rq E'"
  unfolding was_applied_def by blast

lemma was_pruned_mono: "was_pruned gvk ns keep E \<Longrightarrow> E \<subseteq> E' \<Longrightarrow> was_pruned gvk ns keep E'"
  unfolding was_pruned_def by blast

definition desired_keys :: "DeviceBasedOutput \<Rightarrow> string set" where
  "desired_keys out = {DhcpOptionsName} \<union> dom (map_of (out_DhcpHosts out)) \<union> dom (map_of (out_DnsHosts out))"

lemma dom_fold_map_set:
  "dom (map_of (fold (\<lambda>name m. map_set name () m) names m)) = set names \<union> dom (map_of m)"
  using fold_map_set_keys[of "\<lambda>n. n" "\<lambda>_. ()" names m] by (simp flip: set_keys_dom)

lemma dom_desired_names: "dom (map_of (desired_names out)) = desired_keys out"
  unfolding desired_names_def desired_keys_def Let_def dom_fold_map_set set_keys_dom by auto

subsection \<open>What success means, operation by operation\<close>

lemma or_return_goal:
  assumes "traces m (\<lambda>r es. \<forall>x. r = Inr x \<longrightarrow> G x es)"
    and "\<And>x es. G x es \<Longrightarrow> traces (f x) (\<lambda>y es'. no_error y \<longrightarrow> H (es @ es'))"
  shows "traces (or_return m f) (\<lambda>y es. no_error y \<longrightarrow> H es)"
  unfolding or_return_def
  by (rule traces_seq[OF assms(1)], rule traces_case_sum) (auto intro!: traces_return assms(2))

lemma planAndApply_goal:
  assumes "\<not> DryRun cfg"
  shows "traces (planAndApply k cfg obj lbl owner) (\<lambda>r es. no_error r \<longrightarrow> was_applied k (obj, lbl) (set es))"
  unfolding planAndApply_def
  by (rule traces_bind, rule PlanUnstructured_rule, intro trace_rules)
    (auto simp: assms was_applied_def apply_call_def Let_def split: sum.splits)

lemma apply_each_goal:
  assumes "\<And>name spec. traces (f name spec) (\<lambda>r es. no_error r \<longrightarrow> A name spec (set es))"
    and mono: "\<And>name spec E E'. A name spec E \<Longrightarrow> E \<subseteq> E' \<Longrightarrow> A name spec E'"
  shows "traces (apply_each f kvs plans)
    (\<lambda>r es. succeeded r \<longrightarrow> (\<forall>name spec. (name, spec) \<in> set kvs \<longrightarrow> A name spec (set es)))"
proof (induction kvs arbitrary: plans)
  case (Cons kv kvs)
  obtain name spec where kv: "kv = (name, spec)" by fastforce
  show ?case
    unfolding kv apply_each.simps
    by (rule traces_seq[OF assms(1)], intro traces_case_prod traces_case_option)
      (auto intro!: traces_return traces_conseq[OF Cons.IH] intro: mono)
qed (simp add: traces_return)

lemma apply_map_goal:
  assumes "\<And>name spec. traces (f name spec) (\<lambda>r es. no_error r \<longrightarrow> A name spec (set es))"
    and mono: "\<And>name spec E E'. A name spec E \<Longrightarrow> E \<subseteq> E' \<Longrightarrow> A name spec E'"
  shows "traces (apply_map k f m plans)
    (\<lambda>r es. \<forall>x. r = Inr x \<longrightarrow> (\<forall>name spec. map_of m name = Some spec \<longrightarrow> A name spec (set es)))"
  unfolding apply_map_def
proof (rule traces_bind, rule traces_range, unfold append_Nil)
  fix kvs
  assume "mset kvs = mset (map (\<lambda>n. (n, the (map_of m n))) (map_keys m))"
  then have kvs: "set kvs = (\<lambda>n. (n, the (map_of m n))) ` set (map_keys m)"
    by (metis set_map set_mset_mset)
  have "(name, spec) \<in> set kvs" if "map_of m name = Some spec" for name spec
    using that unfolding kvs set_keys_dom by (auto intro!: image_eqI[of _ _ name])
  then show "traces (apply_each f kvs plans)
      (\<lambda>r es. \<forall>x. r = Inr x \<longrightarrow> (\<forall>name spec. map_of m name = Some spec \<longrightarrow> A name spec (set es)))"
    by (intro traces_conseq[OF apply_each_goal[OF assms]]) auto
qed

lemma prune_items_goal:
  assumes "\<not> DryRun cfg"
  shows "traces (prune_items k cfg keep items) (\<lambda>err es. err = None \<longrightarrow>
    (\<forall>u\<in>set items. Name u \<notin> dom (map_of keep) \<longrightarrow> Deleted u None \<in> set es))"
proof (induction items)
  case (Cons item items)
  show ?case
  proof (cases "map_of keep (Name item)")
    case (Some x)
    then show ?thesis using Cons by (auto elim: traces_conseq)
  next
    case None
    with assms show ?thesis
      unfolding prune_items.simps delete_object_def
      by simp (intro trace_rules, auto intro!: traces_conseq[OF Cons])
  qed
qed (simp add: traces_return)

lemma prune_kinds_goal:
  assumes "\<not> DryRun cfg"
  shows "traces (prune_kinds k cfg ns ''device-based'' keep gvks) (\<lambda>err es. err = None \<longrightarrow>
    (\<forall>gvk\<in>set gvks. was_pruned gvk ns (dom (map_of keep)) (set es)))"
proof (induction gvks)
  case (Cons gvk gvks)
  let ?keep = "dom (map_of keep)"
  have head: "was_pruned gvk ns ?keep (insert l (E \<union> E'))"
    if "l = ListedObjects (list_gvk gvk) (Some ns) (managed_selector ''device-based'') (Inr items)"
      and "\<forall>u\<in>set items. Name u \<notin> ?keep \<longrightarrow> Deleted u None \<in> E" for l items E E'
    using that unfolding was_pruned_def by blast
  have tail: "was_pruned g ns ?keep (insert l (E \<union> E'))" if "was_pruned g ns ?keep E'" for g l E E'
    using that by (rule was_pruned_mono) blast
  show ?case
    unfolding prune_kinds.simps list_objects_def
  proof (intro traces_bind traces_call traces_case_sum traces_conseq[OF prune_items_goal[OF assms]]
      traces_case_option)
    fix r :: "error + Unstructured list" and items and err :: "error option" and es
    assume "r = Inr items" and "err = None \<longrightarrow> (\<forall>u\<in>set items. Name u \<notin> ?keep \<longrightarrow> Deleted u None \<in> set es)"
      and "err = None"
    then show "traces (prune_kinds k cfg ns ''device-based'' keep gvks)
        (\<lambda>err es'. err = None \<longrightarrow> (\<forall>g\<in>set (gvk # gvks). was_pruned g ns ?keep
          (set ([ListedObjects (list_gvk gvk) (Some ns) (managed_selector ''device-based'') r] @ es @ es'))))"
      by (intro traces_conseq[OF Cons]) (auto intro: head tail)
  qed (simp_all add: traces_return)
qed (simp add: traces_return)

subsection \<open>What success means for the reconcile\<close>

definition achieved :: "'w kube \<Rightarrow> Config \<Rightarrow> DeviceBasedOutput \<Rightarrow> event set \<Rightarrow> bool" where
  "achieved k cfg out E \<longleftrightarrow>
    (\<forall>rq\<in>wanted k cfg out. was_applied k rq E) \<and>
    (\<forall>gvk\<in>{DhcpHostsGVK, DnsHostsGVK}.
      was_pruned gvk (DnsmasqResourcesNamespace cfg) (desired_keys out) E) \<and>
    (EnableFreeRadiusDevices cfg \<longrightarrow>
      was_pruned FreeRadiusDeviceGVK (FreeRadiusDevicesNamespace cfg) (dom (map_of (out_FreeRadius out))) E)"

lemma applyDhcpHosts_goal:
  "\<not> DryRun cfg \<Longrightarrow> traces (applyDhcpHosts k cfg ns owner name spec) (\<lambda>r es. no_error r \<longrightarrow>
    was_applied k (NewDhcpHosts k name ns spec, Managed ''device-based'' (networkFromResourceName name)) (set es))"
  unfolding applyDhcpHosts_def Let_def by (rule planAndApply_goal)

lemma applyDnsHosts_goal:
  "\<not> DryRun cfg \<Longrightarrow> traces (applyDnsHosts k cfg ns owner name spec) (\<lambda>r es. no_error r \<longrightarrow>
    was_applied k (NewDnsHosts k name ns spec, Managed ''device-based'' (networkFromResourceName name)) (set es))"
  unfolding applyDnsHosts_def Let_def by (rule planAndApply_goal)

lemma applyFreeRadius_goal:
  "\<not> DryRun cfg \<Longrightarrow> traces (applyFreeRadius k cfg ns owner name spec) (\<lambda>r es. no_error r \<longrightarrow>
    was_applied k (free_radius_object name ns spec, Managed ''device-based'' []) (set es))"
  unfolding applyFreeRadius_def by (rule planAndApply_goal)

lemma apply_free_radius_goal:
  assumes "\<not> DryRun cfg"
  shows "traces (apply_free_radius k cfg out anchor plans)
    (\<lambda>r es. \<forall>x. r = Inr x \<longrightarrow> (\<forall>rq\<in>wanted_radius cfg out. was_applied k rq (set es)))"
proof (cases "EnableFreeRadiusDevices cfg")
  case False
  then show ?thesis by (simp add: apply_free_radius_def wanted_radius_def traces_return)
next
  case True
  let ?frNS = "FreeRadiusDevicesNamespace cfg"
  note each = apply_map_goal[OF applyFreeRadius_goal[OF assms] was_applied_mono, where m = "out_FreeRadius out"]
  have mono: "was_applied k rq (E \<union> E')" if "was_applied k rq E'" for rq E E'
    using that by (rule was_applied_mono) blast
  show ?thesis
    unfolding apply_free_radius_def using True
    by (simp add: wanted_radius_def)
      (rule traces_seq[OF free_radius_owner_stage], rule traces_case_sum,
        auto intro!: traces_return traces_conseq[OF each] mono)
qed

lemma prune_outputs_goal:
  assumes "\<not> DryRun cfg"
  shows "traces (prune_outputs k cfg out (desired_names out)) (\<lambda>r es. \<forall>x. r = Inr x \<longrightarrow>
    (\<forall>gvk\<in>{DhcpHostsGVK, DnsHostsGVK}.
      was_pruned gvk (DnsmasqResourcesNamespace cfg) (desired_keys out) (set es)) \<and>
    (EnableFreeRadiusDevices cfg \<longrightarrow>
      was_pruned FreeRadiusDeviceGVK (FreeRadiusDevicesNamespace cfg) (dom (map_of (out_FreeRadius out))) (set es)))"
proof -
  have left: "was_pruned g ns keep (E \<union> E')" if "was_pruned g ns keep E" for g ns keep E E'
    using that by (rule was_pruned_mono) blast
  have right: "was_pruned g ns keep (E \<union> E')" if "was_pruned g ns keep E'" for g ns keep E E'
    using that by (rule was_pruned_mono) blast
  note prune = prune_kinds_goal[OF assms]
  have keys: "dom (map_of (fold (\<lambda>name. map_set name ()) (map_keys m) [])) = dom (map_of m)"
    for m :: "(string, jobj) gomap"
    unfolding dom_fold_map_set set_keys_dom by simp
  show ?thesis
    unfolding prune_outputs_def pruneManaged_def Let_def
    using assms
    by (simp del: prune_kinds.simps)
      (intro conjI impI; rule traces_seq[OF prune]; rule traces_case_option;
        auto intro!: traces_return traces_seq[OF prune] intro: left right
          simp: dom_desired_names keys simp del: prune_kinds.simps split: option.splits)
qed

lemma traces_any:
  assumes "calls_only (\<lambda>_. True) m" and "\<And>y es. Q y es"
  shows "traces m Q"
  using assms(1) by (rule traces_conseq) (rule assms(2))

lemma covers_True [simp]: "covers cfg (\<lambda>_. True)"
  by (simp add: covers_def)

lemma reconcile_output_goal:
  assumes "\<not> DryRun cfg"
  shows "traces (reconcile_output k cfg logger out devices networks anchor)
    (\<lambda>y es. no_error y \<longrightarrow> achieved k cfg out (set es))"
proof -
  let ?ns = "DnsmasqResourcesNamespace cfg"
  have options: "traces (applyDhcpOptions k cfg ?ns (out_DhcpOptions out) anchor) (\<lambda>r es. no_error r \<longrightarrow>
      was_applied k (NewDhcpOptions k DhcpOptionsName ?ns (out_DhcpOptions out), Managed ''device-based'' []) (set es))"
    unfolding applyDhcpOptions_def Let_def by (rule planAndApply_goal[OF assms])
  note dhcp = apply_map_goal[OF applyDhcpHosts_goal[OF assms] was_applied_mono]
  note dns = apply_map_goal[OF applyDnsHosts_goal[OF assms] was_applied_mono]
  have app: "was_applied k rq (E \<union> E')" if "was_applied k rq E \<or> was_applied k rq E'" for rq E E'
    using that was_applied_mono[of k rq] by blast
  have prn: "was_pruned g ns keep (E \<union> E')" if "was_pruned g ns keep E \<or> was_pruned g ns keep E'" for g ns keep E E'
    using that was_pruned_mono[of g ns keep] by blast
  have failed: "traces (do {
      log_info logger (LogError msg e);
      updateDeviceStatuses k cfg devices networks False msg';
      ret (no_result, Some e) }) (\<lambda>y es. no_error y \<longrightarrow> H y es)" for msg msg' e H
    by (rule traces_conseq[OF options_failed_stage]) auto
  have report: "traces (do {
      updateDeviceStatuses k cfg devices networks ok msg;
      updateNetworkStatuses k cfg networks ok' msg';
      logReconcileSummary l (DryRun cfg) aggregate plans;
      ret (no_result, None) }) (\<lambda>y es. H y es)" if "\<And>y es. H y es" for ok msg ok' msg' l aggregate plans H
    by (rule traces_any[OF _ that]) (intro only_rules, simp_all)
  show ?thesis
    unfolding reconcile_output_def Let_def
  proof (rule traces_seq[OF options], intro traces_case_prod traces_case_option, goal_cases)
    case (1 r es plan err)
    then show ?case
      by (intro or_return_goal[OF dhcp] or_return_goal[OF dns]
          or_return_goal[OF apply_free_radius_goal[OF assms]]
          or_return_goal[OF prune_outputs_goal[OF assms]] report)
        (auto simp: achieved_def wanted_def wanted_dnsmasq_def Let_def intro!: app prn)
  next
    case (2 r es plan err e)
    show ?case by (rule failed)
  qed
qed

lemma reconcileNamespace_goal:
  assumes "\<not> DryRun cfg"
  shows "traces (reconcileNamespace k cfg req) (\<lambda>y es. no_error y \<longrightarrow>
    (\<exists>devices networks. ListedDevices (req_Namespace req) (Inr devices) \<in> set es \<and>
      ListedNetworks (req_Namespace req) (Inr networks) \<in> set es \<and>
      achieved k cfg (device_output devices networks cfg) (set es)))"
proof -
  let ?found = "\<lambda>E. \<exists>devices networks. ListedDevices (req_Namespace req) (Inr devices) \<in> E \<and>
      ListedNetworks (req_Namespace req) (Inr networks) \<in> E \<and>
      achieved k cfg (device_output devices networks cfg) E"
  have found: "?found (set ([ListedDevices (req_Namespace req) (Inr x)] @
        [ListedNetworks (req_Namespace req) (Inr y)] @ es @ es'))"
    if "BuildDeviceBased x y cfg = (out, d, n)" and "achieved k cfg out (set es')" for x y out d n es es'
  proof -
    let ?E = "set ([ListedDevices (req_Namespace req) (Inr x)] @ [ListedNetworks (req_Namespace req) (Inr y)] @ es @ es')"
    have "set es' \<subseteq> ?E" by auto
    with that(2) have "achieved k cfg out ?E"
      using was_applied_mono[of k _ "set es'" ?E] was_pruned_mono[of _ _ _ "set es'" ?E]
      unfolding achieved_def by blast
    with that(1) show ?thesis by (intro exI[of _ x] exI[of _ y]) simp
  qed
  have devices: "traces (list_devices k ns) (\<lambda>r es. \<forall>x. r = Inr x \<longrightarrow> es = [ListedDevices ns (Inr x)])" for ns
    unfolding list_devices_def by (rule traces_call) simp
  have networks: "traces (list_networks k ns) (\<lambda>r es. \<forall>x. r = Inr x \<longrightarrow> es = [ListedNetworks ns (Inr x)])" for ns
    unfolding list_networks_def by (rule traces_call) simp
  have anchor: "traces (ensureAnchor k cfg ns name lbl) (\<lambda>r es. \<forall>x. r = Inr x \<longrightarrow> True)" for ns name lbl
    by (rule traces_any) (auto intro!: only_rules)
  show ?thesis
    unfolding reconcileNamespace_def Let_def
    by (rule traces_bind, rule trigger_consume_rule, unfold append_Nil)
      (intro or_return_goal[OF devices] or_return_goal[OF networks] traces_case_prod
        or_return_goal[OF anchor] traces_conseq[OF reconcile_output_goal[OF assms]] impI,
       simp only: found)
qed

text \<open>
  (C2) Completeness: a device reconcile that reports success and asks for no requeue has read the
  namespace's devices and networks, has applied every object that \<open>BuildDeviceBased\<close> wants for
  them (DHCP options, DHCP hosts, DNS hosts and, where enabled, FreeRADIUS devices), and has
  deleted every listed managed object whose name is no longer wanted.
\<close>

theorem device_reconcile_complete:
  assumes "EnableDeviceBasedHosts cfg" and "\<not> DryRun cfg" and "trace s = []"
    and "run_state (DeviceReconciler_Reconcile k cfg req) s = ((res, None), s')" and "RequeueAfter res = 0"
  shows "\<exists>devices networks. ListedDevices (req_Namespace req) (Inr devices) \<in> set (trace s') \<and>
    ListedNetworks (req_Namespace req) (Inr networks) \<in> set (trace s') \<and>
    achieved k cfg (device_output devices networks cfg) (set (trace s'))"
proof -
  have "traces (DeviceReconciler_Reconcile k cfg req) (\<lambda>y es. no_error y \<and> RequeueAfter (fst y) = 0 \<longrightarrow>
    (\<exists>devices networks. ListedDevices (req_Namespace req) (Inr devices) \<in> set es \<and>
      ListedNetworks (req_Namespace req) (Inr networks) \<in> set es \<and>
      achieved k cfg (device_output devices networks cfg) (set es)))"
    unfolding DeviceReconciler_Reconcile_def
    using assms(1) by simp (intro gate_run_rule traces_conseq[OF reconcileNamespace_goal[OF assms(2)]],
      auto simp: time_Millisecond_def)
  from traces_run[OF this assms(4,3)] assms(5) show ?thesis by simp
qed

subsection \<open>What pruning spares\<close>

fun deletes_outside :: "string set \<Rightarrow> event \<Rightarrow> bool" where
  "deletes_outside names (Deleted u _) \<longleftrightarrow> Name u \<notin> names"
| "deletes_outside names _ \<longleftrightarrow> True"

lemma prune_items_outside:
  "calls_only (deletes_outside (dom (map_of keep))) (prune_items k cfg keep items)"
  by (induction items) (auto intro!: only_rules simp: delete_object_def)

lemma prune_kinds_outside:
  "calls_only (deletes_outside (dom (map_of keep))) (prune_kinds k cfg ns aggregate keep gvks)"
proof (induction gvks)
  case (Cons gvk gvks)
  show ?case
    unfolding prune_kinds.simps list_objects_def
    by (intro only_bind only_call traces_case_sum traces_case_option only_return prune_items_outside Cons) simp
qed (simp add: only_return)

text \<open>
  (C33) Pruning goes by name alone, across kinds: no DhcpHosts or DnsHosts object is deleted whose
  name is that of a wanted object of either kind, nor one named like the DHCP options. So the
  DhcpHosts of a network whose last DHCP device is gone stay as long as its DnsHosts are wanted,
  and the objects of a network called \<open>hosts\<close> are never deleted at all.
\<close>

theorem prune_spares_by_name:
  "calls_only (deletes_outside ({DeviceBasedNetworkName ''hosts''} \<union>
      dom (map_of (out_DhcpHosts out)) \<union> dom (map_of (out_DnsHosts out))))
    (pruneManaged k cfg ns aggregate (desired_names out) gvks)"
proof -
  have "{DeviceBasedNetworkName ''hosts''} \<union> dom (map_of (out_DhcpHosts out)) \<union>
      dom (map_of (out_DnsHosts out)) = dom (map_of (desired_names out))"
    by (simp add: dom_desired_names desired_keys_def DhcpOptionsName_def DeviceBasedNetworkName_def)
  then show ?thesis
    unfolding pruneManaged_def Let_def by (simp only: prune_kinds_outside)
qed

subsection \<open>What is applied can be pruned\<close>

lemma networkFromResourceName_inverse: "networkFromResourceName (DeviceBasedNetworkName net) = net"
  by (simp add: networkFromResourceName_def DeviceBasedNetworkName_def Let_def)

lemma wf_map_Managed: "wf_map (Managed aggregate network)"
  unfolding Managed_def Let_def by (simp add: wf_map_def label_key_defs distinct_update)

text \<open>
  (C25) What is applied can be pruned: an object applied for a network carries, whatever labels it
  had, the labels that pruning selects by, and the label of the network its name was made from.
\<close>

theorem applied_objects_selected:
  assumes "documented_NestedMap k" and "documented_SetOwnerReference k"
    and "map_of (Object obj) ''spec'' = Some (JObject spec)"
    and "apply_mutate k obj (Managed aggregate (networkFromResourceName (DeviceBasedNetworkName net))) owner current = Inr new"
  shows "list_all (\<lambda>(key, v). map_of (Labels new) key = Some v) (managed_selector aggregate) \<and>
    map_of (Labels new) NetworkKey = (if net = [] then map_of (Labels current) NetworkKey else Some net)"
proof -
  obtain refs where "new = (with_wanted spec (Managed aggregate net) current)\<lparr>u_OwnerReferences := refs\<rparr>"
    using apply_mutate_Inr[OF assms(1-3)] assms(4) unfolding networkFromResourceName_inverse by blast
  then have "map_of (Labels new) = map_of (Labels current) ++ map_of (Managed aggregate net)"
    by (simp add: with_wanted_def map_of_maps_Copy[OF wf_map_Managed])
  then show ?thesis
    by (simp add: managed_selector_def map_add_def map_of_Managed)
qed

end
