(* ===== verification/DeviceSafety.thy ===== *)
theory DeviceSafety
  imports DeviceOutcome
begin

text \<open>
  What a device reconcile may write. Every write is justified by what was read before it
  and by the specification \<open>wanted\<close>: an applied object is a wanted one, owned by an anchor
  of its own namespace; the anchor has its own name, labels and data; a deleted object was listed as managed and is not wanted any more; an
  updated status belongs to a listed device or network, whose other fields it keeps.
\<close>

subsection \<open>Justified writes\<close>

definition listed_unwanted :: "event set \<Rightarrow> GroupVersionKind \<Rightarrow> string \<Rightarrow> string set \<Rightarrow> Unstructured \<Rightarrow> bool" where
  "listed_unwanted E gvk ns keep u \<longleftrightarrow> Name u \<notin> keep \<and>
    (\<exists>items. ListedObjects (list_gvk gvk) (Some ns) (managed_selector ''device-based'') (Inr items) \<in> E \<and>
      u \<in> set items)"

definition owned_apply :: "'w kube \<Rightarrow> request set \<Rightarrow> event set \<Rightarrow> event \<Rightarrow> bool" where
  "owned_apply k W E e \<longleftrightarrow>
    (\<exists>rq\<in>W. \<exists>cm owner reply. e = apply_call k rq owner reply \<and>
      AppliedConfigMap cm (Inr owner) \<in> E \<and> Namespace cm = Namespace (fst rq))"

fun justified :: "'w kube \<Rightarrow> Config \<Rightarrow> DeviceBasedOutput \<Rightarrow> Device list \<Rightarrow> Network list \<Rightarrow>
    event set \<Rightarrow> event \<Rightarrow> bool" where
  "justified k cfg out devices networks E (AppliedConfigMap cm reply) \<longleftrightarrow>
    Name cm = deviceAggregateName \<and> Labels cm = Managed ''device-based'' [] \<and> Data cm = anchor_data \<and>
    (Namespace cm = DnsmasqResourcesNamespace cfg \<or>
     EnableFreeRadiusDevices cfg \<and> Namespace cm = FreeRadiusDevicesNamespace cfg)"
| "justified k cfg out devices networks E (Applied u m reply) \<longleftrightarrow>
    owned_apply k (wanted k cfg out) E (Applied u m reply)"
| "justified k cfg out devices networks E (Deleted u reply) \<longleftrightarrow>
    (\<exists>gvk\<in>{DhcpHostsGVK, DnsHostsGVK}.
      listed_unwanted E gvk (DnsmasqResourcesNamespace cfg) (desired_keys out) u) \<or>
    EnableFreeRadiusDevices cfg \<and>
      listed_unwanted E FreeRadiusDeviceGVK (FreeRadiusDevicesNamespace cfg) (dom (map_of (out_FreeRadius out))) u"
| "justified k cfg out devices networks E (UpdatedDevice d reply) \<longleftrightarrow>
    (\<exists>d0\<in>set devices. d = d0\<lparr>d_Status := d_Status d\<rparr>)"
| "justified k cfg out devices networks E (UpdatedNetwork n reply) \<longleftrightarrow>
    (\<exists>n0\<in>set networks. n = n0\<lparr>n_Status := n_Status n\<rparr>)"
| "justified k cfg out devices networks E (UpdatedIngressRouter ir reply) \<longleftrightarrow> False"
| "justified k cfg out devices networks E _ \<longleftrightarrow> True"

lemma listed_unwanted_mono: "listed_unwanted E gvk ns keep u \<Longrightarrow> E \<subseteq> E' \<Longrightarrow> listed_unwanted E' gvk ns keep u"
  unfolding listed_unwanted_def by blast

lemma owned_apply_mono: "owned_apply k W E e \<Longrightarrow> E \<subseteq> E' \<Longrightarrow> owned_apply k W E' e"
  unfolding owned_apply_def by blast

lemma justified_mono:
  assumes "justified k cfg out devices networks E e" and "E \<subseteq> E'"
  shows "justified k cfg out devices networks E' e"
proof -
  have "listed_unwanted E' gvk ns keep u" if "listed_unwanted E gvk ns keep u" for gvk ns keep u
    using that assms(2) by (rule listed_unwanted_mono)
  moreover have "owned_apply k W E' x" if "owned_apply k W E x" for W x
    using that assms(2) by (rule owned_apply_mono)
  ultimately show ?thesis using assms(1) by (cases e) auto
qed

lemma justified_read: "\<not> is_write e \<Longrightarrow> justified k cfg out devices networks E e"
  by (cases e) auto

text \<open>Programs whose calls are justified by \<open>J\<close>, given the calls \<open>E\<close> before them.\<close>

definition safe :: "(event set \<Rightarrow> event \<Rightarrow> bool) \<Rightarrow> event set \<Rightarrow> ('w, 'a) prog \<Rightarrow> bool" where
  "safe J E m \<longleftrightarrow> traces m (\<lambda>_ es. \<forall>e\<in>set es. J (E \<union> set es) e)"

definition upward :: "(event set \<Rightarrow> event \<Rightarrow> bool) \<Rightarrow> bool" where
  "upward J \<longleftrightarrow> (\<forall>E E' e. J E e \<longrightarrow> E \<subseteq> E' \<longrightarrow> J E' e) \<and> (\<forall>E e. \<not> is_write e \<longrightarrow> J E e)"

lemma upward_justified: "upward (justified k cfg out devices networks)"
  using justified_mono justified_read unfolding upward_def by blast

lemma upwardD: "upward J \<Longrightarrow> J E e \<Longrightarrow> E \<subseteq> E' \<Longrightarrow> J E' e"
  unfolding upward_def by blast

lemma safe_only: "upward J \<Longrightarrow> calls_only (J E) m \<Longrightarrow> safe J E m"
  unfolding safe_def by (erule traces_conseq) (auto simp: list_all_iff intro: upwardD)

lemma safe_reads: "upward J \<Longrightarrow> reads_only m \<Longrightarrow> safe J E m"
  by (rule safe_only, assumption, erule only_mono) (simp add: upward_def)

lemma safe_bind_with:
  assumes up: "upward J" and m: "traces m (\<lambda>r es. R r es \<and> (\<forall>e\<in>set es. J (E \<union> set es) e))"
    and f: "\<And>r es. R r es \<Longrightarrow> safe J (E \<union> set es) (f r)"
  shows "safe J E (m \<bind> f)"
  unfolding safe_def
proof (rule traces_seq[OF m])
  fix r es
  assume r: "R r es \<and> (\<forall>e\<in>set es. J (E \<union> set es) e)"
  with f have "traces (f r) (\<lambda>_ es'. \<forall>e\<in>set es'. J (E \<union> set es \<union> set es') e)"
    unfolding safe_def by blast
  then show "traces (f r) (\<lambda>_ es'. \<forall>e\<in>set (es @ es'). J (E \<union> set (es @ es')) e)"
    by (rule traces_conseq) (use r in \<open>auto simp: Un_assoc intro: upwardD[OF up]\<close>)
qed

lemma safe_more: "upward J \<Longrightarrow> safe J E m \<Longrightarrow> E \<subseteq> E' \<Longrightarrow> safe J E' m"
  unfolding safe_def by (erule traces_conseq) (auto intro: upwardD)

lemma safe_bind:
  assumes "upward J" and "safe J E m" and "\<And>r. safe J E (f r)"
  shows "safe J E (m \<bind> f)"
proof (rule safe_bind_with[where R = "\<lambda>_ _. True", OF assms(1)])
  show "traces m (\<lambda>_ es. True \<and> (\<forall>e\<in>set es. J (E \<union> set es) e))"
    using assms(2) by (simp add: safe_def)
  show "safe J (E \<union> set es) (f r)" for r and es :: "event list"
    using assms(3) by (rule safe_more[OF assms(1)]) blast
qed

lemma safe_return: "safe J E (ret x)"
  unfolding safe_def by (rule traces_return) simp

lemma safe_or_return_with:
  assumes "upward J" and "traces m (\<lambda>r es. R r es \<and> (\<forall>e\<in>set es. J (E \<union> set es) e))"
    and "\<And>x es. R (Inr x) es \<Longrightarrow> safe J (E \<union> set es) (f x)"
  shows "safe J E (or_return m f)"
  unfolding or_return_def
  by (rule safe_bind_with[OF assms(1,2)]) (auto simp: assms(3) safe_return split: sum.split)

lemma safe_or_return:
  assumes "upward J" and "safe J E m" and "\<And>x. safe J E (f x)"
  shows "safe J E (or_return m f)"
  unfolding or_return_def
  by (rule safe_bind[OF assms(1,2)]) (auto simp: assms(3) safe_return split: sum.split)

subsection \<open>The operations\<close>

lemma safe_if: "(b \<Longrightarrow> safe J E m) \<Longrightarrow> (\<not> b \<Longrightarrow> safe J E m') \<Longrightarrow> safe J E (if b then m else m')"
  by simp

lemma planAndApply_safe:
  assumes "upward J" and "\<And>reply. J E (apply_call k (obj, lbl) owner reply)"
  shows "safe J E (planAndApply k cfg obj lbl owner)"
proof (rule safe_only[OF assms(1)])
  have "J E e" if "\<not> is_write e" for e using that assms(1) unfolding upward_def by blast
  then show "calls_only (J E) (planAndApply k cfg obj lbl owner)"
    unfolding planAndApply_def
    by (intro only_rules ApplyUnstructured_rule)
      (use assms(2) in \<open>auto simp: apply_call_def Let_def\<close>)
qed

lemma apply_map_safe:
  assumes "upward J" and "\<And>name spec. map_of m name = Some spec \<Longrightarrow> safe J E (f name spec)"
  shows "safe J E (apply_map k f m plans)"
proof -
  have each: "safe J E (apply_each f kvs plans)" if "\<forall>(name, spec)\<in>set kvs. map_of m name = Some spec" for kvs plans
    using that
  proof (induction kvs arbitrary: plans)
    case (Cons kv kvs)
    obtain name spec where kv: "kv = (name, spec)" by fastforce
    with Cons.prems have "safe J E (f name spec)" using assms(2) by simp
    then show ?case
      unfolding kv apply_each.simps
      by (rule safe_bind[OF assms(1)]) (use Cons in \<open>auto simp: safe_return split: prod.split option.split\<close>)
  qed (simp add: safe_return)
  show ?thesis
    unfolding apply_map_def
  proof (rule safe_bind_with[OF assms(1)])
    show "traces (range_map k m) (\<lambda>kvs es.
        (es = [] \<and> (\<forall>(name, spec)\<in>set kvs. map_of m name = Some spec)) \<and> (\<forall>e\<in>set es. J (E \<union> set es) e))"
    proof (rule traces_range)
      fix kvs
      assume "mset kvs = mset (map (\<lambda>n. (n, the (map_of m n))) (map_keys m))"
      then have "set kvs = (\<lambda>n. (n, the (map_of m n))) ` dom (map_of m)"
        by (metis set_map set_mset_mset set_keys_dom)
      then show "([] = [] \<and> (\<forall>(name, spec)\<in>set kvs. map_of m name = Some spec)) \<and>
          (\<forall>e\<in>set []. J (E \<union> set []) e)" by auto
    qed
    show "safe J (E \<union> set es) (apply_each f kvs plans)"
      if "es = [] \<and> (\<forall>(name, spec)\<in>set kvs. map_of m name = Some spec)" for kvs es
      using that each[of kvs plans] by simp
  qed
qed

lemma prune_items_safe:
  assumes "upward J" and "\<And>u reply. u \<in> set items \<Longrightarrow> Name u \<notin> dom (map_of keep) \<Longrightarrow> J E (Deleted u reply)"
  shows "safe J E (prune_items k cfg keep items)"
  using assms(2)
proof (induction items)
  case (Cons item items)
  have rest: "safe J E (prune_items k cfg keep items)" by (rule Cons.IH) (use Cons.prems in auto)
  have "safe J E (delete_object k item)" if "map_of keep (Name item) = None"
    unfolding delete_object_def using that
    by (intro safe_only[OF assms(1)] only_call) (auto intro!: Cons.prems)
  with rest show ?case
    by (cases "map_of keep (Name item)")
      (auto intro!: safe_bind[OF assms(1)] simp: safe_return split: option.split)
qed (simp add: safe_return)

lemma prune_kinds_safe:
  assumes "upward J"
    and "\<And>E gvk u reply. gvk \<in> set gvks \<Longrightarrow> listed_unwanted E gvk ns (dom (map_of keep)) u \<Longrightarrow> J E (Deleted u reply)"
  shows "safe J E (prune_kinds k cfg ns ''device-based'' keep gvks)"
  using assms(2)
proof (induction gvks arbitrary: E)
  case (Cons gvk gvks)
  have read: "J E (ListedObjects g n l r)" for E g n l r
    using assms(1) unfolding upward_def by simp
  have rest: "safe J E (prune_kinds k cfg ns ''device-based'' keep gvks)" for E
    by (rule Cons.IH) (use Cons.prems in auto)
  let ?list = "ListedObjects (list_gvk gvk) (Some ns) (managed_selector ''device-based'')"
  show ?case
    unfolding prune_kinds.simps
  proof (rule safe_bind_with[OF assms(1)])
    show "traces (list_objects k (list_gvk gvk) (Some ns) (managed_selector ''device-based''))
        (\<lambda>r es. es = [?list r] \<and> (\<forall>e\<in>set es. J (E \<union> set es) e))"
      unfolding list_objects_def by (rule traces_call) (simp add: read)
    fix r :: "error + Unstructured list" and es
    assume es: "es = [?list r]"
    have "safe J (E \<union> set es) (prune_items k cfg keep items)" if "r = Inr items" for items
      by (rule prune_items_safe[OF assms(1)], rule Cons.prems)
        (use es that in \<open>auto simp: listed_unwanted_def\<close>)
    then show "safe J (E \<union> set es) (case r of Inl e \<Rightarrow> ret (Some e) | Inr items \<Rightarrow>
        prune_items k cfg keep items \<bind> (\<lambda>err. case err of Some e \<Rightarrow> ret (Some e)
          | None \<Rightarrow> prune_kinds k cfg ns ''device-based'' keep gvks))"
      by (auto intro!: safe_bind[OF assms(1)] rest simp: safe_return split: sum.split option.split)
  qed
qed (simp add: safe_return)

lemma updateDeviceStatuses_safe:
  assumes "upward J" and "\<And>d status r. d \<in> set devices \<Longrightarrow> J E (UpdatedDevice (d\<lparr>d_Status := status\<rparr>) r)"
  shows "safe J E (updateDeviceStatuses k cfg devices networks ok msg)"
proof (rule safe_only[OF assms(1)])
  have "calls_only P (device_statuses k cfg names ok msg devices)"
    if "\<And>d status r. d \<in> set devices \<Longrightarrow> P (UpdatedDevice (d\<lparr>d_Status := status\<rparr>) r)" for P names
    using that by (induction devices) (auto intro!: only_rules simp: update_device_def)
  then show "calls_only (J E) (updateDeviceStatuses k cfg devices networks ok msg)"
    unfolding updateDeviceStatuses_def by (simp add: assms(2))
qed

lemma updateNetworkStatuses_safe:
  assumes "upward J" and "\<And>n status r. n \<in> set networks \<Longrightarrow> J E (UpdatedNetwork (n\<lparr>n_Status := status\<rparr>) r)"
  shows "safe J E (updateNetworkStatuses k cfg networks ok msg)"
proof (rule safe_only[OF assms(1)])
  have "calls_only P (updateNetworkStatuses k cfg networks ok msg)"
    if "\<And>n status r. n \<in> set networks \<Longrightarrow> P (UpdatedNetwork (n\<lparr>n_Status := status\<rparr>) r)" for P
    using that by (induction networks) (auto intro!: only_rules simp: update_network_def)
  then show "calls_only (J E) (updateNetworkStatuses k cfg networks ok msg)"
    by (simp add: assms(2))
qed

lemma ensureAnchor_writes:
  "traces (ensureAnchor k cfg ns name lbl) (\<lambda>r es.
    (\<forall>e\<in>set es. \<exists>cm reply. e = AppliedConfigMap cm reply \<and> Name cm = name \<and> Namespace cm = ns \<and>
      Labels cm = lbl \<and> Data cm = anchor_data) \<and>
    (\<forall>a. r = Inr a \<longrightarrow> \<not> DryRun cfg \<longrightarrow> (\<exists>cm. AppliedConfigMap cm (Inr a) \<in> set es \<and> Namespace cm = ns)))"
  unfolding ensureAnchor_def Let_def by (intro trace_rules) auto

subsection \<open>The reconcile\<close>

lemma apply_free_radius_safe:
  assumes "\<not> DryRun cfg"
    and "AppliedConfigMap cm (Inr anchor) \<in> E" and "Namespace cm = DnsmasqResourcesNamespace cfg"
  shows "safe (justified k cfg out devices networks) E (apply_free_radius k cfg out anchor plans)"
proof (cases "EnableFreeRadiusDevices cfg")
  case False
  then show ?thesis by (simp add: apply_free_radius_def safe_return)
next
  case True
  let ?J = "justified k cfg out devices networks"
  let ?frNS = "FreeRadiusDevicesNamespace cfg"
  let ?owned = "\<lambda>E owner. \<exists>cm. AppliedConfigMap cm (Inr owner) \<in> E \<and> Namespace cm = ?frNS"
  have owner: "traces (free_radius_owner k cfg anchor) (\<lambda>r es.
      (\<forall>owner. r = Inr owner \<longrightarrow> ?owned (E \<union> set es) owner) \<and> (\<forall>e\<in>set es. ?J (E \<union> set es) e))"
  proof (cases "?frNS = DnsmasqResourcesNamespace cfg")
    case True
    with assms(2,3) show ?thesis by (auto simp: free_radius_owner_def intro!: traces_return)
  next
    case False
    then show ?thesis
      using assms(1) True
      by (simp add: free_radius_owner_def) (rule traces_conseq[OF ensureAnchor_writes], fastforce)
  qed
  have applies: "safe ?J E' (apply_map k (applyFreeRadius k cfg ?frNS owner) (out_FreeRadius out) plans)"
    if "?owned E' owner" for owner E'
  proof (rule apply_map_safe[OF upward_justified], unfold applyFreeRadius_def,
      rule planAndApply_safe[OF upward_justified])
    fix name spec reply
    assume "map_of (out_FreeRadius out) name = Some spec"
    then have "(free_radius_object name ?frNS spec, Managed ''device-based'' []) \<in> wanted k cfg out"
      using True by (auto simp: wanted_def wanted_radius_def)
    moreover have "Namespace (free_radius_object name ?frNS spec) = ?frNS"
      by (simp add: free_radius_object_def Let_def)
    ultimately have "owned_apply k (wanted k cfg out) E'
        (apply_call k (free_radius_object name ?frNS spec, Managed ''device-based'' []) owner reply)"
      using that unfolding owned_apply_def by (metis fst_conv)
    then show "?J E' (apply_call k (free_radius_object name ?frNS spec, Managed ''device-based'' []) owner reply)"
      by (simp add: apply_call_def Let_def)
  qed
  show ?thesis
    unfolding apply_free_radius_def using True
    by simp (rule safe_bind_with[OF upward_justified owner], auto simp: safe_return applies split: sum.split)
qed

lemma planAndApply_dnsmasq_safe:
  assumes "(obj, lbl) \<in> wanted_dnsmasq k cfg out" and "Namespace obj = DnsmasqResourcesNamespace cfg"
    and "AppliedConfigMap cm (Inr anchor) \<in> E" and "Namespace cm = DnsmasqResourcesNamespace cfg"
  shows "safe (justified k cfg out devices networks) E (planAndApply k cfg obj lbl anchor)"
proof (rule planAndApply_safe[OF upward_justified])
  fix reply
  have "owned_apply k (wanted k cfg out) E (apply_call k (obj, lbl) anchor reply)"
    using assms unfolding owned_apply_def wanted_def by (metis UnI1 fst_conv)
  then show "justified k cfg out devices networks E (apply_call k (obj, lbl) anchor reply)"
    by (simp add: apply_call_def Let_def)
qed

lemma prune_outputs_safe:
  "safe (justified k cfg out devices networks) E (prune_outputs k cfg out (desired_names out))"
proof -
  let ?J = "justified k cfg out devices networks"
  have keys: "dom (map_of (fold (\<lambda>name. map_set name ()) (map_keys m) [])) = dom (map_of m)"
    for m :: "(string, jobj) gomap"
    unfolding dom_fold_map_set set_keys_dom by simp
  have dnsmasq: "safe ?J E (prune_kinds k cfg (DnsmasqResourcesNamespace cfg) ''device-based''
      (desired_names out) [DhcpHostsGVK, DnsHostsGVK])"
    by (rule prune_kinds_safe[OF upward_justified]) (auto simp: dom_desired_names)
  have radius: "safe ?J E (prune_kinds k cfg (FreeRadiusDevicesNamespace cfg) ''device-based''
      (fold (\<lambda>name. map_set name ()) (map_keys (out_FreeRadius out)) []) [FreeRadiusDeviceGVK])"
    if "EnableFreeRadiusDevices cfg"
    by (rule prune_kinds_safe[OF upward_justified]) (simp add: keys that)
  show ?thesis
    unfolding prune_outputs_def pruneManaged_def Let_def
    by (simp del: prune_kinds.simps)
      (auto intro!: safe_bind[OF upward_justified dnsmasq] safe_bind[OF upward_justified radius]
        simp: safe_return simp del: prune_kinds.simps split: option.split)
qed

lemma reconcile_output_safe:
  assumes "\<not> DryRun cfg"
    and "AppliedConfigMap cm (Inr anchor) \<in> E" and "Namespace cm = DnsmasqResourcesNamespace cfg"
  shows "safe (justified k cfg out devices networks) E
    (reconcile_output k cfg logger out devices networks anchor)"
proof -
  let ?J = "justified k cfg out devices networks"
  let ?ns = "DnsmasqResourcesNamespace cfg"
  note up = upward_justified and plan = planAndApply_dnsmasq_safe[OF _ _ assms(2,3)]
  have options: "safe ?J E (applyDhcpOptions k cfg ?ns (out_DhcpOptions out) anchor)"
    unfolding applyDhcpOptions_def Let_def
    by (rule plan) (simp_all add: wanted_dnsmasq_def NewDhcpOptions_def Let_def)
  have dhcp: "safe ?J E (apply_map k (applyDhcpHosts k cfg ?ns anchor) (out_DhcpHosts out) plans)" for plans
    by (rule apply_map_safe[OF up], unfold applyDhcpHosts_def Let_def, rule plan)
      (auto simp: wanted_dnsmasq_def NewDhcpHosts_def Let_def)
  have dns: "safe ?J E (apply_map k (applyDnsHosts k cfg ?ns anchor) (out_DnsHosts out) plans)" for plans
    by (rule apply_map_safe[OF up], unfold applyDnsHosts_def Let_def, rule plan)
      (auto simp: wanted_dnsmasq_def NewDnsHosts_def Let_def)
  note radius = apply_free_radius_safe[OF assms]
  have devs: "safe ?J E (updateDeviceStatuses k cfg devices networks ok msg)" for ok msg
    by (rule updateDeviceStatuses_safe[OF up]) auto
  have nets: "safe ?J E (updateNetworkStatuses k cfg networks ok msg)" for ok msg
    by (rule updateNetworkStatuses_safe[OF up]) auto
  have log: "safe ?J E (log_info l line)" "safe ?J E (logReconcileSummary l d a plans)" for l line d a plans
    by (rule safe_reads[OF up], intro only_rules, simp)+
  show ?thesis
    unfolding reconcile_output_def Let_def
    by (rule safe_bind[OF up options])
      (auto intro!: safe_bind[OF up] safe_or_return[OF up]
        simp: log devs nets dhcp dns radius prune_outputs_safe safe_return split: option.split prod.split)
qed

lemma set_BuildDeviceBased:
  "BuildDeviceBased devices networks cfg = (out, devices', networks') \<Longrightarrow>
    out = device_output devices networks cfg \<and> set devices' = set devices \<and> set networks' = set networks"
  by (auto simp: BuildDeviceBased_def Let_def)

lemma DeviceReconciler_safe:
  "traces (DeviceReconciler_Reconcile k cfg req) (\<lambda>_ es. \<exists>devices networks.
    \<forall>e\<in>set es. is_write e \<longrightarrow>
      ListedDevices (req_Namespace req) (Inr devices) \<in> set es \<and>
      ListedNetworks (req_Namespace req) (Inr networks) \<in> set es \<and>
      justified k cfg (device_output devices networks cfg) devices networks (set es) e)"
  (is "traces _ (\<lambda>_ es. \<exists>devices networks. ?all devices networks es)")
proof (cases "DryRun cfg")
  case True
  from device_reconciler.dry_run[OF this] show ?thesis
    by (rule traces_conseq) (auto simp: list_all_iff)
next
  case False
  let ?ns = "req_Namespace req"
  have built: "traces (case BuildDeviceBased devices networks cfg of (out, devices, networks) \<Rightarrow>
      or_return (ensureAnchor k cfg (DnsmasqResourcesNamespace cfg) deviceAggregateName (Managed ''device-based'' []))
        (\<lambda>anchor. reconcile_output k cfg logger out devices networks anchor))
      (\<lambda>_ es. \<forall>e\<in>set es. justified k cfg (device_output devices networks cfg) devices networks (set es) e)"
    for devices networks logger
  proof (rule traces_case_prod, rule traces_case_prod)
    fix out p devices' networks'
    assume "BuildDeviceBased devices networks cfg = (out, p)" and "p = (devices', networks')"
    then have out: "out = device_output devices networks cfg" "set devices' = set devices"
        "set networks' = set networks"
      using set_BuildDeviceBased by blast+
    have "safe (justified k cfg out devices' networks') {} (or_return
        (ensureAnchor k cfg (DnsmasqResourcesNamespace cfg) deviceAggregateName (Managed ''device-based'' []))
        (\<lambda>anchor. reconcile_output k cfg logger out devices' networks' anchor))"
      by (rule safe_or_return_with[OF upward_justified, where R = "\<lambda>r es. \<forall>a. r = Inr a \<longrightarrow>
          (\<exists>cm. AppliedConfigMap cm (Inr a) \<in> set es \<and> Namespace cm = DnsmasqResourcesNamespace cfg)"])
        (rule traces_conseq[OF ensureAnchor_writes], use False in \<open>auto intro: reconcile_output_safe\<close>)
    moreover have "justified k cfg out devices' networks' E e = justified k cfg out devices networks E e" for E e
      using out by (cases e) simp_all
    ultimately show "traces (or_return
        (ensureAnchor k cfg (DnsmasqResourcesNamespace cfg) deviceAggregateName (Managed ''device-based'' []))
        (\<lambda>anchor. reconcile_output k cfg logger out devices' networks' anchor))
        (\<lambda>_ es. \<forall>e\<in>set es. justified k cfg (device_output devices networks cfg) devices networks (set es) e)"
      by (simp add: safe_def out(1))
  qed
  have listed: "traces (case BuildDeviceBased x y cfg of (out, devices, networks) \<Rightarrow>
      or_return (ensureAnchor k cfg (DnsmasqResourcesNamespace cfg) deviceAggregateName (Managed ''device-based'' []))
        (\<lambda>anchor. reconcile_output k cfg logger out devices networks anchor))
      (\<lambda>_ es. \<exists>devices networks. ?all devices networks
        (ListedDevices ?ns (Inr x) # ListedNetworks ?ns (Inr y) # es))" for x y logger
  proof (rule traces_conseq[OF built], intro exI ballI impI)
    fix es e
    let ?E = "set (ListedDevices ?ns (Inr x) # ListedNetworks ?ns (Inr y) # es)"
    assume J: "\<forall>e\<in>set es. justified k cfg (device_output x y cfg) x y (set es) e"
      and e: "e \<in> ?E" "is_write e"
    then have "e \<in> set es" by auto
    with J have "justified k cfg (device_output x y cfg) x y (set es) e" by blast
    then have "justified k cfg (device_output x y cfg) x y ?E e" by (rule justified_mono) auto
    then show "ListedDevices ?ns (Inr x) \<in> ?E \<and> ListedNetworks ?ns (Inr y) \<in> ?E \<and>
        justified k cfg (device_output x y cfg) x y ?E e"
      by simp
  qed
  show ?thesis
    unfolding DeviceReconciler_Reconcile_def reconcileNamespace_def list_devices_def list_networks_def Let_def
    by (intro traces_if traces_return gate_run_rule traces_bind[of "trigger_consume _"]
        trigger_consume_rule or_return_rule traces_call conjI allI impI)
      (simp_all only: listed append_Nil append_Cons, auto)
qed

text \<open>
  (C1) Soundness: whatever the cluster answers, every write of a device reconcile is justified by
  what it read. It writes only its anchor, in the namespaces of its objects and with its own labels
  and data; it applies only objects \<open>BuildDeviceBased\<close> wants for the devices and networks
  it listed, each with its management labels and owned by an anchor it has written in the
  object's own namespace; it deletes only objects it has just listed as managed by this aggregate
  and whose name is not wanted; and it updates only the status of the listed devices and networks.
\<close>

theorem device_writes_justified:
  assumes "run_state (DeviceReconciler_Reconcile k cfg req) s = (r, s')" and "trace s = []"
    and "e \<in> set (trace s')" and "is_write e"
  shows "\<exists>devices networks. ListedDevices (req_Namespace req) (Inr devices) \<in> set (trace s') \<and>
    ListedNetworks (req_Namespace req) (Inr networks) \<in> set (trace s') \<and>
    justified k cfg (device_output devices networks cfg) devices networks (set (trace s')) e"
  using traces_run[OF DeviceReconciler_safe assms(1,2)] assms(3,4) by blast

end
