(* ===== verification/Statuses.thy ===== *)
theory Statuses
  imports Reconcilers
begin

text \<open>
  What the status updates of the three controllers say and when they stop. The conditions are set
  by apimachinery's \<open>SetStatusCondition\<close>, whose documented behaviour is the function
  \<open>set_condition\<close> of a clock; a theorem that needs it has the hypothesis
  \<open>documented_SetStatusCondition\<close>. The update loops share the contract \<open>settling\<close>: a
  status that was computed is recognised by the next round, which then writes nothing.
\<close>

subsection \<open>SetStatusCondition\<close>

text \<open>
  A condition of the type is updated in place, with a new transition time if its status
  changes; without one the condition is appended. This is what happens to a condition that is
  given without a transition time, as the reconcilers always do.
\<close>

fun set_condition :: "go_time \<Rightarrow> Condition list \<Rightarrow> Condition \<Rightarrow> Condition list" where
  "set_condition now [] c = [c\<lparr>c_LastTransitionTime := Some now\<rparr>]"
| "set_condition now (x # xs) c =
    (if c_Type x = c_Type c
     then c\<lparr>c_LastTransitionTime :=
            (if c_Status x = c_Status c then c_LastTransitionTime x else Some now)\<rparr> # xs
     else x # set_condition now xs c)"

definition documented_SetStatusCondition :: "'w kube \<Rightarrow> ('w \<Rightarrow> go_time) \<Rightarrow> bool" where
  "documented_SetStatusCondition k clock \<longleftrightarrow>
    (\<forall>conds c w. c_LastTransitionTime c = None \<longrightarrow>
      (\<exists>w'. SetStatusCondition k conds c w = (set_condition (clock w') conds c, w') \<and> clock w \<le> clock w'))"

definition condition_of :: "string \<Rightarrow> Condition list \<Rightarrow> Condition option" where
  "condition_of ty conds = List.find (\<lambda>c. c_Type c = ty) conds"

lemma condition_of_set:
  "condition_of ty (set_condition now conds c) =
    (if ty = c_Type c
     then Some (c\<lparr>c_LastTransitionTime :=
       (case condition_of ty conds of
          None \<Rightarrow> Some now
        | Some x \<Rightarrow> if c_Status x = c_Status c then c_LastTransitionTime x else Some now)\<rparr>)
     else condition_of ty conds)"
  by (induction conds) (auto simp: condition_of_def)

text \<open>What \<open>conditionSliceEqual\<close> compares, and how it evolves.\<close>

definition condition_key :: "Condition \<Rightarrow> string \<times> ConditionStatus \<times> string" where
  "condition_key c = (c_Type c, c_Status c, c_Reason c)"

fun set_key :: "('a \<times> 'b) list \<Rightarrow> 'a \<times> 'b \<Rightarrow> ('a \<times> 'b) list" where
  "set_key [] p = [p]"
| "set_key (q # qs) p = (if fst q = fst p then p # qs else q # set_key qs p)"

lemma set_key_absorbs [simp]: "set_key (set_key ks (a, b)) (a, c) = set_key ks (a, c)"
  by (induction ks) auto

lemma set_key_other: "a \<noteq> a' \<Longrightarrow> set_key ks (a', c) = ks \<Longrightarrow> set_key (set_key ks (a, b)) (a', c) = set_key ks (a, b)"
  by (induction ks) (auto split: if_splits)

lemma keys_set_condition:
  "map condition_key (set_condition now conds c) = set_key (map condition_key conds) (condition_key c)"
  by (induction conds) (auto simp: condition_key_def)

lemma conditionSliceEqual_keys:
  "conditionSliceEqual a b \<longleftrightarrow> map condition_key a = map condition_key b"
proof -
  have "same_condition x y \<longleftrightarrow> condition_key x = condition_key y" for x y
    by (auto simp: same_condition_def condition_key_def)
  then have "conditionSliceEqual a b \<longleftrightarrow>
      length a = length b \<and> (\<forall>i<length a. condition_key (a ! i) = condition_key (b ! i))"
    by (simp add: conditionSliceEqual_def list_all_iff atLeast0LessThan Ball_def)
  also have "\<dots> \<longleftrightarrow> map condition_key a = map condition_key b"
    by (simp add: list_eq_iff_nth_eq cong: conj_cong)
  finally show ?thesis .
qed

lemma set_status_condition_rule:
  assumes "documented_SetStatusCondition k clock" and "\<And>now. Q (set_condition now conds c) []"
    and [simp]: "c_LastTransitionTime c = None"
  shows "traces (set_status_condition k conds c) Q"
  unfolding set_status_condition_def
proof (rule traces_known_call)
  fix w
  from assms(1) obtain now where "fst (SetStatusCondition k conds c w) = set_condition now conds c"
    unfolding documented_SetStatusCondition_def using assms(3) by (metis fst_conv)
  then show "Q (fst (SetStatusCondition k conds c w)) []" using assms(2) by simp
qed

lemma metav1_Now_rule [trace_rules]: "(\<And>t. Q t []) \<Longrightarrow> traces (metav1_Now k) Q"
  unfolding metav1_Now_def by (rule traces_call)

subsection \<open>What a computed status says\<close>

definition told :: "Condition \<Rightarrow> ConditionStatus \<times> string \<times> string" where
  "told c = (c_Status c, c_Reason c, c_Message c)"

text \<open>The conditions after one condition was set in them.\<close>

definition took :: "Condition list \<Rightarrow> Condition \<Rightarrow> Condition list \<Rightarrow> bool" where
  "took conds c conds' \<longleftrightarrow>
    map condition_key conds' = set_key (map condition_key conds) (condition_key c) \<and>
    map_option told (condition_of (c_Type c) conds') = Some (told c) \<and>
    (\<forall>ty. ty \<noteq> c_Type c \<longrightarrow> condition_of ty conds' = condition_of ty conds)"

lemma took_set_condition: "took conds c (set_condition now conds c)"
  by (simp add: took_def keys_set_condition condition_of_set told_def)

lemma took_again: "took a c b \<Longrightarrow> c_Type c = c_Type c' \<Longrightarrow> took a c' (set_condition now b c')"
  by (simp add: took_def keys_set_condition condition_of_set told_def condition_key_def)

definition network_condition :: "Network list \<Rightarrow> Device \<Rightarrow> Condition" where
  "network_condition networks dev =
    (if ds_Network (d_Spec dev) = [] then
       new_condition ''NetworkAvailable'' ConditionFalse ''NetworkNotSet'' ''spec.network is empty''
     else if ds_Network (d_Spec dev) \<in> Name ` set networks then
       new_condition ''NetworkAvailable'' ConditionTrue ''NetworkFound'' []
     else
       new_condition ''NetworkAvailable'' ConditionFalse ''NetworkMissing''
         ''Referenced network does not exist'')"

definition ready_condition :: "bool \<Rightarrow> string \<Rightarrow> Condition" where
  "ready_condition ready msg =
    (if ready then new_condition ''Ready'' ConditionTrue ''Synced'' []
     else new_condition ''Ready'' ConditionFalse ''NotSynced'' msg)"

lemmas condition_names = ConditionReady_def ConditionNetworkAvailable_def ConditionReasonSynced_def
  ConditionReasonNotSynced_def

lemma condition_types [simp]:
  "c_Type (network_condition networks dev) = ''NetworkAvailable''"
  "c_Type (ready_condition ready msg) = ''Ready''"
  by (simp_all add: network_condition_def ready_condition_def new_condition_def)

lemma net_names_iff [simp]: "map_of (net_names networks) name = None \<longleftrightarrow> name \<notin> Name ` set networks"
proof -
  have "dom (map_of (net_names networks)) = Name ` set networks"
    unfolding net_names_def set_keys_dom[symmetric] fold_map_set_keys by simp
  then show ?thesis by auto
qed

lemma network_available_rule:
  assumes "documented_SetStatusCondition k clock"
    and "\<And>conds'. took conds (network_condition networks dev) conds' \<Longrightarrow> Q conds' []"
  shows "traces (network_available k (net_names networks) dev conds) Q"
proof -
  note set = set_status_condition_rule[OF assms(1)]
  have last: "Q (set_condition t conds (network_condition networks dev)) []" for t
    by (intro assms(2) took_set_condition)
  have Q: "Q (set_condition t (set_condition t' conds c) (network_condition networks dev)) []"
    if "c_Type c = ''NetworkAvailable''" for t t' c
    using that by (auto intro!: assms(2) took_set_condition took_again[OF took_set_condition])
  show ?thesis
    unfolding network_available_def
    by (intro traces_bind set traces_if traces_return)
      (use last Q in \<open>auto simp: network_condition_def condition_names new_condition_def\<close>)
qed

lemma set_ready_rule:
  assumes "documented_SetStatusCondition k clock"
    and "\<And>conds sync. took (Conditions status) (ready_condition ready msg) conds \<Longrightarrow>
      (\<not> ready \<longrightarrow> sync = LastSyncTime status) \<Longrightarrow>
      Q (status\<lparr>Conditions := conds, LastSyncTime := sync\<rparr>) []"
  shows "traces (set_ready k ready msg status) Q"
proof (cases ready)
  case True
  then show ?thesis
    unfolding set_ready_def
    by simp (intro trace_rules set_status_condition_rule[OF assms(1)],
      auto intro!: assms(2) took_set_condition simp: ready_condition_def condition_names)
next
  case False
  have "Q (status\<lparr>Conditions := set_condition now (Conditions status) (ready_condition ready msg)\<rparr>) []" for now
    using assms(2)[OF took_set_condition, of "LastSyncTime status" now] by simp
  with False show ?thesis
    unfolding set_ready_def
    by simp (intro trace_rules set_status_condition_rule[OF assms(1)], simp_all add: ready_condition_def condition_names)
qed

lemma HomelabStatus_fields:
  "st\<lparr>Conditions := conds, LastSyncTime := sync, ObservedGeneration := gen\<rparr> =
    \<lparr>ObservedGeneration = gen, LastSyncTime = sync, Conditions = conds\<rparr>"
  by (cases st) simp

definition has_net :: "Network list \<Rightarrow> Device \<Rightarrow> bool" where
  "has_net networks dev \<longleftrightarrow>
    ds_Network (d_Spec dev) \<noteq> [] \<and> ds_Network (d_Spec dev) \<in> Name ` set networks"

definition device_message :: "string \<Rightarrow> string" where
  "device_message errMsg = (if errMsg = [] then ''Device not synced'' else errMsg)"

lemma device_ready_iff: "device_ready (net_names networks) ok dev \<longleftrightarrow> ok \<and> has_net networks dev"
  by (auto simp: device_ready_def has_net_def dest: iffD1[OF net_names_iff])

lemma device_status_rule:
  assumes "documented_SetStatusCondition k clock"
    and "\<And>mid conds sync. took (Conditions (d_Status dev)) (network_condition networks dev) mid \<Longrightarrow>
      took mid (ready_condition (ok \<and> has_net networks dev) (device_message errMsg)) conds \<Longrightarrow>
      (\<not> (ok \<and> has_net networks dev) \<longrightarrow> sync = LastSyncTime (d_Status dev)) \<Longrightarrow>
      Q \<lparr>ObservedGeneration = Generation dev, LastSyncTime = sync, Conditions = conds\<rparr> []"
  shows "traces (device_status k (net_names networks) ok errMsg dev) Q"
  unfolding device_status_def device_ready_iff Let_def device_message_def[symmetric]
proof (rule traces_bind, rule network_available_rule[OF assms(1)], rule traces_bind,
    rule set_ready_rule[OF assms(1)], rule traces_return, goal_cases)
  case (1 mid conds sync)
  then show ?case using assms(2)[of mid conds sync] by (simp add: HomelabStatus_fields)
qed

subsection \<open>Updates settle\<close>

text \<open>
  The contract of an update loop: \<open>status\<close> computes an object's status, \<open>put\<close> stores it in the
  object, and \<open>settled\<close> recognises an object whose stored status needs no write. A loop over
  settled objects makes no call, and a computed status is settled once it is stored.
\<close>

locale settling =
  fixes status :: "'w kube \<Rightarrow> 'o \<Rightarrow> ('w, HomelabStatus) prog"
    and loop :: "'w kube \<Rightarrow> 'o list \<Rightarrow> ('w, unit) prog"
    and put :: "'o \<Rightarrow> HomelabStatus \<Rightarrow> 'o"
    and settled :: "'o \<Rightarrow> bool"
  assumes loop_Nil: "traces (loop k []) (\<lambda>_ es. es = [])"
    and loop_settled: "documented_SetStatusCondition k clock \<Longrightarrow> settled x \<Longrightarrow>
      traces (loop k xs) (\<lambda>_ es. es = []) \<Longrightarrow> traces (loop k (x # xs)) (\<lambda>_ es. es = [])"
    and status_settles: "documented_SetStatusCondition k clock \<Longrightarrow>
      traces (status k x) (\<lambda>st es. settled (put x st))"
begin

lemma loop_quiet:
  "documented_SetStatusCondition k clock \<Longrightarrow> list_all settled xs \<Longrightarrow> traces (loop k xs) (\<lambda>_ es. es = [])"
  by (induction xs) (auto intro: loop_Nil loop_settled)

lemma computed_settled:
  assumes "documented_SetStatusCondition k clock"
  shows "settled (put x (fst (run_state (status k x) s)))"
  using status_settles[OF assms] unfolding traces_def by blast

lemma written_once:
  assumes "documented_SetStatusCondition k clock"
    and "\<And>y. y \<in> set ys \<Longrightarrow> \<exists>x s. y = put x (fst (run_state (status k x) s))"
  shows "traces (loop k ys) (\<lambda>_ es. es = [])"
  by (rule loop_quiet[OF assms(1)])
    (use assms computed_settled[OF assms(1)] in \<open>fastforce simp: list_all_iff\<close>)

end

definition keys_of :: "HomelabStatus \<Rightarrow> (string \<times> ConditionStatus \<times> string) list" where
  "keys_of st = map condition_key (Conditions st)"

definition ready_key :: "bool \<Rightarrow> string \<times> ConditionStatus \<times> string" where
  "ready_key ready =
    (if ready then (''Ready'', ConditionTrue, ''Synced'') else (''Ready'', ConditionFalse, ''NotSynced''))"

lemma ready_key_message: "condition_key (ready_condition ready msg) = ready_key ready"
  by (simp add: ready_condition_def condition_key_def new_condition_def ready_key_def)

definition ready_settled :: "bool \<Rightarrow> HomelabStatus \<Rightarrow> bool" where
  "ready_settled ready st \<longleftrightarrow> set_key (keys_of st) (ready_key ready) = keys_of st"

definition device_settled :: "Network list \<Rightarrow> bool \<Rightarrow> Device \<Rightarrow> bool" where
  "device_settled networks ok dev \<longleftrightarrow>
    ObservedGeneration (d_Status dev) = Generation dev \<and>
    ready_settled (ok \<and> has_net networks dev) (d_Status dev) \<and>
    set_key (keys_of (d_Status dev)) (condition_key (network_condition networks dev)) = keys_of (d_Status dev)"

lemma took_keys: "took conds c conds' \<Longrightarrow> map condition_key conds' = set_key (map condition_key conds) (condition_key c)"
  by (simp add: took_def)

lemma condition_key_types:
  "fst (condition_key (network_condition networks dev)) = ''NetworkAvailable''"
  "fst (ready_key ready) = ''Ready''"
  by (simp_all add: condition_key_def ready_key_def)

lemma set_key_order:
  "fst p \<noteq> fst q \<Longrightarrow> set_key (set_key (set_key ks p) q) p = set_key (set_key ks p) q"
  by (induction ks) (cases p; cases q; auto)+

lemma set_key_again [simp]: "set_key (set_key ks p) p = set_key ks p"
  by (cases p) simp

lemma has_net_status [simp]: "has_net networks (dev\<lparr>d_Status := st\<rparr>) = has_net networks dev"
  by (simp add: has_net_def)

lemma network_condition_status [simp]:
  "network_condition networks (dev\<lparr>d_Status := st\<rparr>) = network_condition networks dev"
  by (simp add: network_condition_def)

lemma device_status_settles:
  assumes "documented_SetStatusCondition k clock"
  shows "traces (device_status k (net_names networks) ok msg dev)
    (\<lambda>st es. device_settled networks ok (dev\<lparr>d_Status := st\<rparr>))"
proof (rule device_status_rule[OF assms])
  fix mid conds sync
  let ?st = "\<lparr>ObservedGeneration = Generation dev, LastSyncTime = sync, Conditions = conds\<rparr>"
  let ?n = "condition_key (network_condition networks dev)"
  let ?r = "ready_key (ok \<and> has_net networks dev)"
  assume "took (Conditions (d_Status dev)) (network_condition networks dev) mid"
    and "took mid (ready_condition (ok \<and> has_net networks dev) (device_message msg)) conds"
  then have "keys_of ?st = set_key (set_key (map condition_key (Conditions (d_Status dev))) ?n) ?r"
    by (simp add: keys_of_def took_keys ready_key_message)
  moreover have "fst ?n \<noteq> fst ?r" by (simp only: condition_key_types) simp
  ultimately show "device_settled networks ok (dev\<lparr>d_Status := ?st\<rparr>)"
    by (simp add: device_settled_def ready_settled_def set_key_order del: fst_conv)
qed

lemma device_settled_unchanged:
  assumes "documented_SetStatusCondition k clock" and "device_settled networks ok dev"
  shows "traces (device_status k (net_names networks) ok msg dev)
    (\<lambda>st es. es = [] \<and> status_unchanged (d_Status dev) st)"
proof (rule device_status_rule[OF assms(1)])
  fix mid conds sync
  assume "took (Conditions (d_Status dev)) (network_condition networks dev) mid"
    and "took mid (ready_condition (ok \<and> has_net networks dev) (device_message msg)) conds"
  with assms(2) show "[] = [] \<and> status_unchanged (d_Status dev)
      \<lparr>ObservedGeneration = Generation dev, LastSyncTime = sync, Conditions = conds\<rparr>"
    by (simp add: device_settled_def ready_settled_def keys_of_def status_unchanged_def
        conditionSliceEqual_keys took_keys ready_key_message)
qed

interpretation device_updates: settling
  "\<lambda>k. device_status k (net_names networks) ok msg"
  "\<lambda>k devs. updateDeviceStatuses k cfg devs networks ok msg'"
  "\<lambda>dev st. dev\<lparr>d_Status := st\<rparr>" "device_settled networks ok"
  for networks ok msg cfg msg'
proof unfold_locales
  fix k :: "'w kube" and clock x xs
  assume doc: "documented_SetStatusCondition k clock" and x: "device_settled networks ok x"
    and xs: "traces (updateDeviceStatuses k cfg xs networks ok msg') (\<lambda>_ es. es = [])"
  show "traces (updateDeviceStatuses k cfg (x # xs) networks ok msg') (\<lambda>_ es. es = [])"
    unfolding updateDeviceStatuses_def device_statuses.simps
    by (rule traces_seq[OF device_settled_unchanged[OF doc x]])
      (use xs in \<open>simp add: updateDeviceStatuses_def bind_left_identity\<close>)
qed (simp_all add: updateDeviceStatuses_def traces_return device_status_settles)

text \<open>Networks and routers have the condition \<open>Ready\<close> alone; only networks record the generation.\<close>

lemma network_status_rule:
  assumes "documented_SetStatusCondition k clock"
    and "\<And>conds sync. took (Conditions (n_Status net)) (ready_condition ok msg) conds \<Longrightarrow>
      Q \<lparr>ObservedGeneration = Generation net, LastSyncTime = sync, Conditions = conds\<rparr> []"
  shows "traces (network_status k ok msg net) Q"
  unfolding network_status_def
  by (rule traces_bind, rule set_ready_rule[OF assms(1)], rule traces_return)
    (simp add: HomelabStatus_fields assms(2))

lemma router_status_rule:
  assumes "documented_SetStatusCondition k clock"
    and "\<And>conds sync. took (Conditions (ir_Status ir)) (ready_condition ok msg) conds \<Longrightarrow>
      Q \<lparr>ObservedGeneration = Generation ir, LastSyncTime = sync, Conditions = conds\<rparr> []"
  shows "traces (router_status k ok msg ir) Q"
  unfolding router_status_def
  by (rule traces_bind, rule set_ready_rule[OF assms(1)], rule traces_return)
    (simp add: HomelabStatus_fields assms(2))

definition network_settled :: "bool \<Rightarrow> Network \<Rightarrow> bool" where
  "network_settled ok net \<longleftrightarrow>
    ObservedGeneration (n_Status net) = Generation net \<and> ready_settled ok (n_Status net)"

definition router_settled :: "bool \<Rightarrow> IngressRouter \<Rightarrow> bool" where
  "router_settled ok ir \<longleftrightarrow> ready_settled ok (ir_Status ir)"

interpretation network_updates: settling
  "\<lambda>k. network_status k ok msg" "\<lambda>k nets. updateNetworkStatuses k cfg nets ok msg'"
  "\<lambda>net st. net\<lparr>n_Status := st\<rparr>" "network_settled ok"
  for ok msg cfg msg'
proof unfold_locales
  fix k :: "'w kube" and clock x xs
  assume doc: "documented_SetStatusCondition k clock" and x: "network_settled ok x"
    and xs: "traces (updateNetworkStatuses k cfg xs ok msg') (\<lambda>_ es. es = [])"
  have "traces (network_status k ok msg' x) (\<lambda>st es. es = [] \<and> status_unchanged (n_Status x) st)"
    by (rule network_status_rule[OF doc]) (use x in \<open>simp add: network_settled_def ready_settled_def
      keys_of_def status_unchanged_def conditionSliceEqual_keys took_keys ready_key_message\<close>)
  then show "traces (updateNetworkStatuses k cfg (x # xs) ok msg') (\<lambda>_ es. es = [])"
    unfolding updateNetworkStatuses.simps by (rule traces_seq) (use xs in simp)
next
  fix k :: "'w kube" and clock x
  assume doc: "documented_SetStatusCondition k clock"
  show "traces (network_status k ok msg x) (\<lambda>st es. network_settled ok (x\<lparr>n_Status := st\<rparr>))"
    by (rule network_status_rule[OF doc])
      (simp add: network_settled_def ready_settled_def keys_of_def took_keys ready_key_message)
qed (simp add: traces_return)

interpretation router_updates: settling
  "\<lambda>k. router_status k ok msg" "\<lambda>k irs. updateRouterStatuses k cfg irs ok msg'"
  "\<lambda>ir st. ir\<lparr>ir_Status := st\<rparr>" "router_settled ok"
  for ok msg cfg msg'
proof unfold_locales
  fix k :: "'w kube" and clock x xs
  assume doc: "documented_SetStatusCondition k clock" and x: "router_settled ok x"
    and xs: "traces (updateRouterStatuses k cfg xs ok msg') (\<lambda>_ es. es = [])"
  have "traces (router_status k ok msg' x)
      (\<lambda>st es. es = [] \<and> conditionSliceEqual (Conditions (ir_Status x)) (Conditions st))"
    by (rule router_status_rule[OF doc]) (use x in \<open>simp add: router_settled_def ready_settled_def
      keys_of_def conditionSliceEqual_keys took_keys ready_key_message\<close>)
  then show "traces (updateRouterStatuses k cfg (x # xs) ok msg') (\<lambda>_ es. es = [])"
    unfolding updateRouterStatuses.simps by (rule traces_seq) (use xs in simp)
next
  fix k :: "'w kube" and clock x
  assume doc: "documented_SetStatusCondition k clock"
  show "traces (router_status k ok msg x) (\<lambda>st es. router_settled ok (x\<lparr>ir_Status := st\<rparr>))"
    by (rule router_status_rule[OF doc])
      (simp add: router_settled_def ready_settled_def keys_of_def took_keys ready_key_message)
qed (simp add: traces_return)

text \<open>
  (C22) No status churn: a reconcile that finds on every device the status an earlier one computed
  for the same networks and outcome updates no device, whatever the clock says meanwhile, so the
  event of a status update does not cause another. The error message is not compared: a
  reconcile that fails with another message leaves the old message in place.
\<close>

theorem device_statuses_settle:
  assumes "documented_SetStatusCondition k clock"
    and "\<And>dev. dev \<in> set devices \<Longrightarrow> \<exists>dev0 s0. dev = dev0\<lparr>d_Status :=
      fst (run_state (device_status k (net_names networks) ok msg dev0) s0)\<rparr>"
  shows "traces (updateDeviceStatuses k cfg devices networks ok msg') (\<lambda>_ es. es = [])"
  using assms by (rule device_updates.written_once)

text \<open>
  The status of a router settles as well, but too early: its generation is not compared, so a
  router whose spec has changed since keeps the observed generation of the old spec as long as
  its conditions stay the same. (Devices and networks compare both.)
\<close>

theorem router_generation_stale:
  assumes "documented_SetStatusCondition k clock"
    and "\<And>ir. ir \<in> set routers \<Longrightarrow> \<exists>ir0 s0 gen. ir = ir0\<lparr>Generation := gen, ir_Status :=
      fst (run_state (router_status k ok msg ir0) s0)\<rparr>"
  shows "traces (updateRouterStatuses k cfg routers ok msg') (\<lambda>_ es. es = [])"
proof (rule router_updates.loop_quiet[OF assms(1)], unfold list_all_iff, rule ballI)
  fix ir assume "ir \<in> set routers"
  from assms(2)[OF this] obtain ir0 s0 gen where
    ir: "ir = ir0\<lparr>Generation := gen, ir_Status := fst (run_state (router_status k ok msg ir0) s0)\<rparr>"
    by blast
  have "router_settled ok (ir0\<lparr>ir_Status := fst (run_state (router_status k ok msg ir0) s0)\<rparr>)"
    by (rule router_updates.computed_settled[OF assms(1)])
  then show "router_settled ok ir" by (simp add: ir router_settled_def)
qed

text \<open>
  The transition time of \<open>NetworkAvailable\<close> is not when the network became available: a
  device whose network exists gets a new one from every update, because the condition is set to
  false and back to true each time.
\<close>

theorem network_available_restamped:
  assumes "documented_SetStatusCondition k clock" and "has_net networks dev"
    and "run_state (network_available k (net_names networks) dev conds) s = (conds', s')"
  shows "\<exists>t. clock (world s) \<le> t \<and>
    map_option c_LastTransitionTime (condition_of ''NetworkAvailable'' conds') = Some (Some t)"
proof -
  note set = assms(1)[unfolded documented_SetStatusCondition_def, rule_format]
  let ?c1 = "new_condition ConditionNetworkAvailable ConditionFalse ''NetworkMissing'' ''Referenced network does not exist''"
  let ?c2 = "new_condition ConditionNetworkAvailable ConditionTrue ''NetworkFound'' []"
  obtain w1 where w1: "SetStatusCondition k conds ?c1 (world s) = (set_condition (clock w1) conds ?c1, w1)"
      "clock (world s) \<le> clock w1"
    using set[of ?c1 conds "world s"] by auto
  let ?mid = "set_condition (clock w1) conds ?c1"
  obtain w2 where w2: "SetStatusCondition k ?mid ?c2 w1 = (set_condition (clock w2) ?mid ?c2, w2)"
      "clock w1 \<le> clock w2"
    using set[of ?c2 ?mid w1] by auto
  have "map_of (net_names networks) (ds_Network (d_Spec dev)) \<noteq> None" "ds_Network (d_Spec dev) \<noteq> []"
    using assms(2) by (auto simp: has_net_def simp del: not_None_eq)
  then have "conds' = set_condition (clock w2) ?mid ?c2"
    using assms(3) by (simp add: network_available_def set_status_condition_def run_call w1 w2 del: not_None_eq)
  then show ?thesis
    using w1(2) w2(2)
    by (auto simp: condition_of_set ConditionNetworkAvailable_def new_condition_def intro!: exI[of _ "clock w2"])
qed

end
