(* ===== verification/StatusReports.thy ===== *)
theory StatusReports
  imports Statuses DeviceSafety
begin

text \<open>
  What the statuses a device reconcile writes tell: which devices are updated, and what their
  conditions say of the reconcile's outcome and of the networks it listed.
\<close>

definition tells :: "Network list \<Rightarrow> error option \<Rightarrow> Device \<Rightarrow> bool" where
  "tells networks err dev \<longleftrightarrow>
    ObservedGeneration (d_Status dev) = Generation dev \<and>
    map_option told (condition_of ''Ready'' (Conditions (d_Status dev))) = Some
      (if err = None \<and> has_net networks dev then (ConditionTrue, ''Synced'', [])
       else (ConditionFalse, ''NotSynced'',
         case err of None \<Rightarrow> ''Device not synced'' | Some e \<Rightarrow> device_message (Error e))) \<and>
    map_option told (condition_of ''NetworkAvailable'' (Conditions (d_Status dev))) = Some
      (if ds_Network (d_Spec dev) = [] then (ConditionFalse, ''NetworkNotSet'', ''spec.network is empty'')
       else if has_net networks dev then (ConditionTrue, ''NetworkFound'', [])
       else (ConditionFalse, ''NetworkMissing'', ''Referenced network does not exist''))"

definition status_of :: "Device \<Rightarrow> Device \<Rightarrow> bool" where
  "status_of dev0 dev \<longleftrightarrow> dev = dev0\<lparr>d_Status := d_Status dev\<rparr>"

lemma told_simps:
  "told (ready_condition ready msg) =
    (if ready then (ConditionTrue, ''Synced'', []) else (ConditionFalse, ''NotSynced'', msg))"
  "told (network_condition networks dev) =
    (if ds_Network (d_Spec dev) = [] then (ConditionFalse, ''NetworkNotSet'', ''spec.network is empty'')
     else if has_net networks dev then (ConditionTrue, ''NetworkFound'', [])
     else (ConditionFalse, ''NetworkMissing'', ''Referenced network does not exist''))"
  by (simp_all add: told_def ready_condition_def network_condition_def new_condition_def has_net_def)

lemma took_told:
  assumes "took a (network_condition networks dev) b" and "took b (ready_condition ready msg) c"
  shows "map_option told (condition_of ''Ready'' c) = Some (told (ready_condition ready msg))"
    and "map_option told (condition_of ''NetworkAvailable'' c) = Some (told (network_condition networks dev))"
  using assms unfolding took_def condition_types by simp_all

lemma device_status_tells:
  assumes "documented_SetStatusCondition k clock"
  shows "traces (device_status k (net_names networks) (err = None)
      (case err of None \<Rightarrow> [] | Some e \<Rightarrow> Error e) dev)
    (\<lambda>st es. es = [] \<and> tells networks err (dev\<lparr>d_Status := st\<rparr>))"
proof (rule device_status_rule[OF assms])
  fix mid conds sync
  let ?st = "\<lparr>ObservedGeneration = Generation dev, LastSyncTime = sync, Conditions = conds\<rparr>"
  assume "took (Conditions (d_Status dev)) (network_condition networks dev) mid"
    and "took mid (ready_condition (err = None \<and> has_net networks dev)
      (device_message (case err of None \<Rightarrow> [] | Some e \<Rightarrow> Error e))) conds"
  note told = took_told[OF this]
  show "[] = [] \<and> tells networks err (dev\<lparr>d_Status := ?st\<rparr>)"
    unfolding tells_def
    by (cases err) (simp_all add: told told_simps device_message_def del: map_option_eq_Some)
qed

text \<open>The reports of a program's device updates, given the error it returns.\<close>

definition reports :: "(error option \<Rightarrow> Device \<Rightarrow> bool) \<Rightarrow> 'a \<times> error option \<Rightarrow> event list \<Rightarrow> bool" where
  "reports T y es \<longleftrightarrow> (\<forall>dev r. UpdatedDevice dev r \<in> set es \<longrightarrow> T (snd y) dev)"

fun not_device_update :: "event \<Rightarrow> bool" where
  "not_device_update (UpdatedDevice _ _) = False"
| "not_device_update _ = True"

lemma reports_quiet: "list_all not_device_update es \<Longrightarrow> reports T y (es @ es') = reports T y es'"
  by (auto simp: reports_def list_all_iff)

lemma or_return_reports:
  assumes "calls_only not_device_update m" and "\<And>x. traces (f x) (reports T)"
  shows "traces (or_return m f) (reports T)"
  unfolding or_return_def
  by (rule traces_seq[OF assms(1)], rule traces_case_sum)
    (auto simp: reports_quiet reports_def[of _ _ "[]"] intro!: traces_return assms(2))

lemma device_statuses_reports:
  assumes "documented_SetStatusCondition k clock"
  shows "traces (updateDeviceStatuses k cfg devices networks (err = None)
      (case err of None \<Rightarrow> [] | Some e \<Rightarrow> Error e))
    (\<lambda>_. reports (\<lambda>err dev. (\<exists>dev0\<in>set devices. status_of dev0 dev) \<and> tells networks err dev) ((), err))"
  unfolding updateDeviceStatuses_def
proof (induction devices)
  case (Cons dev devices)
  show ?case
    unfolding device_statuses.simps update_device_def
    by (rule traces_seq[OF device_status_tells[OF assms]])
      (intro traces_bind traces_if traces_return traces_call, (rule traces_conseq[OF Cons];
        auto simp: reports_def status_of_def)+)
qed (simp add: traces_return reports_def)

lemma apply_quiet:
  "calls_only not_device_update (planAndApply k cfg obj lbl owner)"
  "calls_only not_device_update (ensureAnchor k cfg ns name lbl')"
  by (intro only_rules; simp)+

lemma quiet_options: "calls_only not_device_update (applyDhcpOptions k cfg ns spec anchor)"
  unfolding apply_defs Let_def by (intro only_rules) simp_all

lemma quiet_dhcp: "calls_only not_device_update (apply_map k (applyDhcpHosts k cfg ns anchor) m plans)"
  unfolding apply_defs Let_def by (intro only_rules) simp_all

lemma quiet_dns: "calls_only not_device_update (apply_map k (applyDnsHosts k cfg ns anchor) m plans)"
  unfolding apply_defs Let_def by (intro only_rules) simp_all

lemma quiet_radius: "calls_only not_device_update (apply_free_radius k cfg out anchor plans)"
  unfolding apply_defs apply_free_radius_def free_radius_owner_def Let_def by (intro only_rules) simp_all

lemma quiet_prune: "calls_only not_device_update (prune_outputs k cfg out names)"
  unfolding prune_outputs_def pruneManaged_def Let_def by (intro only_rules) simp_all

lemmas quiet_applies = quiet_dhcp quiet_dns quiet_radius quiet_prune

lemma traces_result:
  assumes "calls_only (\<lambda>_. True) m" and "\<And>x. traces (f x) (\<lambda>y es. Q y)"
  shows "traces (m \<bind> f) (\<lambda>y es. Q y)"
  by (rule traces_seq[OF assms(1)]) (rule assms(2))

lemma reconcile_output_reports:
  assumes "documented_SetStatusCondition k clock"
  shows "traces (reconcile_output k cfg logger out devices networks anchor)
    (reports (\<lambda>err dev. (\<exists>dev0\<in>set devices. status_of dev0 dev) \<and> tells networks err dev))"
    (is "traces _ (reports ?T)")
proof -
  note update = device_statuses_reports[OF assms, where cfg = cfg and devices = devices and networks = networks]
  have failed: "traces (do {
      log_info logger (LogError msg e);
      updateDeviceStatuses k cfg devices networks False (Error e);
      ret (no_result, Some e) }) (reports ?T)" for msg e
    by (rule traces_bind, rule traces_log, rule traces_bind, rule traces_conseq[OF update[where err = "Some e", simplified]],
        rule traces_return) (auto simp: reports_def)
  have report: "traces (do {
      updateDeviceStatuses k cfg devices networks True [];
      updateNetworkStatuses k cfg networks True [];
      logReconcileSummary l dryRun aggregate plans;
      ret (no_result, None) }) (reports ?T)" for l dryRun aggregate plans
  proof (rule traces_seq[OF update[where err = None, simplified]])
    fix x es assume es: "reports ?T ((), None) es"
    have "calls_only not_device_update (do {
        updateNetworkStatuses k cfg networks True [];
        logReconcileSummary l dryRun aggregate plans;
        ret (no_result, None :: error option) })"
      by (intro only_rules; simp)
    moreover have "traces (do {
        updateNetworkStatuses k cfg networks True [];
        logReconcileSummary l dryRun aggregate plans;
        ret (no_result, None :: error option) }) (\<lambda>y es. snd y = None)"
      by (intro traces_result traces_return only_rules) simp_all
    ultimately show "traces (do {
        updateNetworkStatuses k cfg networks True [];
        logReconcileSummary l dryRun aggregate plans;
        ret (no_result, None) }) (\<lambda>y es'. reports ?T y (es @ es'))"
      by (rule traces_conseq[OF traces_conj]) (use es in \<open>auto simp: reports_def list_all_iff\<close>)
  qed
  show ?thesis
    unfolding reconcile_output_def Let_def
  proof (rule traces_seq[OF quiet_options], intro traces_case_prod traces_case_option, goal_cases)
    case (1 r es plan err)
    then show ?case
      by (simp add: reports_quiet) (intro or_return_reports quiet_applies report)
  next
    case (2 r es plan err e)
    then show ?case by (simp add: reports_quiet failed)
  qed
qed

text \<open>
  (C12) The statuses are true: a device reconcile updates only devices it has listed, and nothing
  but their status. The status is for the device's current generation; \<open>Ready\<close> is true exactly
  when the reconcile returns no error and the device's network is among those listed, and carries
  the error otherwise; \<open>NetworkAvailable\<close> says whether the device names a network and whether
  it is among those listed.
\<close>

theorem device_status_truthful:
  assumes "documented_SetStatusCondition k clock"
    and "run_state (DeviceReconciler_Reconcile k cfg req) s = ((res, err), s')" and "trace s = []"
    and "UpdatedDevice dev r \<in> set (trace s')"
  shows "\<exists>devices networks. ListedDevices (req_Namespace req) (Inr devices) \<in> set (trace s') \<and>
    ListedNetworks (req_Namespace req) (Inr networks) \<in> set (trace s') \<and>
    (\<exists>dev0\<in>set devices. status_of dev0 dev) \<and> tells networks err dev"
proof -
  let ?T = "\<lambda>devices networks err dev. (\<exists>dev0\<in>set devices. status_of dev0 dev) \<and> tells networks err dev"
  let ?ns = "req_Namespace req"
  have tells_cong: "tells networks' = tells networks" if "set networks' = set networks" for networks networks'
    using that by (auto simp: tells_def has_net_def fun_eq_iff)
  have built: "traces (case BuildDeviceBased devices networks cfg of (out, devices, networks) \<Rightarrow>
      or_return (ensureAnchor k cfg ns deviceAggregateName lbl)
        (\<lambda>anchor. reconcile_output k cfg logger out devices networks anchor))
      (reports (?T devices networks))" for devices networks ns lbl logger
  proof (intro traces_case_prod or_return_reports apply_quiet)
    fix out p devices' networks' anchor
    assume "BuildDeviceBased devices networks cfg = (out, p)" and "p = (devices', networks')"
    then have "set devices' = set devices" "tells networks' = tells networks"
      using set_BuildDeviceBased tells_cong by blast+
    with reconcile_output_reports[OF assms(1), of cfg logger out devices' networks' anchor]
    show "traces (reconcile_output k cfg logger out devices' networks' anchor) (reports (?T devices networks))"
      by simp
  qed
  define G where "G y es \<longleftrightarrow> (\<forall>dev r. UpdatedDevice dev r \<in> set es \<longrightarrow> (\<exists>devices networks.
      ListedDevices ?ns (Inr devices) \<in> set es \<and> ListedNetworks ?ns (Inr networks) \<in> set es \<and>
      ?T devices networks (snd y) dev))" for y :: "Result \<times> error option" and es
  have listed: "traces (case BuildDeviceBased x y cfg of (out, devices, networks) \<Rightarrow>
      or_return (ensureAnchor k cfg ns deviceAggregateName lbl)
        (\<lambda>anchor. reconcile_output k cfg logger out devices networks anchor))
      (\<lambda>z es. G z (ListedDevices ?ns (Inr x) # ListedNetworks ?ns (Inr y) # es))" for x y ns lbl logger
  proof (rule traces_conseq[OF built], unfold G_def, intro allI impI)
    fix z :: "Result \<times> error option" and es dev r
    assume "reports (?T x y) z es"
      and "UpdatedDevice dev r \<in> set (ListedDevices ?ns (Inr x) # ListedNetworks ?ns (Inr y) # es)"
    then have "?T x y (snd z) dev" by (simp add: reports_def) blast
    then show "\<exists>devices networks.
        ListedDevices ?ns (Inr devices) \<in> set (ListedDevices ?ns (Inr x) # ListedNetworks ?ns (Inr y) # es) \<and>
        ListedNetworks ?ns (Inr networks) \<in> set (ListedDevices ?ns (Inr x) # ListedNetworks ?ns (Inr y) # es) \<and>
        ?T devices networks (snd z) dev"
      by (intro exI[of _ x] exI[of _ y]) simp
  qed
  have "traces (DeviceReconciler_Reconcile k cfg req) G"
    unfolding DeviceReconciler_Reconcile_def reconcileNamespace_def list_devices_def list_networks_def Let_def
    by (intro traces_if traces_return gate_run_rule traces_bind[of "trigger_consume _"]
        trigger_consume_rule or_return_rule traces_call conjI allI impI)
      (simp_all only: listed append_Nil append_Cons, auto simp: G_def)
  from traces_run[OF this assms(2,3)] assms(4) show ?thesis by (simp add: G_def) blast
qed

end
