(* ===== verification/AggregateRuns.thy ===== *)
theory AggregateRuns
  imports DeviceOutcome
begin

text \<open>
  The runs of the two cluster-wide reconcilers, call by call. Each writes its anchor, reads its
  inputs, plans and applies one object, and reports; the predicates below spell out the calls of
  such a run with their answers. A run stops at the first call that failed and returns its error.
\<close>

subsection \<open>One object\<close>

text \<open>What makes the plan of an object fail, given the answer to its read.\<close>

definition plan_error :: "'w kube \<Rightarrow> Unstructured \<Rightarrow> error + Unstructured \<Rightarrow> error option" where
  "plan_error k obj r =
    (case r of
       Inl e \<Rightarrow> if absent k e then None else Some e
     | Inr current \<Rightarrow> (case compare_specs k obj current of Inl e \<Rightarrow> Some e | Inr _ \<Rightarrow> None))"

definition object_run :: "'w kube \<Rightarrow> request \<Rightarrow> ConfigMap \<Rightarrow> (event list \<Rightarrow> bool) \<Rightarrow> error option \<Rightarrow>
    event list \<Rightarrow> bool" where
  "object_run k rq anchor report err es \<longleftrightarrow>
    (\<exists>r es'. es = Got (u_GVK (fst rq)) (Namespace (fst rq)) (Name (fst rq)) r # es' \<and>
      (case plan_error k (fst rq) r of
         Some e \<Rightarrow> err = Some e \<and> es' = []
       | None \<Rightarrow> \<exists>reply es''. es' = apply_call k rq anchor reply # es'' \<and>
           (case reply of
              Inl e \<Rightarrow> err = Some e \<and> es'' = []
            | Inr _ \<Rightarrow> err = None \<and> report es'')))"

text \<open>The anchor's write, and how a run goes on with its reply.\<close>

definition anchored_run :: "string \<Rightarrow> string \<Rightarrow> string \<Rightarrow> (ConfigMap \<Rightarrow> error option \<Rightarrow> event list \<Rightarrow> bool) \<Rightarrow>
    error option \<Rightarrow> event list \<Rightarrow> bool" where
  "anchored_run name ns aggregate rest err es \<longleftrightarrow>
    (\<exists>cm reply es'. es = AppliedConfigMap cm reply # es' \<and>
      Name cm = name \<and> Namespace cm = ns \<and> Labels cm = Managed aggregate [] \<and>
      (case reply of Inl e \<Rightarrow> err = Some e \<and> es' = [] | Inr anchor \<Rightarrow> rest anchor err es'))"

text \<open>A read, and how a run goes on with its answer.\<close>

definition read_run :: "(error + 'a \<Rightarrow> event) \<Rightarrow> ('a \<Rightarrow> error option \<Rightarrow> event list \<Rightarrow> bool) \<Rightarrow>
    error option \<Rightarrow> event list \<Rightarrow> bool" where
  "read_run ev rest err es \<longleftrightarrow>
    (\<exists>r es'. es = ev r # es' \<and>
      (case r of Inl e \<Rightarrow> err = Some e \<and> es' = [] | Inr x \<Rightarrow> rest x err es'))"

definition only_logs :: "event list \<Rightarrow> bool" where
  "only_logs es \<longleftrightarrow> (\<forall>e\<in>set es. \<exists>values line. e = Logged values line)"

subsection \<open>The operations\<close>

abbreviation runs :: "(error option \<Rightarrow> event list \<Rightarrow> bool) \<Rightarrow> Result \<times> error option \<Rightarrow> event list \<Rightarrow> bool" where
  "runs R y es \<equiv> fst y = no_result \<and> R (snd y) es"

lemma anchor_runs:
  assumes "\<not> DryRun cfg" and "\<And>anchor. traces (f anchor) (runs (rest anchor))"
  shows "traces (or_return (ensureAnchor k cfg ns name (Managed aggregate [])) f)
    (runs (anchored_run name ns aggregate rest))"
  unfolding or_return_def ensureAnchor_def Let_def
  using assms(1)
  by simp (rule traces_bind, rule Apply_rule, simp, rule traces_case_sum,
    auto simp: anchored_run_def intro!: traces_return traces_conseq[OF assms(2)])

lemma read_runs:
  assumes "\<And>x. traces (f x) (runs (rest x))"
  shows "traces (or_return (call g (\<lambda>r. [ev r])) f) (runs (read_run ev rest))"
  unfolding or_return_def
  by (rule traces_bind, rule traces_call, rule traces_case_sum)
    (auto simp: read_run_def intro!: traces_return traces_conseq[OF assms])

lemma plan_then_apply_runs:
  assumes "\<not> DryRun cfg" and "\<And>plan. traces (rest plan) (\<lambda>y es. y = (no_result, None) \<and> report es)"
  shows "traces (plan_then_apply k cfg obj lbl anchor rest) (runs (object_run k (obj, lbl) anchor report))"
proof -
  have call_it: "traces (or_return (ApplyUnstructured k obj False lbl (Some anchor)) (\<lambda>_. rest plan))
      (\<lambda>y es. fst y = no_result \<and> (\<exists>reply es''. es = apply_call k (obj, lbl) anchor reply # es'' \<and>
        (case reply of Inl e \<Rightarrow> snd y = Some e \<and> es'' = [] | Inr _ \<Rightarrow> snd y = None \<and> report es'')))" for plan
    unfolding or_return_def
    by (rule traces_bind, rule ApplyUnstructured_rule, simp, rule traces_case_sum)
      (auto simp: apply_call_def Let_def intro!: traces_return traces_conseq[OF assms(2)])
  have refused: "traces (ret (no_result, Some e)) (\<lambda>y es. runs (object_run k (obj, lbl) anchor report) y
      (Got (u_GVK obj) (Namespace obj) (Name obj) r # es))" if "plan_error k obj r = Some e" for r e
    using that by (intro traces_return) (simp add: object_run_def)
  have applied: "traces (or_return (ApplyUnstructured k obj False lbl (Some anchor)) (\<lambda>_. rest plan))
      (\<lambda>y es. runs (object_run k (obj, lbl) anchor report) y
        (Got (u_GVK obj) (Namespace obj) (Name obj) r # es))" if "plan_error k obj r = None" for r plan
    using that by (intro traces_conseq[OF call_it]) (simp add: object_run_def)
  show ?thesis
    unfolding plan_then_apply_def PlanUnstructured_def get_object_def Let_def
    using assms(1)
    by simp (rule traces_bind, rule traces_call,
      auto simp: plan_error_def absent_def intro!: refused applied split: sum.split)
qed

lemma logReconcileSummary_logs: "traces (logReconcileSummary values dryRun aggregate plans) (\<lambda>_ es. only_logs es)"
proof -
  have "calls_only (\<lambda>e. \<exists>values line. e = Logged values line) (logReconcileSummary values dryRun aggregate plans)"
    by (intro only_rules) simp
  then show ?thesis by (rule traces_conseq) (simp add: only_logs_def list_all_iff)
qed

lemma log_report:
  "traces (do { logReconcileSummary values dryRun aggregate plans; ret (no_result, None) })
    (\<lambda>y es. y = (no_result, None) \<and> only_logs es)"
  by (rule traces_seq[OF logReconcileSummary_logs], rule traces_return) simp

subsection \<open>The load balancer reconciler\<close>

definition lb_request :: "'w kube \<Rightarrow> Config \<Rightarrow> Service list \<Rightarrow> request" where
  "lb_request k cfg services =
    (NewDnsHosts k ''load-balancer-based'' (DnsmasqResourcesNamespace cfg)
       (BuildLoadBalancerBased services (LoadBalancerBasedSuffix cfg)),
     Managed ''load-balancer-based'' [])"

definition lb_run :: "'w kube \<Rightarrow> Config \<Rightarrow> error option \<Rightarrow> event list \<Rightarrow> bool" where
  "lb_run k cfg =
    anchored_run ''homelab-operator-anchor-loadbalancer-based'' (DnsmasqResourcesNamespace cfg)
      ''load-balancer-based'' (\<lambda>anchor.
    read_run ListedServices (\<lambda>services.
      object_run k (lb_request k cfg services) anchor only_logs))"

lemma reconcileLoadBalancer_runs:
  assumes "\<not> DryRun cfg"
  shows "traces (reconcileLoadBalancer k cfg (DnsmasqResourcesNamespace cfg)) (runs (lb_run k cfg))"
  unfolding reconcileLoadBalancer_def lb_run_def lb_request_def list_services_def Let_def lbAnchorName_def
    LoadBalancerBasedName_def
  by (intro anchor_runs read_runs plan_then_apply_runs assms log_report)

lemma LoadBalancer_runs:
  assumes "\<not> DryRun cfg" and "EnableLoadBalancerBasedDNSHosts cfg"
  shows "traces (LoadBalancerDNSReconciler_Reconcile k cfg req) (\<lambda>(res, err) es.
    es = [] \<and> res = \<lparr>RequeueAfter = 500000000\<rparr> \<and> err = None \<or> res = no_result \<and> lb_run k cfg err es)"
  unfolding LoadBalancerDNSReconciler_Reconcile_def Let_def
  using assms(2) by simp (intro gate_run_rule traces_conseq[OF reconcileLoadBalancer_runs[OF assms(1)]],
    auto simp: time_Millisecond_def)

text \<open>
  (C11) The load balancer reconciler, call by call: unless its gate is busy, it writes its anchor,
  lists the Services of all namespaces, reads and applies the one object with the entries wanted
  for them, owned by that anchor and with its labels, and logs; it returns no error exactly when
  it got that far, and otherwise stops at the call that failed with that call's error.
\<close>

theorem lb_reconcile_calls:
  "let cfg = cfg0\<lparr>DryRun := False, EnableLoadBalancerBasedDNSHosts := True\<rparr> in
   traces (LoadBalancerDNSReconciler_Reconcile k cfg req) (\<lambda>(res, err) es.
     es = [] \<and> res = \<lparr>RequeueAfter = 500000000\<rparr> \<and> err = None \<or> res = no_result \<and> lb_run k cfg err es)"
  unfolding Let_def by (rule LoadBalancer_runs) simp_all

subsection \<open>The ingress reconciler\<close>

definition ingress_request :: "'w kube \<Rightarrow> Config \<Rightarrow> IngressRouter list \<Rightarrow> Ingress list \<Rightarrow>
    HTTPRouteLike list \<Rightarrow> request" where
  "ingress_request k cfg routers ingresses routes =
    (NewDnsHosts k ''ingress-based'' (DnsmasqResourcesNamespace cfg)
       (fst (BuildIngressBased routers ingresses routes)),
     Managed ''ingress-based'' [])"

definition router_reports :: "IngressRouter list \<Rightarrow> event list \<Rightarrow> bool" where
  "router_reports routers es \<longleftrightarrow> (\<exists>updates logs. es = updates @ logs \<and> only_logs logs \<and>
    (\<forall>e\<in>set updates. \<exists>ir\<in>set routers. \<exists>status reply. e = UpdatedIngressRouter (ir\<lparr>ir_Status := status\<rparr>) reply))"

definition routes_run :: "'w kube \<Rightarrow> Config \<Rightarrow> (HTTPRouteLike list \<Rightarrow> error option \<Rightarrow> event list \<Rightarrow> bool) \<Rightarrow>
    error option \<Rightarrow> event list \<Rightarrow> bool" where
  "routes_run k cfg rest =
    (if UseHTTPRoutesForIngress cfg
     then read_run (ListedObjects (list_gvk HTTPRouteGVK) None [])
       (\<lambda>items. rest (List.map_filter (http_route k) items))
     else rest [])"

definition ingress_run :: "'w kube \<Rightarrow> Config \<Rightarrow> error option \<Rightarrow> event list \<Rightarrow> bool" where
  "ingress_run k cfg =
    anchored_run ''homelab-operator-anchor-ingress-based'' (DnsmasqResourcesNamespace cfg)
      ''ingress-based'' (\<lambda>anchor.
    read_run ListedIngressRouters (\<lambda>routers.
    read_run ListedIngresses (\<lambda>ingresses.
    routes_run k cfg (\<lambda>routes.
      object_run k (ingress_request k cfg routers ingresses routes) anchor (router_reports routers)))))"

lemma router_updates_calls:
  "traces (updateRouterStatuses k cfg routers ok msg) (\<lambda>_ es.
    \<forall>e\<in>set es. \<exists>ir\<in>set routers. \<exists>status reply. e = UpdatedIngressRouter (ir\<lparr>ir_Status := status\<rparr>) reply)"
proof (induction routers)
  case (Cons ir irs)
  have status: "traces (router_status k ok msg ir) (\<lambda>_ es. es = [])"
    by (rule traces_conseq[OF router_status_only[where P = "\<lambda>_. False"]]) (simp add: list_all_iff)
  show ?case
    unfolding updateRouterStatuses.simps update_router_def
    by (rule traces_seq[OF status]) (intro traces_bind traces_if traces_return traces_call,
      (rule traces_conseq[OF Cons]; auto)+)
qed (simp add: traces_return)

lemma router_report:
  assumes "set routers' = set routers"
  shows "traces (do {
      updateRouterStatuses k cfg routers' True [];
      logReconcileSummary values dryRun aggregate plans;
      ret (no_result, None) }) (\<lambda>y es. y = (no_result, None) \<and> router_reports routers es)"
  by (rule traces_seq[OF router_updates_calls], rule traces_conseq[OF log_report])
    (use assms in \<open>auto simp: router_reports_def\<close>)

lemma set_BuildIngressBased: "set (snd (BuildIngressBased routers ingresses routes)) = set routers"
  by (simp add: BuildIngressBased_def Let_def)

lemma routes_runs:
  assumes "\<And>routes. traces (f routes) (runs (rest routes))"
  shows "traces (or_return (if UseHTTPRoutesForIngress cfg then listHTTPRoutes k else ret (Inr [])) f)
    (runs (routes_run k cfg rest))"
proof (cases "UseHTTPRoutesForIngress cfg")
  case True
  have routes: "traces (listHTTPRoutes k) (\<lambda>r es. \<exists>a. es = [ListedObjects (list_gvk HTTPRouteGVK) None [] a] \<and>
      r = (case a of Inl e \<Rightarrow> Inl e | Inr items \<Rightarrow> Inr (List.map_filter (http_route k) items)))"
    unfolding listHTTPRoutes_def list_objects_def by (intro trace_rules) auto
  have "traces (case r of Inl e \<Rightarrow> ret (no_result, Some e) | Inr x \<Rightarrow> f x)
      (\<lambda>y es'. runs (routes_run k cfg rest) y (es @ es'))"
    if "\<exists>a. es = [ListedObjects (list_gvk HTTPRouteGVK) None [] a] \<and>
      r = (case a of Inl e \<Rightarrow> Inl e | Inr items \<Rightarrow> Inr (List.map_filter (http_route k) items))" for r es
  proof -
    from that obtain a where es: "es = [ListedObjects (list_gvk HTTPRouteGVK) None [] a]"
      and r: "r = (case a of Inl e \<Rightarrow> Inl e | Inr items \<Rightarrow> Inr (List.map_filter (http_route k) items))"
      by blast
    show ?thesis
      by (cases a) (auto simp: es r True routes_run_def read_run_def intro!: traces_return traces_conseq[OF assms])
  qed
  from traces_seq[OF routes this] True show ?thesis
    by (simp add: or_return_def)
next
  case False
  then show ?thesis
    by (simp add: or_return_def routes_run_def assms)
qed

lemma reconcileIngress_runs:
  assumes "\<not> DryRun cfg"
  shows "traces (reconcileIngress k cfg (DnsmasqResourcesNamespace cfg)) (runs (ingress_run k cfg))"
proof -
  have "traces (case BuildIngressBased routers ingresses routes of (spec, routers) \<Rightarrow>
      let obj = NewDnsHosts k ''ingress-based'' (DnsmasqResourcesNamespace cfg) spec in
      plan_then_apply k cfg obj (Managed ''ingress-based'' []) anchor (\<lambda>plan. do {
        updateRouterStatuses k cfg routers True [];
        logReconcileSummary [] (DryRun cfg) ''ingress-based'' [plan];
        ret (no_result, None) }))
      (runs (object_run k (ingress_request k cfg routers ingresses routes) anchor (router_reports routers)))"
    for routers ingresses routes anchor
    using set_BuildIngressBased[of routers ingresses routes]
    by (cases "BuildIngressBased routers ingresses routes")
      (simp add: ingress_request_def plan_then_apply_runs[OF assms router_report])
  then show ?thesis
    unfolding reconcileIngress_def ingress_run_def ensureIngressAnchor_def list_routers_def list_ingresses_def
      ingressAnchorName_def IngressBasedName_def
    by (intro anchor_runs read_runs routes_runs assms)
qed

lemma Ingress_runs:
  assumes "\<not> DryRun cfg" and "EnableIngressBasedDNSHosts cfg"
  shows "traces (IngressDNSReconciler_Reconcile k cfg req) (\<lambda>(res, err) es.
    es = [] \<and> res = \<lparr>RequeueAfter = 500000000\<rparr> \<and> err = None \<or> res = no_result \<and> ingress_run k cfg err es)"
  unfolding IngressDNSReconciler_Reconcile_def Let_def
  using assms(2) by simp (intro gate_run_rule traces_conseq[OF reconcileIngress_runs[OF assms(1)]],
    auto simp: time_Millisecond_def)

text \<open>
  (C10) The ingress reconciler, call by call: unless its gate is busy, it writes its anchor, lists
  the IngressRouters, the Ingresses and (where configured) the HTTPRoutes of all namespaces, reads
  and applies the one object with the entries wanted for them, then updates statuses of listed
  routers only, and logs; it returns no error exactly when it got that far, and otherwise stops
  at the call that failed with that call's error.
\<close>

theorem ingress_reconcile_calls:
  "let cfg = cfg0\<lparr>DryRun := False, EnableIngressBasedDNSHosts := True\<rparr> in
   traces (IngressDNSReconciler_Reconcile k cfg req) (\<lambda>(res, err) es.
     es = [] \<and> res = \<lparr>RequeueAfter = 500000000\<rparr> \<and> err = None \<or> res = no_result \<and> ingress_run k cfg err es)"
  unfolding Let_def by (rule Ingress_runs) simp_all

end
