(* ===== verification/Cluster.thy ===== *)
theory Cluster
  imports AggregateRuns
begin

text \<open>
  The cluster the reconcilers write to, as a map from keys to objects. \<open>documented_cluster\<close> is
  what the API server promises about it while nobody else writes to the operator's objects;
  \<open>leads\<close> is a Hoare triple over that map, with rules that follow a program's structure; the
  rest says what the operations of the device reconciler do to it.
\<close>

type_synonym key = "GroupVersionKind \<times> string \<times> string"

type_synonym content = "key \<Rightarrow> Unstructured option"

definition object_key :: "Unstructured \<Rightarrow> key" where
  "object_key u = (u_GVK u, Namespace u, Name u)"

definition has_labels :: "(string, string) gomap \<Rightarrow> Unstructured \<Rightarrow> bool" where
  "has_labels sel u \<longleftrightarrow> list_all (\<lambda>(key, v). map_of (Labels u) key = Some v) sel"

subsection \<open>What the API server documents\<close>

definition leaves_content :: "('w \<Rightarrow> content) \<Rightarrow> ('w \<Rightarrow> 'a \<times> 'w) \<Rightarrow> bool" where
  "leaves_content objs f \<longleftrightarrow> (\<forall>w. objs (snd (f w)) = objs w)"

text \<open>
  \<open>objs\<close> is the content of a world: the objects of the kinds the operator manages. They have no
  finalizers, and no admission webhook changes them. Every read answers from it; the clauses on
  reads are used for these kinds and for the operator's own, named namespaces only. A
  create-or-update that succeeds has stored what the mutate function made of the stored object,
  or of the given one if there was none, with the UID and generation the server sets. A delete
  that succeeds removes the object. No other call changes the content.
\<close>

definition documented_writes :: "'w kube \<Rightarrow> ('w \<Rightarrow> content) \<Rightarrow> bool" where
  "documented_writes k objs \<longleftrightarrow>
    (\<forall>u mutate w op. fst (CreateOrUpdate k u mutate w) = Inr op \<longrightarrow>
      (\<exists>new uid gen.
        mutate (case objs w (object_key u) of None \<Rightarrow> u | Some live \<Rightarrow> live) = Inr new \<and>
        objs (snd (CreateOrUpdate k u mutate w)) =
          (objs w)(object_key u \<mapsto> new\<lparr>UID := uid, Generation := gen\<rparr>))) \<and>
    (\<forall>u w. fst (DeleteObject k u w) = None \<longrightarrow>
      objs (snd (DeleteObject k u w)) = (objs w)(object_key u := None))"

definition documented_reads :: "'w kube \<Rightarrow> ('w \<Rightarrow> content) \<Rightarrow> bool" where
  "documented_reads k objs \<longleftrightarrow>
    (\<forall>w x u. objs w x = Some u \<longrightarrow> object_key u = x) \<and>
    (\<forall>gvk ns name w u. fst (GetObject k gvk ns name w) = Inr u \<longrightarrow> objs w (gvk, ns, name) = Some u) \<and>
    (\<forall>gvk ns name w e. fst (GetObject k gvk ns name w) = Inl e \<longrightarrow> absent k e \<longrightarrow>
      objs w (gvk, ns, name) = None) \<and>
    (\<forall>gvk ns sel w items. fst (ListObjects k (list_gvk gvk) (Some ns) sel w) = Inr items \<longrightarrow>
      set items = {u. \<exists>name. objs w (gvk, ns, name) = Some u \<and> has_labels sel u})"

definition documented_frame :: "'w kube \<Rightarrow> ('w \<Rightarrow> content) \<Rightarrow> bool" where
  "documented_frame k objs \<longleftrightarrow>
    (\<forall>ns. leaves_content objs (ListDevices k ns)) \<and>
    (\<forall>ns. leaves_content objs (ListNetworks k ns)) \<and>
    (\<forall>gvk ns sel. leaves_content objs (ListObjects k gvk ns sel)) \<and>
    (\<forall>gvk ns name. leaves_content objs (GetObject k gvk ns name)) \<and>
    (\<forall>cm mutate. leaves_content objs (CreateOrUpdateConfigMap k cm mutate)) \<and>
    (\<forall>d. leaves_content objs (UpdateDeviceStatus k d)) \<and>
    (\<forall>n. leaves_content objs (UpdateNetworkStatus k n)) \<and>
    leaves_content objs (ListIngressRouters k) \<and>
    leaves_content objs (ListIngresses k) \<and>
    leaves_content objs (ListServices k) \<and>
    (\<forall>ir. leaves_content objs (UpdateIngressRouterStatus k ir)) \<and>
    (\<forall>conds c. leaves_content objs (SetStatusCondition k conds c)) \<and>
    leaves_content objs (Now k) \<and>
    (\<forall>ks. leaves_content objs (MapRange k ks))"

definition documented_cluster :: "'w kube \<Rightarrow> ('w \<Rightarrow> content) \<Rightarrow> bool" where
  "documented_cluster k objs \<longleftrightarrow>
    documented_reads k objs \<and> documented_writes k objs \<and> documented_frame k objs"

definition documented_library :: "'w kube \<Rightarrow> bool" where
  "documented_library k \<longleftrightarrow> documented_NestedMap k \<and> documented_SetNestedMap k \<and>
    documented_SetOwnerReference k \<and> documented_DeepEqual k"

subsection \<open>Triples over the content\<close>

text \<open>
  \<open>leads objs M m Q\<close>: from content \<open>M\<close>, the program \<open>m\<close> ends with a result, calls and a content
  that satisfy \<open>Q\<close>.
\<close>

definition leads :: "('w \<Rightarrow> content) \<Rightarrow> content \<Rightarrow> ('w, 'a) prog \<Rightarrow>
    ('a \<Rightarrow> event list \<Rightarrow> content \<Rightarrow> bool) \<Rightarrow> bool" where
  "leads objs M m Q \<longleftrightarrow> (\<forall>s. objs (world s) = M \<longrightarrow>
    (\<exists>es. trace (snd (run_state m s)) = trace s @ es \<and>
      Q (fst (run_state m s)) es (objs (world (snd (run_state m s))))))"

named_theorems content_rules \<open>rules for the content a program leads to\<close>

lemma leads_conseq:
  "leads objs M m Q \<Longrightarrow> (\<And>x es M'. Q x es M' \<Longrightarrow> Q' x es M') \<Longrightarrow> leads objs M m Q'"
  unfolding leads_def by blast

lemma leads_run:
  "leads objs M m Q \<Longrightarrow> run_state m s = (x, s') \<Longrightarrow> objs (world s) = M \<Longrightarrow> trace s = [] \<Longrightarrow>
    Q x (trace s') (objs (world s'))"
  unfolding leads_def by (metis append_Nil fst_conv snd_conv)

lemma leads_traces: "leads objs M m Q \<Longrightarrow> traces m R \<Longrightarrow> leads objs M m (\<lambda>x es M'. Q x es M' \<and> R x es)"
  unfolding leads_def traces_def by (metis same_append_eq)

lemma leads_return [content_rules]: "Q x [] M \<Longrightarrow> leads objs M (ret x) Q"
  by (simp add: leads_def)

lemma leads_bind [content_rules]:
  assumes "leads objs M m (\<lambda>x es M'. leads objs M' (f x) (\<lambda>y es' M''. Q y (es @ es') M''))"
  shows "leads objs M (m \<bind> f) Q"
  unfolding leads_def
proof (intro allI impI)
  fix s :: "'a st"
  assume M: "objs (world s) = M"
  obtain x s' where m: "run_state m s = (x, s')" by fastforce
  obtain y s'' where f: "run_state (f x) s' = (y, s'')" by fastforce
  obtain es where es: "trace s' = trace s @ es"
    and fx: "leads objs (objs (world s')) (f x) (\<lambda>y es' M''. Q y (es @ es') M'')"
    using assms m M unfolding leads_def by (metis fst_conv snd_conv)
  from fx f obtain es' where "trace s'' = trace s' @ es'" and "Q y (es @ es') (objs (world s''))"
    unfolding leads_def by (metis fst_conv snd_conv)
  with m f es show "\<exists>es. trace (snd (run_state (m \<bind> f) s)) = trace s @ es \<and>
      Q (fst (run_state (m \<bind> f) s)) es (objs (world (snd (run_state (m \<bind> f) s))))" by simp
qed

lemma leads_seq:
  "leads objs M m R \<Longrightarrow>
    (\<And>x es M'. R x es M' \<Longrightarrow> leads objs M' (f x) (\<lambda>y es' M''. Q y (es @ es') M'')) \<Longrightarrow>
    leads objs M (m \<bind> f) Q"
  by (rule leads_bind) (erule leads_conseq)

lemma leads_call:
  "(\<And>w. objs w = M \<Longrightarrow> Q (fst (f w)) (ev (fst (f w))) (objs (snd (f w)))) \<Longrightarrow> leads objs M (call f ev) Q"
  by (simp add: leads_def run_call)

lemma leads_if [content_rules]:
  "(b \<Longrightarrow> leads objs M m Q) \<Longrightarrow> (\<not> b \<Longrightarrow> leads objs M n Q) \<Longrightarrow> leads objs M (if b then m else n) Q"
  by simp

lemma leads_case_sum [content_rules]:
  "(\<And>e. r = Inl e \<Longrightarrow> leads objs M (f e) Q) \<Longrightarrow> (\<And>x. r = Inr x \<Longrightarrow> leads objs M (g x) Q) \<Longrightarrow>
    leads objs M (case r of Inl e \<Rightarrow> f e | Inr x \<Rightarrow> g x) Q"
  by (cases r) auto

lemma leads_case_option [content_rules]:
  "(r = None \<Longrightarrow> leads objs M m Q) \<Longrightarrow> (\<And>x. r = Some x \<Longrightarrow> leads objs M (g x) Q) \<Longrightarrow>
    leads objs M (case r of None \<Rightarrow> m | Some x \<Rightarrow> g x) Q"
  by (cases r) auto

lemma leads_case_prod [content_rules]:
  "(\<And>a b. p = (a, b) \<Longrightarrow> leads objs M (f a b) Q) \<Longrightarrow> leads objs M (case p of (a, b) \<Rightarrow> f a b) Q"
  by (cases p) auto

lemma leads_or_return:
  assumes "leads objs M m (\<lambda>r es M'. \<forall>x. r = Inr x \<longrightarrow> R x es M')"
    and "\<And>x es M'. R x es M' \<Longrightarrow> leads objs M' (f x) (\<lambda>y es' M''. no_error y \<longrightarrow> H y (es @ es') M'')"
  shows "leads objs M (or_return m f) (\<lambda>y es M''. no_error y \<longrightarrow> H y es M'')"
  unfolding or_return_def
  by (rule leads_seq[OF assms(1)], rule leads_case_sum) (auto intro!: leads_return assms(2))

lemma leads_gate:
  assumes "leads objs M fn Q" and "Q (\<lparr>RequeueAfter = 500 * time_Millisecond\<rparr>, None) [] M"
  shows "leads objs M (gate_run key fn) Q"
  unfolding leads_def
proof (intro allI impI)
  fix s :: "'a st"
  assume M: "objs (world s) = M"
  show "\<exists>es. trace (snd (run_state (gate_run key fn) s)) = trace s @ es \<and>
      Q (fst (run_state (gate_run key fn) s)) es (objs (world (snd (run_state (gate_run key fn) s))))"
  proof (cases "gate_enter key (gate_keys s)")
    case None
    with assms(2) M show ?thesis by (simp add: gate_run_cases)
  next
    case (Some keys)
    from M have "objs (world (s\<lparr>gate_keys := keys\<rparr>)) = M" by simp
    with assms(1) have "\<exists>es. trace (snd (run_state fn (s\<lparr>gate_keys := keys\<rparr>))) =
        trace (s\<lparr>gate_keys := keys\<rparr>) @ es \<and> Q (fst (run_state fn (s\<lparr>gate_keys := keys\<rparr>))) es
          (objs (world (snd (run_state fn (s\<lparr>gate_keys := keys\<rparr>)))))"
      unfolding leads_def by blast
    with Some show ?thesis by (simp add: gate_run_cases Let_def)
  qed
qed

text \<open>Programs that leave the content alone.\<close>

definition keeps_content :: "('w \<Rightarrow> content) \<Rightarrow> ('w, 'a) prog \<Rightarrow> bool" where
  "keeps_content objs m \<longleftrightarrow> (\<forall>M. leads objs M m (\<lambda>_ _ M'. M' = M))"

named_theorems keep_rules \<open>rules for programs that leave the content alone\<close>

lemma leads_kept_with:
  "keeps_content objs m \<Longrightarrow> traces m R \<Longrightarrow> (\<And>x es. R x es \<Longrightarrow> Q x es M) \<Longrightarrow> leads objs M m Q"
  unfolding keeps_content_def
  by (rule leads_conseq[OF leads_traces[of _ M _ "\<lambda>_ _ M'. M' = M" R]]) auto

lemma leads_kept: "keeps_content objs m \<Longrightarrow> (\<And>x es. Q x es M) \<Longrightarrow> leads objs M m Q"
  unfolding keeps_content_def by (rule leads_conseq[of _ _ _ "\<lambda>_ _ M'. M' = M"]) auto

lemma keeps_return [keep_rules]: "keeps_content objs (ret x)"
  unfolding keeps_content_def by (simp add: leads_return)

lemma keeps_bind [keep_rules]:
  "keeps_content objs m \<Longrightarrow> (\<And>x. keeps_content objs (f x)) \<Longrightarrow> keeps_content objs (m \<bind> f)"
  unfolding keeps_content_def by (blast intro: leads_seq)

lemma keeps_call [keep_rules]: "leaves_content objs f \<Longrightarrow> keeps_content objs (call f ev)"
  unfolding keeps_content_def by (intro allI leads_call) (simp add: leaves_content_def)

lemma keeps_log [keep_rules]: "keeps_content objs (log_info values line)"
  unfolding log_info_def by (rule keeps_call) (simp add: leaves_content_def)

lemma keeps_if [keep_rules]:
  "keeps_content objs m \<Longrightarrow> keeps_content objs n \<Longrightarrow> keeps_content objs (if b then m else n)"
  by simp

lemma keeps_case_sum [keep_rules]:
  "(\<And>e. keeps_content objs (f e)) \<Longrightarrow> (\<And>x. keeps_content objs (g x)) \<Longrightarrow>
    keeps_content objs (case r of Inl e \<Rightarrow> f e | Inr x \<Rightarrow> g x)"
  by (cases r) auto

lemma keeps_case_option [keep_rules]:
  "keeps_content objs m \<Longrightarrow> (\<And>x. keeps_content objs (g x)) \<Longrightarrow>
    keeps_content objs (case r of None \<Rightarrow> m | Some x \<Rightarrow> g x)"
  by (cases r) auto

end
