(* ===== verification/Content.thy ===== *)
theory Content
  imports Cluster
begin

text \<open>
  What the operations of the reconcilers do to the cluster's content: which of them leave it
  alone, what an apply stores, and what pruning removes.
\<close>

subsection \<open>Operations that leave the content alone\<close>

lemma frame_keeps [keep_rules]:
  assumes "documented_frame k objs"
  shows "keeps_content objs (list_devices k ns)" and "keeps_content objs (list_networks k ns)"
    and "keeps_content objs (list_objects k gvk nso sel)" and "keeps_content objs (get_object k gvk ns name)"
    and "keeps_content objs (update_device k d)" and "keeps_content objs (update_network k n)"
    and "keeps_content objs (set_status_condition k conds c)" and "keeps_content objs (metav1_Now k)"
    and "keeps_content objs (range_map k m)"
    and "keeps_content objs (list_routers k)" and "keeps_content objs (list_ingresses k)"
    and "keeps_content objs (list_services k)" and "keeps_content objs (update_router k ir)"
  using assms unfolding documented_frame_def client_call_defs get_object_def range_map_def
  by (auto intro!: keep_rules)

lemma PlanUnstructured_keeps [keep_rules]:
  "documented_frame k objs \<Longrightarrow> keeps_content objs (PlanUnstructured k obj)"
  unfolding PlanUnstructured_def Let_def by (intro keep_rules)

lemma ensureAnchor_keeps [keep_rules]:
  "documented_frame k objs \<Longrightarrow> keeps_content objs (ensureAnchor k cfg ns name lbl)"
  unfolding ensureAnchor_def Apply_def Let_def
  by (intro keep_rules) (auto simp: documented_frame_def)

lemma set_ready_keeps [keep_rules]:
  "documented_frame k objs \<Longrightarrow> keeps_content objs (set_ready k ready msg status)"
  unfolding set_ready_def by (intro keep_rules)

lemma updateDeviceStatuses_keeps [keep_rules]:
  assumes "documented_frame k objs"
  shows "keeps_content objs (updateDeviceStatuses k cfg devices networks ok msg)"
proof -
  have "keeps_content objs (device_statuses k cfg names ok msg devices)" for names
    by (induction devices)
      (auto intro!: keep_rules assms simp: device_status_def network_available_def)
  then show ?thesis by (simp add: updateDeviceStatuses_def)
qed

lemma updateNetworkStatuses_keeps [keep_rules]:
  assumes "documented_frame k objs"
  shows "keeps_content objs (updateNetworkStatuses k cfg networks ok msg)"
  by (induction networks) (auto intro!: keep_rules assms simp: network_status_def)

lemma updateRouterStatuses_keeps [keep_rules]:
  assumes "documented_frame k objs"
  shows "keeps_content objs (updateRouterStatuses k cfg routers ok msg)"
  by (induction routers) (auto intro!: keep_rules assms simp: router_status_def)

lemma listHTTPRoutes_keeps [keep_rules]:
  "documented_frame k objs \<Longrightarrow> keeps_content objs (listHTTPRoutes k)"
  unfolding listHTTPRoutes_def by (intro keep_rules)

lemma trigger_consume_keeps [keep_rules]: "keeps_content objs (trigger_consume key)"
  by (auto simp: keeps_content_def leads_def trigger_consume_def split: prod.split)

lemma logReconcileSummary_keeps [keep_rules]:
  "keeps_content objs (logReconcileSummary values dryRun aggregate plans)"
proof -
  have "keeps_content objs (log_changes values dryRun aggregate plans)" for plans
    by (induction plans) (auto intro!: keep_rules)
  then show ?thesis unfolding logReconcileSummary_def Let_def by (intro keep_rules)
qed

subsection \<open>Applies\<close>

definition fulfils :: "request \<Rightarrow> Unstructured \<Rightarrow> bool" where
  "fulfils rq u \<longleftrightarrow>
    map_of (Object u) ''spec'' = map_of (Object (fst rq)) ''spec'' \<and> has_labels (snd rq) u"

abbreviation request_key :: "request \<Rightarrow> key" where
  "request_key rq \<equiv> object_key (fst rq)"

definition satisfied :: "content \<Rightarrow> request set" where
  "satisfied M = {rq. \<exists>u. M (request_key rq) = Some u \<and> fulfils rq u}"

text \<open>
  The requests \<open>D\<close> have been fulfilled, nothing else has changed since \<open>M0\<close>, and if they were
  fulfilled from the start the plans made so far are all ``unchanged''.
\<close>

definition progress :: "request set \<Rightarrow> content \<Rightarrow> ApplyPlan list \<Rightarrow> content \<Rightarrow> bool" where
  "progress D M0 plans M \<longleftrightarrow>
    D \<subseteq> satisfied M \<and> (\<forall>x. x \<notin> request_key ` D \<longrightarrow> M x = M0 x) \<and>
    (D \<subseteq> satisfied M0 \<longrightarrow> (\<forall>p\<in>set plans. p_Action p = ''unchanged''))"

lemma progress_init: "progress {} M [] M"
  by (simp add: progress_def)

lemma progress_satisfied:
  assumes "progress D M0 plans M" and "inj_on request_key (insert rq D)" and "rq \<in> satisfied M0"
  shows "rq \<in> satisfied M"
proof (cases "rq \<in> D")
  case False
  with assms(2) have "request_key rq \<notin> request_key ` D" by (simp add: inj_on_insert)
  with assms(1) have "M (request_key rq) = M0 (request_key rq)" unfolding progress_def by blast
  with assms(3) show ?thesis by (simp add: satisfied_def)
qed (use assms(1) in \<open>auto simp: progress_def\<close>)

lemma progress_step:
  assumes "progress D M0 plans M" and "inj_on request_key (insert rq D)" and "fulfils rq new"
    and "rq \<in> satisfied M \<longrightarrow> p_Action plan = ''unchanged''"
  shows "progress (insert rq D) M0 (plans @ [plan]) (M(request_key rq \<mapsto> new))"
proof -
  have "r = rq" if "r \<in> D" "request_key r = request_key rq" for r
    using inj_onD[OF assms(2), of r rq] that by simp
  with assms progress_satisfied[OF assms(1,2)] show ?thesis
    unfolding progress_def by (auto simp: satisfied_def)
qed

lemma has_labels_Copy:
  assumes "wf_map lbl" and "map_of (Labels u) = m ++ map_of lbl"
  shows "has_labels lbl u"
  using assms unfolding has_labels_def wf_map_def by (auto simp: list_all_iff)

lemma planned_action:
  assumes "documented_library k" and "documented_reads k objs"
    and "map_of (Object obj) ''spec'' = Some (JObject spec)"
    and "(obj, lbl) \<in> satisfied (objs w)"
    and "r = fst (GetObject k (u_GVK obj) (Namespace obj) (Name obj) w)"
  shows "(\<exists>e. r = Inl e \<and> \<not> absent k e) \<or>
    (\<exists>current. r = Inr current \<and> compare_specs k obj current = Inr ''unchanged'')"
proof -
  obtain u where u: "objs w (object_key obj) = Some u" "fulfils (obj, lbl) u"
    using assms(4) by (auto simp: satisfied_def)
  then have "compare_specs k obj u = Inr ''unchanged''"
    using assms(1,3) unfolding compare_specs_unchanged same_spec_def
    by (auto simp: fulfils_def documented_library_def documented_NestedMap_def documented_DeepEqual_def)
  moreover have "current = u" if "r = Inr current" for current
  proof -
    from that assms(2,5) have "objs w (object_key obj) = Some current"
      unfolding documented_reads_def object_key_def by metis
    with u(1) show ?thesis by simp
  qed
  moreover have "\<not> absent k e" if "r = Inl e" for e
  proof
    assume "absent k e"
    with that assms(2,5) have "objs w (object_key obj) = None"
      unfolding documented_reads_def object_key_def by metis
    with u(1) show False by simp
  qed
  ultimately show ?thesis by (cases r) auto
qed

lemma PlanUnstructured_leads:
  assumes "documented_library k" and "documented_cluster k objs"
    and "map_of (Object obj) ''spec'' = Some (JObject spec)"
  shows "leads objs M (PlanUnstructured k obj) (\<lambda>r _ M'. M' = M \<and>
    (no_error r \<longrightarrow> (obj, lbl) \<in> satisfied M \<longrightarrow> p_Action (fst r) = ''unchanged''))"
proof -
  have reads: "documented_reads k objs" and frame: "documented_frame k objs"
    using assms(2) by (simp_all add: documented_cluster_def)
  note planned = planned_action[OF assms(1) reads assms(3)]
  show ?thesis
    unfolding PlanUnstructured_def get_object_def Let_def
    by (rule leads_bind, rule leads_call, rule leads_return)
      (use frame in \<open>auto simp: documented_frame_def leaves_content_def absent_def dest!: planned[OF _ refl]\<close>)
qed

lemma ApplyUnstructured_leads:
  assumes "documented_library k" and "documented_cluster k objs"
    and "map_of (Object obj) ''spec'' = Some (JObject spec)" and "wf_map lbl"
  shows "leads objs M (ApplyUnstructured k obj False lbl owner) (\<lambda>r _ M'. \<forall>op. r = Inr op \<longrightarrow>
    (\<exists>new. fulfils (obj, lbl) new \<and> M' = M(request_key (obj, lbl) \<mapsto> new)))"
proof -
  let ?fresh = "new_unstructured (u_GVK obj) (Name obj) (Namespace obj)"
  have lib: "documented_NestedMap k" "documented_SetOwnerReference k"
    using assms(1) by (simp_all add: documented_library_def)
  have writes: "documented_writes k objs" using assms(2) by (simp add: documented_cluster_def)
  have "\<exists>new. fulfils (obj, lbl) new \<and> objs (snd (CreateOrUpdate k ?fresh mutate w)) = M(request_key (obj, lbl) \<mapsto> new)"
    if mutate: "mutate = apply_mutate k obj lbl owner" and w: "objs w = M"
      and ok: "fst (CreateOrUpdate k ?fresh mutate w) = Inr op" for mutate w op
  proof -
    obtain old new uid gen where "apply_mutate k obj lbl owner old = Inr new"
      and stored: "objs (snd (CreateOrUpdate k ?fresh mutate w)) =
        M(request_key (obj, lbl) \<mapsto> new\<lparr>UID := uid, Generation := gen\<rparr>)"
      using writes ok w unfolding documented_writes_def mutate
      by (metis fst_conv new_unstructured_simps(1,2,4) object_key_def)
    from apply_mutate_Inr[OF lib assms(3) this(1)]
    obtain refs where "new = (with_wanted spec lbl old)\<lparr>u_OwnerReferences := refs\<rparr>" by blast
    then have "fulfils (obj, lbl) (new\<lparr>UID := uid, Generation := gen\<rparr>)"
      using assms(3,4) by (auto simp: fulfils_def map_of_maps_Copy intro!: has_labels_Copy)
    with stored show ?thesis by blast
  qed
  then show ?thesis
    unfolding ApplyUnstructured_def create_or_update_def by simp (rule leads_call, auto)
qed

end
