(* ===== verification/Convergence.thy ===== *)
theory Convergence
  imports Content
begin

text \<open>
  What a device reconcile makes of the cluster. On a cluster that behaves as documented and that
  nobody else writes to, a successful reconcile leaves exactly the desired state: every wanted
  object with its spec and labels, no stale managed object, and everything else as it was. On a
  cluster already in that state it deletes nothing and reports no change.
\<close>

subsection \<open>Applies\<close>

lemma planAndApply_leads:
  assumes "documented_library k" and "documented_cluster k objs" and "\<not> DryRun cfg"
    and "map_of (Object obj) ''spec'' = Some (JObject spec)" and "wf_map lbl"
    and "progress D M0 plans M" and "inj_on request_key (insert (obj, lbl) D)"
  shows "leads objs M (planAndApply k cfg obj lbl owner)
    (\<lambda>r _ M'. no_error r \<longrightarrow> progress (insert (obj, lbl) D) M0 (plans @ [fst r]) M')"
  unfolding planAndApply_def
proof (rule leads_seq[OF PlanUnstructured_leads[OF assms(1,2,4), of _ lbl]],
    intro leads_case_prod leads_case_option leads_if, goal_cases)
  case (1 x es M' plan err)
  then have M': "M' = M" and unchanged: "(obj, lbl) \<in> satisfied M \<longrightarrow> p_Action plan = ''unchanged''"
    by simp_all
  show ?case
    unfolding M'
    by (rule leads_seq[OF ApplyUnstructured_leads[OF assms(1,2,4,5)]])
      (auto intro!: leads_return progress_step[OF assms(6,7) _ unchanged, unfolded fst_conv] split: sum.splits)
qed (use assms(3) in \<open>simp_all add: leads_return\<close>)

lemma apply_each_leads:
  assumes "\<And>name spec D plans M. (name, spec) \<in> set kvs \<Longrightarrow> progress D M0 plans M \<Longrightarrow>
      inj_on request_key (insert (g (name, spec)) D) \<Longrightarrow>
      leads objs M (f name spec)
        (\<lambda>r _ M'. no_error r \<longrightarrow> progress (insert (g (name, spec)) D) M0 (plans @ [fst r]) M')"
    and "progress D M0 plans M" and "inj_on request_key (D \<union> g ` set kvs)"
  shows "leads objs M (apply_each f kvs plans)
    (\<lambda>r _ M'. \<forall>plans. r = Inr plans \<longrightarrow> progress (D \<union> g ` set kvs) M0 plans M')"
  using assms
proof (induction kvs arbitrary: plans D M)
  case (Cons kv kvs)
  obtain name spec where kv: "kv = (name, spec)" by fastforce
  have inj: "inj_on request_key (insert (g kv) D)"
    using Cons.prems(3) by (rule inj_on_subset) auto
  have rest: "leads objs M' (apply_each f kvs plans')
      (\<lambda>r _ M'. \<forall>plans. r = Inr plans \<longrightarrow> progress (D \<union> g ` set (kv # kvs)) M0 plans M')"
    if "progress (insert (g kv) D) M0 plans' M'" for M' plans'
    using Cons.IH[OF Cons.prems(1) that] Cons.prems(3) by simp
  show ?case
    unfolding kv apply_each.simps
    by (rule leads_seq[OF Cons.prems(1)[of name spec, OF _ Cons.prems(2)]])
      (use inj rest in \<open>auto simp: kv intro!: leads_return split: prod.split option.split\<close>)
qed (simp add: leads_return)

lemma image_graph: "(\<lambda>n. (n, the (f n))) ` dom f = {(n, v). f n = Some v}"
  by (auto simp: image_iff)

lemma image_pairs: "(\<lambda>(n, v). g n v) ` {(n, v). P n v} = {g n v | n v. P n v}"
  by auto

abbreviation requests :: "(string \<Rightarrow> 'v \<Rightarrow> request) \<Rightarrow> (string, 'v) gomap \<Rightarrow> request set" where
  "requests g m \<equiv> {g name spec | name spec. map_of m name = Some spec}"

lemma range_map_requests:
  "traces (range_map k m) (\<lambda>kvs _. (\<lambda>(name, spec). g name spec) ` set kvs = requests g m)"
proof (rule traces_range)
  fix kvs
  assume "mset kvs = mset (map (\<lambda>n. (n, the (map_of m n))) (map_keys m))"
  then have "set kvs = (\<lambda>n. (n, the (map_of m n))) ` dom (map_of m)"
    by (metis set_map set_mset_mset set_keys_dom)
  then show "(\<lambda>(name, spec). g name spec) ` set kvs = requests g m"
    unfolding image_graph by (simp only: image_pairs)
qed

lemma apply_map_leads:
  assumes "documented_cluster k objs"
    and "\<And>name spec D plans M. progress D M0 plans M \<Longrightarrow> inj_on request_key (insert (g name spec) D) \<Longrightarrow>
      leads objs M (f name spec)
        (\<lambda>r _ M'. no_error r \<longrightarrow> progress (insert (g name spec) D) M0 (plans @ [fst r]) M')"
    and "progress D M0 plans M" and "inj_on request_key (D \<union> requests g m)"
  shows "leads objs M (apply_map k f m plans)
    (\<lambda>r _ M'. \<forall>plans. r = Inr plans \<longrightarrow> progress (D \<union> requests g m) M0 plans M')"
  unfolding apply_map_def
proof (rule leads_bind, rule leads_kept_with[OF _ range_map_requests[where g = g]])
  show "keeps_content objs (range_map k m)"
    using assms(1) unfolding documented_cluster_def by (intro keep_rules) simp
  fix kvs and es :: "event list"
  assume kvs: "(\<lambda>(name, spec). g name spec) ` set kvs = requests g m"
  show "leads objs M (apply_each f kvs plans)
      (\<lambda>r es' M'. \<forall>plans. r = Inr plans \<longrightarrow> progress (D \<union> requests g m) M0 plans M')"
    using apply_each_leads[of kvs M0 "\<lambda>(name, spec). g name spec" objs f D plans M] assms(2-4) kvs by simp
qed

subsection \<open>Pruning\<close>

text \<open>Calls that delete nothing and log no change of a resource.\<close>

fun idle :: "event \<Rightarrow> bool" where
  "idle (Deleted _ _) \<longleftrightarrow> False"
| "idle (Logged _ (LogSummary _ _ resources created updated same)) \<longleftrightarrow>
    created = 0 \<and> updated = 0 \<and> same = resources"
| "idle (Logged _ (LogChange _ _ _ _ _)) \<longleftrightarrow> False"
| "idle (Logged _ (LogError _ _)) \<longleftrightarrow> False"
| "idle _ \<longleftrightarrow> True"

abbreviation unkept :: "(string, unit) gomap \<Rightarrow> Unstructured list \<Rightarrow> key set" where
  "unkept keep items \<equiv> object_key ` {u \<in> set items. Name u \<notin> dom (map_of keep)}"

lemma restrict_UNIV [simp]: "m |` UNIV = m"
  by (rule ext) simp

lemma prune_items_leads:
  assumes "documented_cluster k objs" and "\<not> DryRun cfg"
  shows "leads objs M (prune_items k cfg keep items) (\<lambda>err es M'. err = None \<longrightarrow>
    M' = M |` (- unkept keep items) \<and> (unkept keep items = {} \<longrightarrow> list_all idle es))"
proof (induction items arbitrary: M)
  case (Cons item items)
  show ?case
  proof (cases "map_of keep (Name item)")
    case (Some x)
    then have "unkept keep (item # items) = unkept keep items" by auto
    with Some Cons show ?thesis by simp
  next
    case None
    have del: "leads objs M (delete_object k item)
        (\<lambda>err _ M'. err = None \<longrightarrow> M' = M |` (- {object_key item}))"
      unfolding delete_object_def
      using assms(1) by (intro leads_call)
        (auto simp: documented_cluster_def documented_writes_def restrict_complement_singleton_eq)
    have split: "- unkept keep (item # items) = - {object_key item} \<inter> - unkept keep items"
      and deleted: "unkept keep (item # items) \<noteq> {}"
      using None by auto
    show ?thesis
      unfolding split prune_items.simps using None assms(2) deleted
      by simp (rule leads_seq[OF del], auto intro!: leads_return leads_conseq[OF Cons] split: option.split)
  qed
qed (simp add: leads_return)

text \<open>The managed objects of a kind and namespace that are not kept.\<close>

definition stale_keys :: "content \<Rightarrow> GroupVersionKind set \<Rightarrow> string \<Rightarrow> string set \<Rightarrow> key set" where
  "stale_keys M gvks ns keep = {(gvk, ns, name) | gvk name u. gvk \<in> gvks \<and> name \<notin> keep \<and>
    M (gvk, ns, name) = Some u \<and> has_labels (managed_selector ''device-based'') u}"

lemma in_stale_keys: "x \<in> stale_keys M gvks ns keep \<longleftrightarrow>
    fst x \<in> gvks \<and> fst (snd x) = ns \<and> snd (snd x) \<notin> keep \<and>
    (\<exists>u. M x = Some u \<and> has_labels (managed_selector ''device-based'') u)"
  by (cases x) (auto simp: stale_keys_def)

lemma list_objects_leads:
  assumes "documented_cluster k objs"
  shows "leads objs M (list_objects k (list_gvk gvk) (Some ns) (managed_selector ''device-based''))
    (\<lambda>r es M'. M' = M \<and> list_all idle es \<and>
      (\<forall>items. r = Inr items \<longrightarrow> unkept keep items = stale_keys M {gvk} ns (dom (map_of keep))))"
  unfolding list_objects_def
proof (rule leads_call, intro conjI allI impI)
  have reads: "documented_reads k objs" and frame: "documented_frame k objs"
    using assms by (simp_all add: documented_cluster_def)
  fix w items
  assume w: "objs w = M"
  then show "objs (snd (ListObjects k (list_gvk gvk) (Some ns) (managed_selector ''device-based'') w)) = M"
    using frame by (simp add: documented_frame_def leaves_content_def)
  assume "fst (ListObjects k (list_gvk gvk) (Some ns) (managed_selector ''device-based'') w) = Inr items"
  with reads w have items: "set items = {u. \<exists>name. M (gvk, ns, name) = Some u \<and>
      has_labels (managed_selector ''device-based'') u}"
    and "\<And>x u. M x = Some u \<Longrightarrow> object_key u = x"
    unfolding documented_reads_def by blast+
  then show "unkept keep items = stale_keys M {gvk} ns (dom (map_of keep))"
    unfolding items stale_keys_def by (auto simp: object_key_def image_iff) force
qed simp

lemma stale_keys_Cons:
  "stale_keys M (set (gvk # gvks)) ns keep = stale_keys M {gvk} ns keep \<union> stale_keys M (set gvks) ns keep"
  by (auto simp: stale_keys_def)

lemma stale_keys_restrict:
  "M |` (- stale_keys M A ns keep \<inter> - stale_keys (M |` (- stale_keys M A ns keep)) B ns' keep') =
    M |` (- stale_keys M A ns keep \<inter> - stale_keys M B ns' keep')"
  "stale_keys (M |` (- stale_keys M A ns keep)) B ns' keep' \<subseteq> stale_keys M B ns' keep'"
  by (rule ext) (auto simp: stale_keys_def restrict_map_def)

lemma prune_kinds_leads:
  assumes "documented_cluster k objs" and "\<not> DryRun cfg"
  shows "leads objs M (prune_kinds k cfg ns ''device-based'' keep gvks) (\<lambda>err es M'. err = None \<longrightarrow>
    M' = M |` (- stale_keys M (set gvks) ns (dom (map_of keep))) \<and>
    (stale_keys M (set gvks) ns (dom (map_of keep)) = {} \<longrightarrow> list_all idle es))"
proof (induction gvks arbitrary: M)
  case Nil
  then show ?case by (auto simp: stale_keys_def intro!: leads_return)
next
  case (Cons gvk gvks)
  let ?keep = "dom (map_of keep)"
  let ?stale = "stale_keys M {gvk} ns ?keep"
  show ?case
    unfolding prune_kinds.simps
  proof (rule leads_seq[OF list_objects_leads[OF assms(1), where keep = keep]], rule leads_case_sum)
    fix r M' items es
    assume "M' = M \<and> list_all idle es \<and> (\<forall>items. r = Inr items \<longrightarrow> unkept keep items = ?stale)"
      and "r = Inr items"
    then have M': "M' = M" and es: "list_all idle es" and unkept: "unkept keep items = ?stale" by auto
    show "leads objs M' (prune_items k cfg keep items \<bind> (\<lambda>err. case err of Some e \<Rightarrow> ret (Some e)
          | None \<Rightarrow> prune_kinds k cfg ns ''device-based'' keep gvks))
        (\<lambda>err es' M'. err = None \<longrightarrow> M' = M |` (- stale_keys M (set (gvk # gvks)) ns ?keep) \<and>
          (stale_keys M (set (gvk # gvks)) ns ?keep = {} \<longrightarrow> list_all idle (es @ es')))"
      unfolding M' stale_keys_Cons
      by (rule leads_seq[OF prune_items_leads[OF assms]], unfold unkept, rule leads_case_option)
        (use es stale_keys_restrict(2)[of M "{gvk}" ns ?keep "set gvks" ns ?keep] in
          \<open>auto intro!: leads_return leads_conseq[OF Cons] simp: stale_keys_restrict(1)\<close>)
  qed (simp add: leads_return)
qed


subsection \<open>The state a reconcile leaves\<close>

definition stale :: "Config \<Rightarrow> DeviceBasedOutput \<Rightarrow> content \<Rightarrow> key set" where
  "stale cfg out M =
    stale_keys M {DhcpHostsGVK, DnsHostsGVK} (DnsmasqResourcesNamespace cfg) (desired_keys out) \<union>
    (if EnableFreeRadiusDevices cfg
     then stale_keys M {FreeRadiusDeviceGVK} (FreeRadiusDevicesNamespace cfg) (dom (map_of (out_FreeRadius out)))
     else {})"

text \<open>The content \<open>M\<close> of the cluster, reconciled to the built output.\<close>

definition reconciled :: "'w kube \<Rightarrow> Config \<Rightarrow> DeviceBasedOutput \<Rightarrow> content \<Rightarrow> content \<Rightarrow> bool" where
  "reconciled k cfg out M M' \<longleftrightarrow>
    (\<forall>rq\<in>wanted k cfg out. \<exists>u. M' (request_key rq) = Some u \<and> fulfils rq u) \<and>
    (\<forall>x. x \<notin> request_key ` wanted k cfg out \<longrightarrow> M' x = (if x \<in> stale cfg out M then None else M x))"

definition settled :: "'w kube \<Rightarrow> Config \<Rightarrow> DeviceBasedOutput \<Rightarrow> content \<Rightarrow> bool" where
  "settled k cfg out M \<longleftrightarrow>
    (\<forall>rq\<in>wanted k cfg out. \<exists>u. M (request_key rq) = Some u \<and> fulfils rq u) \<and> stale cfg out M = {}"

lemmas gvk_defs = DhcpHostsGVK_def DnsHostsGVK_def DhcpOptionsGVK_def FreeRadiusDeviceGVK_def
  Group_def Version_def FreeRadiusGroup_def FreeRadiusVersion_def

lemma free_radius_object_simps [simp]:
  "u_GVK (free_radius_object name ns spec) = FreeRadiusDeviceGVK"
  "Namespace (free_radius_object name ns spec) = ns"
  "Name (free_radius_object name ns spec) = name"
  "map_of (Object (free_radius_object name ns spec)) ''spec'' = Some (JObject spec)"
  by (simp_all add: free_radius_object_def Let_def)

lemma requests_keys:
  "(\<And>name spec. request_key (g name spec) = (gvk, ns, name)) \<Longrightarrow>
    request_key ` requests g m = {gvk} \<times> {ns} \<times> dom (map_of m)"
  unfolding image_pairs[symmetric] image_image
  by (simp add: case_prod_unfold) (auto simp: image_iff)

lemma wanted_parts:
  "wanted k cfg out =
    {(NewDhcpOptions k DhcpOptionsName (DnsmasqResourcesNamespace cfg) (out_DhcpOptions out), Managed ''device-based'' [])} \<union>
    requests (\<lambda>name spec. (NewDhcpHosts k name (DnsmasqResourcesNamespace cfg) spec,
      Managed ''device-based'' (networkFromResourceName name))) (out_DhcpHosts out) \<union>
    requests (\<lambda>name spec. (NewDnsHosts k name (DnsmasqResourcesNamespace cfg) spec,
      Managed ''device-based'' (networkFromResourceName name))) (out_DnsHosts out) \<union>
    wanted_radius cfg out"
  by (simp add: wanted_def wanted_dnsmasq_def Let_def)

lemma wanted_keys:
  "request_key ` wanted k cfg out =
    (let ns = DnsmasqResourcesNamespace cfg; frNS = FreeRadiusDevicesNamespace cfg in
     {(DhcpOptionsGVK, ns, DhcpOptionsName)} \<union>
     {DhcpHostsGVK} \<times> {ns} \<times> dom (map_of (out_DhcpHosts out)) \<union>
     {DnsHostsGVK} \<times> {ns} \<times> dom (map_of (out_DnsHosts out)) \<union>
     (if EnableFreeRadiusDevices cfg
      then {FreeRadiusDeviceGVK} \<times> {frNS} \<times> dom (map_of (out_FreeRadius out)) else {}))"
proof -
  let ?ns = "DnsmasqResourcesNamespace cfg"
  have dhcp: "request_key ` requests (\<lambda>name spec. (NewDhcpHosts k name ?ns spec, lbl name)) m =
      {DhcpHostsGVK} \<times> {?ns} \<times> dom (map_of m)" for lbl m
    by (rule requests_keys) (simp add: object_key_def NewDhcpHosts_def)
  have dns: "request_key ` requests (\<lambda>name spec. (NewDnsHosts k name ?ns spec, lbl name)) m =
      {DnsHostsGVK} \<times> {?ns} \<times> dom (map_of m)" for lbl m
    by (rule requests_keys) (simp add: object_key_def NewDnsHosts_def)
  have radius: "request_key ` requests (\<lambda>name spec. (free_radius_object name ns spec, lbl)) m =
      {FreeRadiusDeviceGVK} \<times> {ns} \<times> dom (map_of m)" for ns lbl m
    by (rule requests_keys) (simp add: object_key_def)
  show ?thesis
    unfolding wanted_parts wanted_radius_def Let_def image_Un dhcp dns
    by (simp add: radius) (simp add: object_key_def NewDhcpOptions_def)
qed

lemma wanted_keys_distinct: "inj_on request_key (wanted k cfg out)"
  by (rule inj_onI)
    (auto simp: wanted_def wanted_dnsmasq_def wanted_radius_def Let_def object_key_def
      NewDhcpOptions_def NewDhcpHosts_def NewDnsHosts_def gvk_defs split: if_splits)

lemma stale_not_wanted: "stale cfg out M \<inter> request_key ` wanted k cfg out = {}"
  unfolding wanted_keys Let_def
  by (auto simp: stale_def stale_keys_def desired_keys_def gvk_defs split: if_splits)

lemma stale_cong: "(\<And>x. x \<notin> request_key ` wanted k cfg out \<Longrightarrow> M x = M0 x) \<Longrightarrow>
    stale cfg out M = stale cfg out M0"
proof -
  assume same: "\<And>x. x \<notin> request_key ` wanted k cfg out \<Longrightarrow> M x = M0 x"
  show ?thesis
  proof (rule set_eqI)
    fix x
    show "x \<in> stale cfg out M \<longleftrightarrow> x \<in> stale cfg out M0"
    proof (cases "x \<in> request_key ` wanted k cfg out")
      case True
      then have "x \<notin> stale cfg out N" for N using stale_not_wanted[of cfg out N k] by blast
      then show ?thesis by simp
    next
      case False
      from same[OF this] show ?thesis by (simp add: stale_def in_stale_keys)
    qed
  qed
qed

lemma stale_restrict: "stale cfg out (M |` (- stale cfg out M)) = {}"
proof -
  have "x \<in> stale cfg out M \<and> x \<in> A" if "x \<in> stale cfg out (M |` A)" for x A
    using that by (simp add: stale_def in_stale_keys restrict_map_def split: if_splits)
  then show ?thesis by blast
qed

lemma progress_reconciled:
  assumes "progress (wanted k cfg out) M0 plans M"
  shows "reconciled k cfg out M0 (M |` (- stale cfg out M))"
    and "settled k cfg out (M |` (- stale cfg out M))"
    and "stale cfg out M = stale cfg out M0"
proof -
  let ?W = "request_key ` wanted k cfg out"
  have same: "M x = M0 x" if "x \<notin> ?W" for x
    using assms that unfolding progress_def by blast
  show stale: "stale cfg out M = stale cfg out M0" by (rule stale_cong) (rule same)
  have kept: "(M |` (- stale cfg out M)) x = M x" if "x \<in> ?W" for x
    using that stale_not_wanted[of cfg out M k] by (auto simp: restrict_map_def)
  have done_: "\<forall>rq\<in>wanted k cfg out. \<exists>u. (M |` (- stale cfg out M)) (request_key rq) = Some u \<and> fulfils rq u"
    using assms kept unfolding progress_def satisfied_def by auto
  then show "settled k cfg out (M |` (- stale cfg out M))"
    unfolding settled_def stale_restrict by simp
  from done_ show "reconciled k cfg out M0 (M |` (- stale cfg out M))"
    unfolding reconciled_def by (auto simp: restrict_map_def same stale)
qed


subsection \<open>The reconcile\<close>

lemma dedupeApplyPlans_subset: "set (dedupeApplyPlans plans) \<subseteq> set plans"
proof -
  obtain m order where st: "fold dedupe_round plans ([], []) = (m, order)" by fastforce
  have "the (map_of m key) \<in> set plans" if "key \<in> set order" for key
  proof -
    from that fold_dedupe_round[OF st] obtain p where "map_of m key = Some p" by auto
    moreover from this fold_dedupe_round[OF st]
    have "(case filter (\<lambda>p. resource_key p = key) (rev plans) of [] \<Rightarrow> None | p # _ \<Rightarrow> Some p) = Some p"
      by simp
    then obtain ps where "filter (\<lambda>p. resource_key p = key) (rev plans) = p # ps" by (auto split: list.splits)
    then have "p \<in> set (filter (\<lambda>p. resource_key p = key) (rev plans))" by (metis list.set_intros(1))
    ultimately show ?thesis by simp
  qed
  then show ?thesis by (auto simp: dedupeApplyPlans_def st)
qed

lemma logReconcileSummary_idle:
  assumes "\<forall>p\<in>set plans. p_Action p = ''unchanged''"
  shows "calls_only idle (logReconcileSummary values dryRun aggregate plans)"
proof -
  have kept: "\<forall>p\<in>set (dedupeApplyPlans plans). p_Action p = ''unchanged''"
    using assms dedupeApplyPlans_subset by blast
  then have "creates (count_actions (dedupeApplyPlans plans)) = 0" "updates (count_actions (dedupeApplyPlans plans)) = 0"
    by (simp_all add: count_actions_fields filter_empty_conv)
  with kept count_actions_fields(3)[of "dedupeApplyPlans plans"] show ?thesis
    unfolding logReconcileSummary_def Let_def
    by (intro only_rules log_changes_rule) (auto simp: list_all_iff)
qed

lemma leads_idle:
  assumes "leads objs M m (\<lambda>r es M'. \<forall>x. r = Inr x \<longrightarrow> R x M')" and "calls_only idle m"
  shows "leads objs M m (\<lambda>r es M'. \<forall>x. r = Inr x \<longrightarrow> R x M' \<and> list_all idle es)"
  by (rule leads_conseq[OF leads_traces[OF assms]]) auto

lemma apply_free_radius_leads:
  assumes "documented_library k" and "documented_cluster k objs" and "\<not> DryRun cfg"
    and "progress D M0 plans M" and "inj_on request_key (D \<union> wanted_radius cfg out)"
  shows "leads objs M (apply_free_radius k cfg out anchor plans)
    (\<lambda>r _ M'. \<forall>plans. r = Inr plans \<longrightarrow> progress (D \<union> wanted_radius cfg out) M0 plans M')"
proof (cases "EnableFreeRadiusDevices cfg")
  case False
  with assms(4) show ?thesis by (simp add: apply_free_radius_def wanted_radius_def leads_return)
next
  case True
  let ?ns = "FreeRadiusDevicesNamespace cfg"
  let ?g = "\<lambda>name spec. (free_radius_object name ?ns spec, Managed ''device-based'' [])"
  have radius: "wanted_radius cfg out = requests ?g (out_FreeRadius out)"
    using True by (simp add: wanted_radius_def)
  have keeps: "keeps_content objs (free_radius_owner k cfg anchor)"
    using assms(2) unfolding free_radius_owner_def documented_cluster_def by (intro keep_rules) blast
  have each: "leads objs M (apply_map k (applyFreeRadius k cfg ?ns owner) (out_FreeRadius out) plans)
      (\<lambda>r _ M'. \<forall>plans. r = Inr plans \<longrightarrow> progress (D \<union> requests ?g (out_FreeRadius out)) M0 plans M')" for owner
    unfolding applyFreeRadius_def
    by (rule apply_map_leads[OF assms(2) _ assms(4) assms(5)[unfolded radius]])
      (rule planAndApply_leads[OF assms(1-3)], simp_all add: wf_map_Managed)
  show ?thesis
    unfolding apply_free_radius_def radius using True
    by simp (rule leads_bind, rule leads_kept[OF keeps], auto intro!: leads_return leads_conseq[OF each] split: sum.split)
qed

lemma prune_outputs_leads:
  assumes "documented_cluster k objs" and "\<not> DryRun cfg"
  shows "leads objs M (prune_outputs k cfg out (desired_names out)) (\<lambda>r es M'. \<forall>x. r = Inr x \<longrightarrow>
    M' = M |` (- stale cfg out M) \<and> (stale cfg out M = {} \<longrightarrow> list_all idle es))"
proof -
  note prune = prune_kinds_leads[OF assms]
  have keys: "dom (map_of (fold (\<lambda>name. map_set name ()) (map_keys m) [])) = dom (map_of m)"
    for m :: "(string, jobj) gomap"
    unfolding dom_fold_map_set set_keys_dom by simp
  let ?first = "stale_keys M {DhcpHostsGVK, DnsHostsGVK} (DnsmasqResourcesNamespace cfg) (desired_keys out)"
  let ?second = "stale_keys M {FreeRadiusDeviceGVK} (FreeRadiusDevicesNamespace cfg) (dom (map_of (out_FreeRadius out)))"
  have first: "leads objs M (pruneManaged k cfg (DnsmasqResourcesNamespace cfg) ''device-based'' (desired_names out) [])
      (\<lambda>err es M'. err = None \<longrightarrow> M' = M |` (- ?first) \<and> (?first = {} \<longrightarrow> list_all idle es))"
    unfolding pruneManaged_def Let_def
    by (rule leads_conseq[OF prune]) (simp add: dom_desired_names)
  have second: "leads objs (M |` (- ?first)) (pruneManaged k cfg (FreeRadiusDevicesNamespace cfg) ''device-based''
        (fold (\<lambda>name. map_set name ()) (map_keys (out_FreeRadius out)) []) [FreeRadiusDeviceGVK])
      (\<lambda>err es M'. err = None \<longrightarrow> M' = M |` (- ?first \<inter> - ?second) \<and> (?second = {} \<longrightarrow> list_all idle es))"
    unfolding pruneManaged_def Let_def
    by (rule leads_conseq[OF prune])
      (use stale_keys_restrict(2)[of M "{DhcpHostsGVK, DnsHostsGVK}" "DnsmasqResourcesNamespace cfg" "desired_keys out"
        "{FreeRadiusDeviceGVK}" "FreeRadiusDevicesNamespace cfg" "dom (map_of (out_FreeRadius out))"] in
        \<open>auto simp: keys stale_keys_restrict(1)\<close>)
  show ?thesis
  proof (cases "EnableFreeRadiusDevices cfg")
    case True
    with assms(2) show ?thesis
      unfolding prune_outputs_def Let_def
      by simp (rule leads_seq[OF first], rule leads_case_option,
        auto simp: stale_def intro!: leads_return leads_seq[OF second] split: option.split)
  next
    case False
    with assms(2) show ?thesis
      unfolding prune_outputs_def Let_def
      by simp (rule leads_seq[OF first], auto simp: stale_def intro!: leads_return split: option.split)
  qed
qed


text \<open>What a successful reconcile from \<open>M\<close> to \<open>M'\<close> with the calls \<open>es\<close> has achieved.\<close>

definition converged :: "'w kube \<Rightarrow> Config \<Rightarrow> DeviceBasedOutput \<Rightarrow> content \<Rightarrow> event list \<Rightarrow> content \<Rightarrow> bool" where
  "converged k cfg out M es M' \<longleftrightarrow> reconciled k cfg out M M' \<and> settled k cfg out M' \<and>
    (settled k cfg out M \<longrightarrow> list_all idle es)"

lemma converged_append: "list_all idle es \<Longrightarrow> converged k cfg out M es' M' \<Longrightarrow> converged k cfg out M (es @ es') M'"
  by (simp add: converged_def)

lemma leads_step:
  assumes "leads objs M m (\<lambda>r es M'. \<forall>x. r = Inr x \<longrightarrow> R x M' \<and> list_all idle es)"
    and "\<And>x M'. R x M' \<Longrightarrow> leads objs M' (f x) (\<lambda>y es M''. no_error y \<longrightarrow> converged k cfg out M0 es M'')"
  shows "leads objs M (or_return m f) (\<lambda>y es M''. no_error y \<longrightarrow> converged k cfg out M0 es M'')"
  by (rule leads_or_return[OF assms(1)], rule leads_conseq[OF assms(2)]) (auto intro: converged_append)

lemma finish_leads:
  assumes "documented_cluster k objs" and "\<not> DryRun cfg" and "progress (wanted k cfg out) M0 plans M"
  shows "leads objs M (or_return (prune_outputs k cfg out (desired_names out)) (\<lambda>_. do {
      updateDeviceStatuses k cfg devices networks True [];
      updateNetworkStatuses k cfg networks True [];
      logReconcileSummary logger (DryRun cfg) ''device-based'' plans;
      ret (no_result, None) }))
    (\<lambda>y es M''. no_error y \<longrightarrow> converged k cfg out M0 es M'')"
proof (rule leads_or_return[OF prune_outputs_leads[OF assms(1,2)]], elim conjE, goal_cases)
  case (1 x es M')
  have frame: "documented_frame k objs" using assms(1) by (simp add: documented_cluster_def)
  let ?report = "do {
      updateDeviceStatuses k cfg devices networks True [];
      updateNetworkStatuses k cfg networks True [];
      logReconcileSummary logger (DryRun cfg) ''device-based'' plans;
      ret (no_result, None) }"
  have report: "traces ?report (\<lambda>_ es'. settled k cfg out M0 \<longrightarrow> list_all idle es')"
  proof (cases "settled k cfg out M0")
    case True
    then have "\<forall>p\<in>set plans. p_Action p = ''unchanged''"
      using assms(3) by (auto simp: settled_def progress_def satisfied_def)
    then have "calls_only idle ?report" by (intro only_rules logReconcileSummary_idle) simp_all
    then show ?thesis by (rule traces_conseq) simp
  next
    case False
    have "calls_only (\<lambda>_. True) ?report" by (intro only_rules) simp_all
    then show ?thesis by (rule traces_conseq) (simp add: False)
  qed
  note left = progress_reconciled[OF assms(3)]
  have idle: "settled k cfg out M0 \<longrightarrow> list_all idle es"
    using 1(2) left(3) by (simp add: settled_def)
  show ?case
    unfolding 1(1)
    by (rule leads_kept_with[OF _ report]) (intro keep_rules frame, simp add: converged_def left(1,2) idle)
qed

lemma reconcile_output_leads:
  assumes "documented_library k" and "documented_cluster k objs" and "\<not> DryRun cfg"
  shows "leads objs M (reconcile_output k cfg logger out devices networks anchor)
    (\<lambda>y es M'. no_error y \<longrightarrow> converged k cfg out M es M')"
proof -
  let ?ns = "DnsmasqResourcesNamespace cfg"
  let ?opt = "(NewDhcpOptions k DhcpOptionsName ?ns (out_DhcpOptions out), Managed ''device-based'' [])"
  let ?dhcp = "requests (\<lambda>name spec. (NewDhcpHosts k name ?ns spec,
      Managed ''device-based'' (networkFromResourceName name))) (out_DhcpHosts out)"
  let ?dns = "requests (\<lambda>name spec. (NewDnsHosts k name ?ns spec,
      Managed ''device-based'' (networkFromResourceName name))) (out_DnsHosts out)"
  have spec: "documented_SetNestedMap k" and frame: "documented_frame k objs"
    using assms(1,2) by (simp_all add: documented_library_def documented_cluster_def)
  note one = planAndApply_leads[OF assms]
  have sub: "inj_on request_key D" if "D \<subseteq> wanted k cfg out" for D
    using wanted_keys_distinct that by (rule inj_on_subset)
  have options: "leads objs M (applyDhcpOptions k cfg ?ns (out_DhcpOptions out) anchor)
      (\<lambda>r _ M'. no_error r \<longrightarrow> progress {?opt} M [fst r] M')"
    unfolding applyDhcpOptions_def Let_def
    by (rule one[OF _ _ progress_init, simplified]) (simp_all add: wf_map_Managed NewDhcpOptions_def newObject_spec[OF spec])
  have options_idle: "calls_only idle (applyDhcpOptions k cfg ?ns (out_DhcpOptions out) anchor)"
    unfolding applyDhcpOptions_def Let_def by (intro only_rules) simp_all
  have dhcp: "leads objs M' (apply_map k (applyDhcpHosts k cfg ?ns anchor) (out_DhcpHosts out) plans)
      (\<lambda>r es M''. \<forall>plans. r = Inr plans \<longrightarrow> progress ({?opt} \<union> ?dhcp) M plans M'' \<and> list_all idle es)"
    if "progress {?opt} M plans M'" for M' plans
    unfolding applyDhcpHosts_def Let_def
    by (rule leads_idle, rule apply_map_leads[OF assms(2) _ that sub])
      (rule one, simp_all add: wf_map_Managed NewDhcpHosts_def newObject_spec[OF spec],
        auto simp: wanted_parts NewDhcpHosts_def intro!: only_rules)
  have dns: "leads objs M' (apply_map k (applyDnsHosts k cfg ?ns anchor) (out_DnsHosts out) plans)
      (\<lambda>r es M''. \<forall>plans. r = Inr plans \<longrightarrow> progress ({?opt} \<union> ?dhcp \<union> ?dns) M plans M'' \<and> list_all idle es)"
    if "progress ({?opt} \<union> ?dhcp) M plans M'" for M' plans
    unfolding applyDnsHosts_def Let_def
    by (rule leads_idle, rule apply_map_leads[OF assms(2) _ that sub])
      (rule one, simp_all add: wf_map_Managed NewDnsHosts_def newObject_spec[OF spec],
        auto simp: wanted_parts NewDnsHosts_def intro!: only_rules)
  have radius: "leads objs M' (apply_free_radius k cfg out anchor plans)
      (\<lambda>r es M''. \<forall>plans. r = Inr plans \<longrightarrow> progress (wanted k cfg out) M plans M'' \<and> list_all idle es)"
    if "progress ({?opt} \<union> ?dhcp \<union> ?dns) M plans M'" for M' plans
    unfolding wanted_parts
  proof (rule leads_idle)
    show "calls_only idle (apply_free_radius k cfg out anchor plans)"
      unfolding apply_free_radius_def free_radius_owner_def applyFreeRadius_def
      by (intro only_rules) simp_all
  qed (rule apply_free_radius_leads[OF assms that sub], simp add: wanted_parts)
  show ?thesis
    unfolding reconcile_output_def Let_def
  proof (rule leads_seq[OF leads_traces[OF options options_idle]], intro leads_case_prod leads_case_option, goal_cases)
    case (1 r es M' plan err)
    then have "progress {?opt} M [plan] M'" and idle: "list_all idle es" by simp_all
    have "leads objs M' (or_return (apply_map k (applyDhcpHosts k cfg ?ns anchor) (out_DhcpHosts out) [plan]) (\<lambda>plans.
        or_return (apply_map k (applyDnsHosts k cfg ?ns anchor) (out_DnsHosts out) plans) (\<lambda>plans.
        or_return (apply_free_radius k cfg out anchor plans) (\<lambda>plans.
        or_return (prune_outputs k cfg out (desired_names out)) (\<lambda>_. do {
          updateDeviceStatuses k cfg devices networks True [];
          updateNetworkStatuses k cfg networks True [];
          logReconcileSummary l (DryRun cfg) ''device-based'' plans;
          ret (no_result, None) }))))) (\<lambda>y es M''. no_error y \<longrightarrow> converged k cfg out M es M'')" for l
      using \<open>progress {?opt} M [plan] M'\<close>
      by (intro leads_step[OF dhcp] leads_step[OF dns] leads_step[OF radius] finish_leads[OF assms(2,3)])
    then show ?case by (rule leads_conseq) (simp add: converged_append[OF idle])
  next
    case (2 r es M' plan err e)
    show ?case
      by (intro leads_bind[of _ _ "log_info _ _"] leads_bind[of _ _ "updateDeviceStatuses _ _ _ _ _ _"]
        leads_kept keep_rules frame leads_return) simp
  qed
qed


definition namespace_converged :: "'w kube \<Rightarrow> Config \<Rightarrow> string \<Rightarrow> content \<Rightarrow> event list \<Rightarrow> content \<Rightarrow> bool" where
  "namespace_converged k cfg ns M es M' \<longleftrightarrow>
    (\<exists>devices networks. ListedDevices ns (Inr devices) \<in> set es \<and> ListedNetworks ns (Inr networks) \<in> set es \<and>
      converged k cfg (device_output devices networks cfg) M es M')"

lemma namespace_convergedI:
  assumes "converged k cfg out M es M'" and "BuildDeviceBased devices networks cfg = (out, p)"
    and "list_all idle es0"
  shows "namespace_converged k cfg ns M
    ([ListedDevices ns (Inr devices)] @ [ListedNetworks ns (Inr networks)] @ es0 @ es) M'"
  using assms unfolding namespace_converged_def
  by (intro exI[of _ devices] exI[of _ networks]) (simp add: converged_def)

lemma reconcileNamespace_leads:
  assumes "documented_library k" and "documented_cluster k objs" and "\<not> DryRun cfg"
  shows "leads objs M (reconcileNamespace k cfg req)
    (\<lambda>y es M'. no_error y \<longrightarrow> namespace_converged k cfg (req_Namespace req) M es M')"
proof -
  let ?ns = "req_Namespace req"
  have frame: "documented_frame k objs" using assms(2) by (simp add: documented_cluster_def)
  have devices: "leads objs M (list_devices k ?ns)
      (\<lambda>r es M'. \<forall>x. r = Inr x \<longrightarrow> M' = M \<and> es = [ListedDevices ?ns (Inr x)])" for M
    by (rule leads_kept_with[where R = "\<lambda>r es. es = [ListedDevices ?ns r]"])
      (intro keep_rules frame, auto simp: list_devices_def intro: traces_call)
  have networks: "leads objs M (list_networks k ?ns)
      (\<lambda>r es M'. \<forall>x. r = Inr x \<longrightarrow> M' = M \<and> es = [ListedNetworks ?ns (Inr x)])" for M
    by (rule leads_kept_with[where R = "\<lambda>r es. es = [ListedNetworks ?ns r]"])
      (intro keep_rules frame, auto simp: list_networks_def intro: traces_call)
  have anchor: "leads objs M (ensureAnchor k cfg ns name lbl)
      (\<lambda>r es M'. \<forall>x. r = Inr x \<longrightarrow> M' = M \<and> list_all idle es)" for M ns name lbl
    by (rule leads_kept_with[where R = "\<lambda>r es. list_all idle es"]) (intro keep_rules frame, intro only_rules, simp_all)
  have built: "leads objs M (case BuildDeviceBased x y cfg of (out, devices, networks) \<Rightarrow>
      or_return (ensureAnchor k cfg ns name lbl)
        (\<lambda>anchor. reconcile_output k cfg logger out devices networks anchor))
      (\<lambda>r es M'. no_error r \<longrightarrow> namespace_converged k cfg ?ns M
        ([ListedDevices ?ns (Inr x)] @ [ListedNetworks ?ns (Inr y)] @ es) M')" for x y ns name lbl logger
    by (intro leads_case_prod leads_or_return[OF anchor], elim conjE, hypsubst,
        rule leads_conseq[OF reconcile_output_leads[OF assms]])
      (auto intro: namespace_convergedI[unfolded append_Cons append_Nil])
  show ?thesis
    unfolding reconcileNamespace_def Let_def
    by (rule leads_bind, rule leads_kept_with[OF trigger_consume_keeps, where R = "\<lambda>_ es. es = []"],
        rule trigger_consume_rule, rule refl)
      (auto intro!: leads_or_return[OF devices] leads_or_return[OF networks] leads_conseq[OF built])
qed

lemma device_reconcile_leads:
  assumes "documented_library k" and "documented_cluster k objs"
    and "EnableDeviceBasedHosts cfg" and "\<not> DryRun cfg"
  shows "leads objs M (DeviceReconciler_Reconcile k cfg req)
    (\<lambda>y es M'. no_error y \<and> RequeueAfter (fst y) = 0 \<longrightarrow> namespace_converged k cfg (req_Namespace req) M es M')"
  unfolding DeviceReconciler_Reconcile_def
  using assms(3) by simp
    (intro leads_gate leads_conseq[OF reconcileNamespace_leads[OF assms(1,2,4)]], auto simp: time_Millisecond_def)

text \<open>
  (C3) Convergence: on a cluster that behaves as documented, a device reconcile that reports
  success and asks for no requeue leaves exactly the desired state of the devices and networks
  it has listed. Every object \<open>BuildDeviceBased\<close> wants is stored with the wanted spec and its
  management labels, whatever was there before; of the other objects, the managed ones of the
  kinds the operator prunes are gone unless they share a wanted name; everything else, in every
  namespace, is as it was.
\<close>

theorem device_reconcile_converges:
  assumes "documented_library k" and "documented_cluster k objs"
    and "EnableDeviceBasedHosts cfg" and "\<not> DryRun cfg" and "trace s = []"
    and "run_state (DeviceReconciler_Reconcile k cfg req) s = ((res, None), s')" and "RequeueAfter res = 0"
  shows "\<exists>devices networks. ListedDevices (req_Namespace req) (Inr devices) \<in> set (trace s') \<and>
    ListedNetworks (req_Namespace req) (Inr networks) \<in> set (trace s') \<and>
    reconciled k cfg (device_output devices networks cfg) (objs (world s)) (objs (world s')) \<and>
    settled k cfg (device_output devices networks cfg) (objs (world s'))"
  using leads_run[OF device_reconcile_leads[OF assms(1-4)] assms(6) refl assms(5)] assms(7)
  unfolding namespace_converged_def converged_def by simp blast

text \<open>
  (C4) Idempotence: a successful reconcile of a cluster that is already in the desired state of
  what it lists, as the one before it has left it, deletes nothing, and its log reports every
  resource as unchanged.
\<close>

theorem device_reconcile_idle:
  assumes "documented_library k" and "documented_cluster k objs"
    and "EnableDeviceBasedHosts cfg" and "\<not> DryRun cfg" and "trace s = []"
    and "run_state (DeviceReconciler_Reconcile k cfg req) s = ((res, None), s')" and "RequeueAfter res = 0"
    and "\<And>devices networks. ListedDevices (req_Namespace req) (Inr devices) \<in> set (trace s') \<Longrightarrow>
      ListedNetworks (req_Namespace req) (Inr networks) \<in> set (trace s') \<Longrightarrow>
      settled k cfg (device_output devices networks cfg) (objs (world s))"
  shows "list_all idle (trace s')"
  using leads_run[OF device_reconcile_leads[OF assms(1-4)] assms(6) refl assms(5)] assms(7,8)
  unfolding namespace_converged_def converged_def by simp blast

end
