(* ===== verification/AggregateConvergence.thy ===== *)
theory AggregateConvergence
  imports Convergence
begin

text \<open>
  What the two cluster-wide reconcilers make of the cluster: a successful run stores the one
  object of its aggregate and changes nothing else.
\<close>

definition stored_only :: "request \<Rightarrow> content \<Rightarrow> event list \<Rightarrow> content \<Rightarrow> bool" where
  "stored_only rq M es M' \<longleftrightarrow>
    (\<exists>u. M' = M(request_key rq \<mapsto> u) \<and> fulfils rq u) \<and> (rq \<in> satisfied M \<longrightarrow> list_all idle es)"

lemma stored_only_append:
  "list_all idle es \<Longrightarrow> stored_only rq M es' M' \<Longrightarrow> stored_only rq M (es @ es') M'"
  by (simp add: stored_only_def)

lemma idle_or_return:
  assumes "keeps_content objs m" and "traces m (\<lambda>r es. \<forall>x. r = Inr x \<longrightarrow> R x es)"
    and "\<And>x es. R x es \<Longrightarrow> leads objs M (f x) (\<lambda>y es' M'. no_error y \<longrightarrow> H y (es @ es') M')"
  shows "leads objs M (or_return m f) (\<lambda>y es M'. no_error y \<longrightarrow> H y es M')"
  by (rule leads_or_return[where R = "\<lambda>x es M'. M' = M \<and> R x es"], rule leads_kept_with[OF assms(1,2)])
    (auto intro: assms(3))

lemma plan_then_apply_leads:
  assumes "documented_library k" and "documented_cluster k objs" and "\<not> DryRun cfg"
    and "map_of (Object obj) ''spec'' = Some (JObject spec)" and "wf_map lbl"
    and "\<And>plan. keeps_content objs (rest plan)"
    and "\<And>plan. p_Action plan = ''unchanged'' \<Longrightarrow> calls_only idle (rest plan)"
    and "\<And>plan. calls_only (\<lambda>_. True) (rest plan)"
  shows "leads objs M (plan_then_apply k cfg obj lbl anchor rest)
    (\<lambda>y es M'. no_error y \<longrightarrow> stored_only (obj, lbl) M es M')"
proof -
  have plan: "leads objs M (PlanUnstructured k obj) (\<lambda>r es M'. (M' = M \<and>
      (no_error r \<longrightarrow> (obj, lbl) \<in> satisfied M \<longrightarrow> p_Action (fst r) = ''unchanged'')) \<and> list_all idle es)"
    by (rule leads_traces[OF PlanUnstructured_leads[OF assms(1,2,4)] PlanUnstructured_only]) simp
  have apply_it: "leads objs M (ApplyUnstructured k obj False lbl (Some anchor)) (\<lambda>r es M'. \<forall>x. r = Inr x \<longrightarrow>
      (\<exists>new. fulfils (obj, lbl) new \<and> M' = M(request_key (obj, lbl) \<mapsto> new)) \<and> list_all idle es)"
    by (rule leads_idle[OF ApplyUnstructured_leads[OF assms(1,2,4,5)]], rule ApplyUnstructured_rule) simp_all
  have report: "traces (rest plan) (\<lambda>_ es. p_Action plan = ''unchanged'' \<longrightarrow> list_all idle es)" for plan
    using assms(7)[of plan] assms(8)[of plan] by (cases "p_Action plan = ''unchanged''") (auto elim: traces_conseq)
  show ?thesis
    unfolding plan_then_apply_def
  proof (rule leads_seq[OF plan], intro leads_case_prod leads_case_option leads_if, goal_cases)
    case (1 r es M' plan err)
    then have M': "M' = M" and idle: "list_all idle es"
      and unchanged: "(obj, lbl) \<in> satisfied M \<longrightarrow> p_Action plan = ''unchanged''" by auto
    show ?case
      unfolding M'
    proof (rule leads_or_return[OF apply_it], elim conjE exE, goal_cases)
      case (1 x es' M'' new)
      show ?case
        by (rule leads_kept_with[OF assms(6) report]) (use 1 idle unchanged in \<open>auto simp: stored_only_def\<close>)
    qed
  qed (use assms(3) in \<open>simp_all add: leads_return\<close>)
qed

definition routes_listed :: "'w kube \<Rightarrow> Config \<Rightarrow> HTTPRouteLike list \<Rightarrow> event list \<Rightarrow> bool" where
  "routes_listed k cfg routes es \<longleftrightarrow>
    (if UseHTTPRoutesForIngress cfg
     then \<exists>items. ListedObjects (list_gvk HTTPRouteGVK) None [] (Inr items) \<in> set es \<and>
       routes = List.map_filter (http_route k) items
     else routes = [])"

definition ingress_converged :: "'w kube \<Rightarrow> Config \<Rightarrow> content \<Rightarrow> event list \<Rightarrow> content \<Rightarrow> bool" where
  "ingress_converged k cfg M es M' \<longleftrightarrow> (\<exists>routers ingresses routes.
    ListedIngressRouters (Inr routers) \<in> set es \<and> ListedIngresses (Inr ingresses) \<in> set es \<and>
    routes_listed k cfg routes es \<and> stored_only (ingress_request k cfg routers ingresses routes) M es M')"

definition lb_converged :: "'w kube \<Rightarrow> Config \<Rightarrow> content \<Rightarrow> event list \<Rightarrow> content \<Rightarrow> bool" where
  "lb_converged k cfg M es M' \<longleftrightarrow> (\<exists>services.
    ListedServices (Inr services) \<in> set es \<and> stored_only (lb_request k cfg services) M es M')"

lemma report_keeps [keep_rules]: "keeps_content objs (do {
    logReconcileSummary values dryRun aggregate [plan]; ret (no_result, None) })"
  by (intro keep_rules)

lemma report_idle: "p_Action plan = ''unchanged'' \<Longrightarrow> calls_only idle (do {
    logReconcileSummary values dryRun aggregate [plan]; ret (no_result, None) })"
  by (intro only_bind only_return logReconcileSummary_idle) simp

lemma report_any: "calls_only (\<lambda>_. True) (do {
    logReconcileSummary values dryRun aggregate [plan]; ret (no_result, None) })"
  by (intro only_rules) simp

lemma anchor_step:
  assumes "documented_frame k objs"
  shows "keeps_content objs (ensureAnchor k cfg ns name lbl)"
    and "traces (ensureAnchor k cfg ns name lbl) (\<lambda>r es. \<forall>x. r = Inr x \<longrightarrow> list_all idle es)"
proof -
  have "calls_only idle (ensureAnchor k cfg ns name lbl)" by (intro only_rules) simp
  then show "traces (ensureAnchor k cfg ns name lbl) (\<lambda>r es. \<forall>x. r = Inr x \<longrightarrow> list_all idle es)"
    by (rule traces_conseq) simp
qed (rule ensureAnchor_keeps[OF assms])

lemma reconcileLoadBalancer_leads:
  assumes "documented_library k" and "documented_cluster k objs" and "\<not> DryRun cfg"
  shows "leads objs M (reconcileLoadBalancer k cfg (DnsmasqResourcesNamespace cfg))
    (\<lambda>y es M'. no_error y \<longrightarrow> lb_converged k cfg M es M')"
proof -
  have frame: "documented_frame k objs" and spec: "documented_SetNestedMap k"
    using assms(1,2) by (simp_all add: documented_cluster_def documented_library_def)
  have listed: "traces (list_services k) (\<lambda>r es. \<forall>x. r = Inr x \<longrightarrow> es = [ListedServices (Inr x)])"
    unfolding list_services_def by (rule traces_call) simp
  have stored: "leads objs M (plan_then_apply k cfg (fst (lb_request k cfg services)) (Managed ''load-balancer-based'' []) anchor
        (\<lambda>plan. do { logReconcileSummary [] (DryRun cfg) ''load-balancer-based'' [plan]; ret (no_result, None) }))
      (\<lambda>y es M'. no_error y \<longrightarrow> stored_only (lb_request k cfg services) M es M')" for services anchor
    unfolding lb_request_def fst_conv
    by (rule plan_then_apply_leads[OF assms]) (simp_all add: NewDnsHosts_def newObject_spec[OF spec] wf_map_Managed report_keeps report_idle report_any)
  show ?thesis
    unfolding reconcileLoadBalancer_def LoadBalancerBasedName_def Let_def
    by (intro idle_or_return[OF anchor_step(1,2)[OF frame]] idle_or_return[OF frame_keeps(12)[OF frame] listed]
        leads_conseq[OF stored[unfolded lb_request_def fst_conv]])
      (auto simp: lb_converged_def lb_request_def stored_only_def)
qed


lemma routes_step:
  assumes "documented_frame k objs"
  shows "keeps_content objs (if UseHTTPRoutesForIngress cfg then listHTTPRoutes k else ret (Inr []))"
    and "traces (if UseHTTPRoutesForIngress cfg then listHTTPRoutes k else ret (Inr []))
      (\<lambda>r es. \<forall>x. r = Inr x \<longrightarrow> routes_listed k cfg x es \<and> list_all idle es)"
proof -
  show "traces (if UseHTTPRoutesForIngress cfg then listHTTPRoutes k else ret (Inr []))
      (\<lambda>r es. \<forall>x. r = Inr x \<longrightarrow> routes_listed k cfg x es \<and> list_all idle es)"
    unfolding listHTTPRoutes_def list_objects_def
    by (intro trace_rules) (auto simp: routes_listed_def split: sum.splits)
qed (intro keep_rules assms)

lemma routes_listed_mono: "routes_listed k cfg routes es \<Longrightarrow> set es \<subseteq> set es' \<Longrightarrow> routes_listed k cfg routes es'"
  by (auto simp: routes_listed_def split: if_splits)

lemma reconcileIngress_leads:
  assumes "documented_library k" and "documented_cluster k objs" and "\<not> DryRun cfg"
  shows "leads objs M (reconcileIngress k cfg (DnsmasqResourcesNamespace cfg))
    (\<lambda>y es M'. no_error y \<longrightarrow> ingress_converged k cfg M es M')"
proof -
  have frame: "documented_frame k objs" and spec: "documented_SetNestedMap k"
    using assms(1,2) by (simp_all add: documented_cluster_def documented_library_def)
  have routers: "traces (list_routers k) (\<lambda>r es. \<forall>x. r = Inr x \<longrightarrow> es = [ListedIngressRouters (Inr x)])"
    unfolding list_routers_def by (rule traces_call) simp
  have ingresses: "traces (list_ingresses k) (\<lambda>r es. \<forall>x. r = Inr x \<longrightarrow> es = [ListedIngresses (Inr x)])"
    unfolding list_ingresses_def by (rule traces_call) simp
  have keeps: "keeps_content objs (do {
      updateRouterStatuses k cfg rs True [];
      logReconcileSummary [] (DryRun cfg) ''ingress-based'' [plan]; ret (no_result, None) })" for rs plan
    by (intro keep_rules frame)
  have idle: "calls_only idle (do {
      updateRouterStatuses k cfg rs True [];
      logReconcileSummary [] (DryRun cfg) ''ingress-based'' [plan]; ret (no_result, None) })"
    if "p_Action plan = ''unchanged''" for rs plan
    using that by (intro only_bind updateRouterStatuses_only logReconcileSummary_idle only_return) simp_all
  have any: "calls_only (\<lambda>_. True) (do {
      updateRouterStatuses k cfg rs True [];
      logReconcileSummary [] (DryRun cfg) ''ingress-based'' [plan]; ret (no_result, None) })" for rs plan
    by (intro only_rules) simp_all
  have stored: "leads objs M (plan_then_apply k cfg (NewDnsHosts k ''ingress-based'' (DnsmasqResourcesNamespace cfg) dns)
        (Managed ''ingress-based'' []) anchor (\<lambda>plan. do {
          updateRouterStatuses k cfg rs True [];
          logReconcileSummary [] (DryRun cfg) ''ingress-based'' [plan]; ret (no_result, None) }))
      (\<lambda>y es M'. no_error y \<longrightarrow> stored_only
        (NewDnsHosts k ''ingress-based'' (DnsmasqResourcesNamespace cfg) dns, Managed ''ingress-based'' []) M es M')"
    for dns rs anchor
    by (rule plan_then_apply_leads[OF assms])
      (simp_all add: NewDnsHosts_def newObject_spec[OF spec] wf_map_Managed keeps idle any)
  have built: "leads objs M (case BuildIngressBased x y z of (spec, routers) \<Rightarrow>
      let obj = NewDnsHosts k IngressBasedName (DnsmasqResourcesNamespace cfg) spec in
      plan_then_apply k cfg obj (Managed ''ingress-based'' []) anchor (\<lambda>plan. do {
        updateRouterStatuses k cfg routers True [];
        logReconcileSummary [] (DryRun cfg) ''ingress-based'' [plan];
        ret (no_result, None) }))
      (\<lambda>r es M'. no_error r \<longrightarrow> stored_only (ingress_request k cfg x y z) M es M')" for x y z anchor
    unfolding Let_def IngressBasedName_def
    by (rule leads_case_prod, rule leads_conseq[OF stored]) (simp add: ingress_request_def)
  have finished: "ingress_converged k cfg M (es0 @ [ListedIngressRouters (Inr x)] @ [ListedIngresses (Inr y)] @ es1 @ es) M'"
    if "stored_only (ingress_request k cfg x y z) M es M'" "routes_listed k cfg z es1" "list_all idle es0" "list_all idle es1"
    for x y z es0 es1 es M'
  proof -
    let ?es = "es0 @ [ListedIngressRouters (Inr x)] @ [ListedIngresses (Inr y)] @ es1 @ es"
    have "routes_listed k cfg z ?es" by (rule routes_listed_mono[OF that(2)]) auto
    moreover have "stored_only (ingress_request k cfg x y z) M ?es M'"
      using that by (simp add: stored_only_def)
    ultimately show ?thesis unfolding ingress_converged_def by force
  qed
  show ?thesis
    unfolding reconcileIngress_def ensureIngressAnchor_def
    by (intro idle_or_return[OF anchor_step(1,2)[OF frame]] idle_or_return[OF frame_keeps(10)[OF frame] routers]
        idle_or_return[OF frame_keeps(11)[OF frame] ingresses] idle_or_return[OF routes_step(1,2)[OF frame]]
        leads_conseq[OF built] impI, elim conjE) (auto intro: finished[unfolded append_Cons append_Nil])
qed

text \<open>
  (C5) The cluster-wide reconcilers converge: on a cluster that behaves as documented, a run of the
  ingress reconciler that reports success and asks for no requeue has stored the entries wanted for
  the IngressRouters, Ingresses and HTTPRoutes it listed in its one object and changed no other, and
  reports no change if they were there; so does the load balancer reconciler for its Services.
\<close>

theorem aggregates_converge:
  assumes "documented_library k" and "documented_cluster k objs" and "\<not> DryRun cfg"
    and "EnableIngressBasedDNSHosts cfg" and "EnableLoadBalancerBasedDNSHosts cfg"
  shows "leads objs M (IngressDNSReconciler_Reconcile k cfg req) (\<lambda>(res, err) es M'.
      err = None \<and> RequeueAfter res = 0 \<longrightarrow> ingress_converged k cfg M es M') \<and>
    leads objs M (LoadBalancerDNSReconciler_Reconcile k cfg req) (\<lambda>(res, err) es M'.
      err = None \<and> RequeueAfter res = 0 \<longrightarrow> lb_converged k cfg M es M')"
proof
  show "leads objs M (IngressDNSReconciler_Reconcile k cfg req) (\<lambda>(res, err) es M'.
      err = None \<and> RequeueAfter res = 0 \<longrightarrow> ingress_converged k cfg M es M')"
    unfolding IngressDNSReconciler_Reconcile_def Let_def using assms(4)
    by simp (intro leads_gate leads_conseq[OF reconcileIngress_leads[OF assms(1-3)]], auto simp: time_Millisecond_def)
  show "leads objs M (LoadBalancerDNSReconciler_Reconcile k cfg req) (\<lambda>(res, err) es M'.
      err = None \<and> RequeueAfter res = 0 \<longrightarrow> lb_converged k cfg M es M')"
    unfolding LoadBalancerDNSReconciler_Reconcile_def Let_def using assms(5)
    by simp (intro leads_gate leads_conseq[OF reconcileLoadBalancer_leads[OF assms(1-3)]], auto simp: time_Millisecond_def)
qed

end
