(* ===== verification/Memory.thy ===== *)
theory Memory
  imports DeviceSafety StatusReports AggregateConvergence
begin

text \<open>
  A cluster in memory: an instance of the record \<open>kube\<close> that behaves as the libraries
  document, with the cluster's content as its world. It shows that the documented behaviour the
  theorems assume can be had, and the theorems are instantiated on it. Maps are compared as they
  are stored; nobody else writes.
\<close>

subsection \<open>apimachinery\<close>

definition not_a_map :: error where
  "not_a_map = GoError 1 ''accessor error: value is of the wrong type''"

fun nested_field :: "jobj \<Rightarrow> string list \<Rightarrow> error + jv option" where
  "nested_field obj [] = Inr (Some (JObject obj))"
| "nested_field obj [f] = Inr (map_of obj f)"
| "nested_field obj (f # fs) =
    (case map_of obj f of
       Some (JObject m) \<Rightarrow> nested_field m fs
     | None \<Rightarrow> Inr None
     | Some JNull \<Rightarrow> Inr None
     | _ \<Rightarrow> Inl not_a_map)"

definition nested_map :: "jobj \<Rightarrow> string list \<Rightarrow> error + jobj option" where
  "nested_map obj path =
    (case nested_field obj path of
       Inl e \<Rightarrow> Inl e
     | Inr None \<Rightarrow> Inr None
     | Inr (Some (JObject m)) \<Rightarrow> Inr (Some m)
     | Inr (Some _) \<Rightarrow> Inl not_a_map)"

definition nested_slice :: "jobj \<Rightarrow> string list \<Rightarrow> error + jv list option" where
  "nested_slice obj path =
    (case nested_field obj path of
       Inl e \<Rightarrow> Inl e
     | Inr None \<Rightarrow> Inr None
     | Inr (Some (JArray vs)) \<Rightarrow> Inr (Some vs)
     | Inr (Some _) \<Rightarrow> Inl not_a_map)"

fun strings_of :: "jv list \<Rightarrow> string list option" where
  "strings_of [] = Some []"
| "strings_of (JString s # vs) = map_option ((#) s) (strings_of vs)"
| "strings_of (_ # vs) = None"

definition nested_string_slice :: "jobj \<Rightarrow> string list \<Rightarrow> error + string list option" where
  "nested_string_slice obj path =
    (case nested_slice obj path of
       Inl e \<Rightarrow> Inl e
     | Inr None \<Rightarrow> Inr None
     | Inr (Some vs) \<Rightarrow> (case strings_of vs of None \<Rightarrow> Inl not_a_map | Some ss \<Rightarrow> Inr (Some ss)))"

fun set_nested_map :: "jobj \<Rightarrow> jobj \<Rightarrow> string list \<Rightarrow> error + jobj" where
  "set_nested_map obj m [] = Inr obj"
| "set_nested_map obj m [f] = Inr (map_set f (JObject m) obj)"
| "set_nested_map obj m (f # fs) =
    (case map_of obj f of
       Some (JObject inner) \<Rightarrow>
         (case set_nested_map inner m fs of Inl e \<Rightarrow> Inl e | Inr new \<Rightarrow> Inr (map_set f (JObject new) obj))
     | None \<Rightarrow>
         (case set_nested_map [] m fs of Inl e \<Rightarrow> Inl e | Inr new \<Rightarrow> Inr (map_set f (JObject new) obj))
     | _ \<Rightarrow> Inl not_a_map)"

definition set_owner_reference :: "ConfigMap \<Rightarrow> Unstructured \<Rightarrow> error + Unstructured" where
  "set_owner_reference owner obj =
    (if Namespace owner \<noteq> [] \<and> Namespace owner \<noteq> Namespace obj
     then Inl (GoError 1 ''cross-namespace owner references are disallowed'')
     else Inr (obj\<lparr>u_OwnerReferences :=
       filter (\<lambda>r. \<not> (or_Kind r = ''ConfigMap'' \<and> or_Name r = Name owner)) (u_OwnerReferences obj) @
       [\<lparr>or_Kind = ''ConfigMap'', or_Name = Name owner, or_UID = UID owner\<rparr>]\<rparr>))"

subsection \<open>The cluster\<close>

record memory =
  m_clock :: go_time
  m_devices :: "Device list"
  m_networks :: "Network list"
  m_routers :: "IngressRouter list"
  m_ingresses :: "Ingress list"
  m_services :: "Service list"
  m_objects :: "Unstructured list"

definition same_object :: "GroupVersionKind \<Rightarrow> string \<Rightarrow> string \<Rightarrow> Unstructured \<Rightarrow> bool" where
  "same_object gvk ns name u \<longleftrightarrow> u_GVK u = gvk \<and> Namespace u = ns \<and> Name u = name"

definition m_find :: "memory \<Rightarrow> GroupVersionKind \<Rightarrow> string \<Rightarrow> string \<Rightarrow> Unstructured option" where
  "m_find w gvk ns name = List.find (same_object gvk ns name) (m_objects w)"

definition m_store :: "GroupVersionKind \<Rightarrow> string \<Rightarrow> string \<Rightarrow> Unstructured \<Rightarrow> memory \<Rightarrow> memory" where
  "m_store gvk ns name u w =
    w\<lparr>m_objects := u\<lparr>u_GVK := gvk, Namespace := ns, Name := name\<rparr> #
        filter (\<lambda>v. \<not> same_object gvk ns name v) (m_objects w)\<rparr>"

definition not_found :: error where
  "not_found = GoError 404 ''not found''"

definition m_create_or_update :: "Unstructured \<Rightarrow> (Unstructured \<Rightarrow> error + Unstructured) \<Rightarrow> memory \<Rightarrow>
    (error + string) \<times> memory" where
  "m_create_or_update u mutate w =
    (let old = (case m_find w (u_GVK u) (Namespace u) (Name u) of None \<Rightarrow> u | Some v \<Rightarrow> v) in
     case mutate old of
       Inl e \<Rightarrow> (Inl e, w)
     | Inr new \<Rightarrow>
         if (u_GVK new, Namespace new, Name new) = (u_GVK u, Namespace u, Name u)
         then (Inr ''updated'', m_store (u_GVK u) (Namespace u) (Name u) new w)
         else (Inl (GoError 1 ''MutateFn cannot mutate object name and/or object namespace''), w))"

definition m_list :: "GroupVersionKind \<Rightarrow> string option \<Rightarrow> (string, string) gomap \<Rightarrow> memory \<Rightarrow> Unstructured list" where
  "m_list gvk ns sel w =
    filter (\<lambda>u. m_find w (u_GVK u) (Namespace u) (Name u) = Some u \<and>
      list_gvk (u_GVK u) = gvk \<and> (case ns of None \<Rightarrow> True | Some n \<Rightarrow> Namespace u = n) \<and>
      has_labels sel u) (m_objects w)"

definition memory_kube :: "memory kube" where
  "memory_kube =
    \<lparr>NestedMap = nested_map,
     NestedSlice = nested_slice,
     NestedStringSlice = nested_string_slice,
     NestedFieldNoCopy = nested_field,
     SetNestedMap = set_nested_map,
     DeepEqual = (\<lambda>a b. a = b),
     IsNotFound = (\<lambda>e. err_type e = 404),
     IsNoMatchError = (\<lambda>e. False),
     SetStatusCondition = (\<lambda>conds c w. (set_condition (m_clock w) conds c, w)),
     SetOwnerReference = set_owner_reference,
     CreateOrUpdate = m_create_or_update,
     CreateOrUpdateConfigMap = (\<lambda>cm mutate w. (Inr (mutate cm), w)),
     GetObject = (\<lambda>gvk ns name w.
       (case m_find w gvk ns name of None \<Rightarrow> Inl not_found | Some u \<Rightarrow> Inr u, w)),
     ListDevices = (\<lambda>ns w. (Inr (filter (\<lambda>d. Namespace d = ns) (m_devices w)), w)),
     ListNetworks = (\<lambda>ns w. (Inr (filter (\<lambda>n. Namespace n = ns) (m_networks w)), w)),
     ListIngressRouters = (\<lambda>w. (Inr (m_routers w), w)),
     ListIngresses = (\<lambda>w. (Inr (m_ingresses w), w)),
     ListServices = (\<lambda>w. (Inr (m_services w), w)),
     ListObjects = (\<lambda>gvk ns sel w. (Inr (m_list gvk ns sel w), w)),
     DeleteObject = (\<lambda>u w. (None, w\<lparr>m_objects :=
       filter (\<lambda>v. \<not> same_object (u_GVK u) (Namespace u) (Name u) v) (m_objects w)\<rparr>)),
     UpdateDeviceStatus = (\<lambda>d w. (None, w)),
     UpdateNetworkStatus = (\<lambda>n w. (None, w)),
     UpdateIngressRouterStatus = (\<lambda>ir w. (None, w)),
     Now = (\<lambda>w. (m_clock w, w\<lparr>m_clock := m_clock w + 1\<rparr>)),
     MapRange = (\<lambda>ks w. (ks, w))\<rparr>"

subsection \<open>It behaves as documented\<close>

lemma memory_NestedMap: "documented_NestedMap memory_kube"
  by (simp add: documented_NestedMap_def memory_kube_def nested_map_def)

lemma memory_SetNestedMap: "documented_SetNestedMap memory_kube"
  by (simp add: documented_SetNestedMap_def memory_kube_def)

lemma memory_DeepEqual: "documented_DeepEqual memory_kube"
  by (simp add: documented_DeepEqual_def memory_kube_def)

lemma memory_SetOwnerReference: "documented_SetOwnerReference memory_kube"
  by (auto simp: documented_SetOwnerReference_def memory_kube_def set_owner_reference_def)

lemma memory_SetStatusCondition: "documented_SetStatusCondition memory_kube m_clock"
  by (simp add: documented_SetStatusCondition_def memory_kube_def)

lemma m_find_store: "m_find (m_store gvk ns name u w) gvk ns name = Some (u\<lparr>u_GVK := gvk, Namespace := ns, Name := name\<rparr>)"
  by (simp add: m_find_def m_store_def same_object_def)

lemma memory_store: "documented_store memory_kube m_find"
proof -
  have "\<exists>old new uid gen. mutate old = Inr new \<and>
      m_find w' (u_GVK u) (Namespace u) (Name u) = Some (new\<lparr>UID := uid, Generation := gen\<rparr>)"
    if run: "m_create_or_update u mutate w = (Inr op, w')" for u mutate w op w'
  proof -
    let ?ok = "\<lambda>new. (u_GVK new, Namespace new, Name new) = (u_GVK u, Namespace u, Name u)"
    obtain old where old: "m_create_or_update u mutate w =
        (case mutate old of
           Inl e \<Rightarrow> (Inl e, w)
         | Inr new \<Rightarrow> if ?ok new then (Inr ''updated'', m_store (u_GVK u) (Namespace u) (Name u) new w)
             else (Inl (GoError 1 ''MutateFn cannot mutate object name and/or object namespace''), w))"
      unfolding m_create_or_update_def Let_def by blast
    with run obtain new where new: "mutate old = Inr new" by (cases "mutate old") simp_all
    with run old have "?ok new" and w': "w' = m_store (u_GVK u) (Namespace u) (Name u) new w"
      by (simp_all only: sum.case split: if_splits) simp_all
    then have meta: "u_GVK new = u_GVK u" "Namespace new = Namespace u" "Name new = Name u"
      by simp_all
    have "new\<lparr>u_GVK := u_GVK u, Namespace := Namespace u, Name := Name u\<rparr> =
        new\<lparr>UID := UID new, Generation := Generation new\<rparr>"
      unfolding meta[symmetric] by simp
    with new show ?thesis unfolding w' m_find_store by metis
  qed
  then show ?thesis
    unfolding documented_store_def memory_kube_def absent_def
    by (auto split: option.splits) (metis prod.collapse)
qed


subsection \<open>Its content\<close>

fun m_content :: "memory \<Rightarrow> content" where
  "m_content w (gvk, ns, name) = m_find w gvk ns name"

lemma m_find_Some: "m_find w gvk ns name = Some u \<Longrightarrow> u \<in> set (m_objects w) \<and> same_object gvk ns name u"
  unfolding m_find_def by (auto simp: find_Some_iff)

lemma same_object_key: "same_object gvk ns name u \<longleftrightarrow> object_key u = (gvk, ns, name)"
  by (simp add: same_object_def object_key_def)

lemma find_filter_other:
  "(\<And>v. P v \<Longrightarrow> Q v) \<Longrightarrow> List.find P (filter Q xs) = List.find P xs"
  by (induction xs) auto

lemma m_find_store_other:
  "(gvk', ns', name') \<noteq> (gvk, ns, name) \<Longrightarrow> m_find (m_store gvk ns name u w) gvk' ns' name' = m_find w gvk' ns' name'"
  by (auto simp: m_find_def m_store_def same_object_def intro!: find_filter_other)

lemma m_content_store:
  "m_content (m_store gvk ns name u w) =
    (m_content w)((gvk, ns, name) \<mapsto> u\<lparr>u_GVK := gvk, Namespace := ns, Name := name\<rparr>)"
proof
  fix x
  show "m_content (m_store gvk ns name u w) x =
      ((m_content w)((gvk, ns, name) \<mapsto> u\<lparr>u_GVK := gvk, Namespace := ns, Name := name\<rparr>)) x"
    by (cases x) (simp add: m_find_store m_find_store_other)
qed

lemma m_content_delete:
  "m_content (w\<lparr>m_objects := filter (\<lambda>v. \<not> same_object gvk ns name v) (m_objects w)\<rparr>) =
    (m_content w)((gvk, ns, name) := None)"
proof
  fix x
  show "m_content (w\<lparr>m_objects := filter (\<lambda>v. \<not> same_object gvk ns name v) (m_objects w)\<rparr>) x =
      ((m_content w)((gvk, ns, name) := None)) x"
    by (cases x) (auto simp: m_find_def find_None_iff same_object_def intro!: find_filter_other)
qed

lemma list_gvk_inject: "list_gvk a = list_gvk b \<longleftrightarrow> a = b"
  by (cases a, cases b) (simp add: list_gvk_def)

lemma memory_reads: "documented_reads memory_kube m_content"
proof -
  have key: "m_content w x = Some u \<Longrightarrow> object_key u = x" for w x u
    by (cases x) (auto dest: m_find_Some simp: same_object_key)
  have list: "set (m_list (list_gvk gvk) (Some ns) sel w) =
      {u. \<exists>name. m_content w (gvk, ns, name) = Some u \<and> has_labels sel u}" for gvk ns sel w
  proof -
    have "u_GVK u = gvk" "Namespace u = ns" "u \<in> set (m_objects w)" "m_find w gvk ns (Name u) = Some u"
      if "m_find w gvk ns name = Some u" for u name
      using that m_find_Some[OF that] by (auto simp: same_object_def)
    then show ?thesis unfolding m_list_def by (auto simp: list_gvk_inject)
  qed
  show ?thesis
    unfolding documented_reads_def
    by (intro conjI allI impI; (rule key)?)
      (auto simp: memory_kube_def list absent_def split: option.splits)
qed

lemma memory_writes: "documented_writes memory_kube m_content"
  unfolding documented_writes_def
proof (intro conjI allI impI)
  fix u mutate w op
  let ?old = "case m_content w (object_key u) of None \<Rightarrow> u | Some live \<Rightarrow> live"
  assume "fst (CreateOrUpdate memory_kube u mutate w) = Inr op"
  then obtain new where new: "mutate ?old = Inr new"
    and same: "u_GVK new = u_GVK u" "Namespace new = Namespace u" "Name new = Name u"
    and stored: "snd (CreateOrUpdate memory_kube u mutate w) = m_store (u_GVK u) (Namespace u) (Name u) new w"
    by (auto simp: memory_kube_def m_create_or_update_def Let_def object_key_def split: sum.splits if_splits)
  have "new\<lparr>u_GVK := u_GVK u, Namespace := Namespace u, Name := Name u\<rparr> =
      new\<lparr>UID := UID new, Generation := Generation new\<rparr>"
    unfolding same[symmetric] by simp
  with new stored show "\<exists>new uid gen. mutate ?old = Inr new \<and>
      m_content (snd (CreateOrUpdate memory_kube u mutate w)) =
        (m_content w)(object_key u \<mapsto> new\<lparr>UID := uid, Generation := gen\<rparr>)"
    unfolding object_key_def by (metis m_content_store)
next
  fix u w
  show "m_content (snd (DeleteObject memory_kube u w)) = (m_content w)(object_key u := None)"
    by (simp add: memory_kube_def object_key_def m_content_delete)
qed

lemma m_content_cong: "m_objects w = m_objects w' \<Longrightarrow> m_content w = m_content w'"
proof
  fix x
  show "m_objects w = m_objects w' \<Longrightarrow> m_content w x = m_content w' x" by (cases x) (simp add: m_find_def)
qed

lemma m_content_clock: "m_content (w\<lparr>m_clock := t\<rparr>) = m_content w"
  by (rule m_content_cong) simp

lemma memory_frame: "documented_frame memory_kube m_content"
  by (simp add: documented_frame_def leaves_content_def memory_kube_def m_content_clock)

lemma memory_cluster: "documented_cluster memory_kube m_content"
  by (simp add: documented_cluster_def memory_reads memory_writes memory_frame)

lemma memory_library: "documented_library memory_kube"
  by (simp add: documented_library_def memory_NestedMap memory_SetNestedMap memory_SetOwnerReference memory_DeepEqual)

end
