(* ===== verification/Demo.thy ===== *)
theory Demo
  imports Memory
begin

text \<open>
  The example the witnesses evaluate: a device \<open>nas\<close> that refers to the network \<open>lan\<close>, which is
  gone, and the managed object it has left behind, in a cluster in memory. The reconcile of the
  namespace writes the DHCP options, deletes the stale object and marks the device.
\<close>

definition demo_cfg :: Config where
  "demo_cfg =
    \<lparr>DryRun = False, DnsmasqResourcesNamespace = ''dns'', DnsmasqDNSServer = [],
     DnsmasqDomainName = ''home'', DnsmasqDomainSearch = [],
     EnableDeviceBasedHosts = True, EnableDeviceShortName = True, DeviceSuffix = ''.home'',
     EnableFreeRadiusDevices = True, FreeRadiusDevicesNamespace = ''radius'',
     FreeRadiusDevicesWirelessOnly = True, EnableIngressBasedDNSHosts = True,
     UseHTTPRoutesForIngress = False, EnableLoadBalancerBasedDNSHosts = True,
     LoadBalancerBasedSuffix = ''.lb'', WatchNamespaces = []\<rparr>"

definition demo_status :: HomelabStatus where
  "demo_status = \<lparr>ObservedGeneration = 0, LastSyncTime = None, Conditions = []\<rparr>"

definition demo_spec :: "string \<Rightarrow> string \<Rightarrow> DeviceSpec" where
  "demo_spec network ip =
    \<lparr>ds_Network = network, ds_IP = ip, ds_MACAddresses = [''02:00:00:00:00:01''], ds_DHCP = True,
     ds_AdditionalHostnames = [''files''], ds_Trunked = False, ds_Wired = True, ds_Wireless = True,
     ds_USB = False, ds_Location = [], ds_Position = 0, ds_PDU = [], ds_Switch = [], ds_Side = [],
     ds_Manufacturer = [], ds_Model = [], ds_SerialNumber = []\<rparr>"

definition demo_device :: "string \<Rightarrow> string \<Rightarrow> string \<Rightarrow> Device" where
  "demo_device name network ip =
    \<lparr>Name = name, Namespace = ''home'', UID = [], Labels = [], Annotations = [], Generation = 1,
     d_Spec = demo_spec network ip, d_Status = demo_status\<rparr>"

definition demo_network :: "string \<Rightarrow> string \<Rightarrow> Network" where
  "demo_network name router =
    \<lparr>Name = name, Namespace = ''home'', UID = [], Labels = [], Annotations = [], Generation = 1,
     n_Spec = \<lparr>ns_Role = [], ns_VLAN = 10, ns_CIDRBlock = [], ns_ServeDHCP = True,
               ns_Router = router, ns_DNSServer = []\<rparr>,
     n_Status = demo_status\<rparr>"

definition demo_stale :: Unstructured where
  "demo_stale = (new_unstructured DnsHostsGVK ''device-based-lan'' ''dns'')
    \<lparr>Labels := Managed ''device-based'' ''lan''\<rparr>"

definition demo_memory :: memory where
  "demo_memory =
    \<lparr>m_clock = 0, m_devices = [demo_device ''nas'' ''lan'' ''10.0.0.5''],
     m_networks = [],
     m_routers = [], m_ingresses = [], m_services = [], m_objects = [demo_stale]\<rparr>"

definition demo_state :: "memory st" where
  "demo_state = \<lparr>world = demo_memory, trace = [], gate_keys = [], byKey = []\<rparr>"

definition demo_request :: Request where
  "demo_request = \<lparr>req_Namespace = ''home'', req_Name = ''lan''\<rparr>"

lemmas demo_defs = demo_cfg_def demo_status_def demo_spec_def demo_device_def demo_network_def
  demo_stale_def demo_memory_def demo_state_def demo_request_def

subsection \<open>The run\<close>

definition demo_after :: "memory st" where
  "demo_after =
    snd (run_state (DeviceReconciler_Reconcile memory_kube demo_cfg demo_request) demo_state)"

lemma demo_result:
  "fst (run_state (DeviceReconciler_Reconcile memory_kube demo_cfg demo_request) demo_state) =
    (no_result, None)"
  by code_simp

lemma demo_run:
  "run_state (DeviceReconciler_Reconcile memory_kube demo_cfg demo_request) demo_state =
    ((no_result, None), demo_after)"
  unfolding demo_after_def demo_result[symmetric] by simp

lemma demo_deletes: "Deleted demo_stale None \<in> set (trace demo_after)"
  by code_simp

fun updates_nas :: "event \<Rightarrow> bool" where
  "updates_nas (UpdatedDevice dev r) \<longleftrightarrow> Name dev = ''nas''"
| "updates_nas _ \<longleftrightarrow> False"

lemma demo_updates: "list_ex updates_nas (trace demo_after)"
  by code_simp


text \<open>The namespace is reconciled a second time, from the cluster the first run has left.\<close>

definition demo_stored :: Unstructured where
  "demo_stored =
    \<lparr>Name = ''device-based-hosts'', Namespace = ''dns'', UID = [],
     Labels = [(''app.kubernetes.io/managed-by'', ''homelab-operator''),
               (''homelab.valdron.ca/aggregate'', ''device-based'')],
     Annotations = [], Generation = 0, u_GVK = DhcpOptionsGVK,
     u_OwnerReferences = [\<lparr>or_Kind = ''ConfigMap'', or_Name = ''homelab-operator-anchor-device-based'', or_UID = []\<rparr>],
     Object = [(''spec'', JObject [(''options'', JArray
       [JObject [(''key'', JString ''option:domain-name''), (''values'', JArray [JString ''home''])]])])]\<rparr>"

lemma demo_objects: "m_objects (world demo_after) = [demo_stored]"
  by code_simp

definition demo_second :: "memory st" where
  "demo_second = demo_state\<lparr>world := demo_memory\<lparr>m_objects := [demo_stored]\<rparr>\<rparr>"

definition demo_again :: "memory st" where
  "demo_again =
    snd (run_state (DeviceReconciler_Reconcile memory_kube demo_cfg demo_request) demo_second)"

lemma demo_rerun:
  "run_state (DeviceReconciler_Reconcile memory_kube demo_cfg demo_request) demo_second =
    ((no_result, None), demo_again)"
proof -
  have "fst (run_state (DeviceReconciler_Reconcile memory_kube demo_cfg demo_request) demo_second) =
    (no_result, None)" by code_simp
  then show ?thesis unfolding demo_again_def by (metis prod.collapse)
qed

fun lists_demo :: "event \<Rightarrow> bool" where
  "lists_demo (ListedDevices ns (Inr devices)) \<longleftrightarrow> devices = m_devices demo_memory"
| "lists_demo (ListedNetworks ns (Inr networks)) \<longleftrightarrow> networks = []"
| "lists_demo _ \<longleftrightarrow> True"

lemma demo_lists: "list_all lists_demo (trace demo_after)"
  by code_simp

lemma demo_lists_again: "list_all lists_demo (trace demo_again)"
  by code_simp

subsection \<open>A run of the load balancer reconciler\<close>

definition demo_service :: "ServiceType \<Rightarrow> Service" where
  "demo_service ty =
    \<lparr>Name = ''web'', Namespace = ''home'', UID = [], Labels = [], Annotations = [], Generation = 1,
     svc_Type = ty, svc_LoadBalancerIP = ''10.0.0.90'', svc_LoadBalancerIngress = []\<rparr>"

definition lb_state :: "memory st" where
  "lb_state = demo_state\<lparr>world := demo_memory\<lparr>m_services := [demo_service ServiceTypeLoadBalancer]\<rparr>\<rparr>"

definition lb_after :: "memory st" where
  "lb_after = snd (run_state (LoadBalancerDNSReconciler_Reconcile memory_kube demo_cfg demo_request) lb_state)"

lemma lb_demo_run:
  "run_state (LoadBalancerDNSReconciler_Reconcile memory_kube demo_cfg demo_request) lb_state =
    ((no_result, None), lb_after)"
proof -
  have "fst (run_state (LoadBalancerDNSReconciler_Reconcile memory_kube demo_cfg demo_request) lb_state) =
    (no_result, None)" by code_simp
  then show ?thesis unfolding lb_after_def by (metis prod.collapse)
qed

end
