(* ===== verification/Flags.thy ===== *)
theory Flags
  imports Config
begin

text \<open>
  The command line: \<open>BindFlags\<close> and \<open>ApplyCSVFlags\<close> of \<open>internal/config/flags.go\<close>,
  the parser of Go's package \<open>flag\<close>, and the configuration part of \<open>cmd/main.go\<close>.

  \<open>fs.StringVar(&cf.X, ...)\<close> binds a flag to a variable; the bound variables are the
  fields of the caller's \<open>cfg\<close> and of \<open>BindFlags\<close>'s own local \<open>cf\<close>. The record
  \<open>flag_vars\<close> is that memory; what \<open>BindFlags\<close> returns is a copy of \<open>cf\<close>, a value
  of its own. Flags other packages register on the same command line (and \<open>main\<close>'s own
  for metrics, webhooks and leader election) write no variable of \<open>flag_vars\<close>: they are the
  parameter \<open>other\<close>, which says for a name whether it is a boolean flag and which values it
  accepts.
\<close>

record CSVFlags =
  csv_DnsmasqDomainSearch :: string
  csv_WatchNamespaces :: string

record flag_vars =
  fv_cfg :: Config
  fv_cf :: CSVFlags

datatype flag_value =
    BoolFlag "bool \<Rightarrow> flag_vars \<Rightarrow> flag_vars"
  | StringFlag "string \<Rightarrow> flag_vars \<Rightarrow> flag_vars"

abbreviation on_cfg :: "('a \<Rightarrow> Config \<Rightarrow> Config) \<Rightarrow> 'a \<Rightarrow> flag_vars \<Rightarrow> flag_vars" where
  "on_cfg f v st \<equiv> st\<lparr>fv_cfg := f v (fv_cfg st)\<rparr>"

abbreviation on_cf :: "('a \<Rightarrow> CSVFlags \<Rightarrow> CSVFlags) \<Rightarrow> 'a \<Rightarrow> flag_vars \<Rightarrow> flag_vars" where
  "on_cf f v st \<equiv> st\<lparr>fv_cf := f v (fv_cf st)\<rparr>"

subsection \<open>BindFlags\<close>

text \<open>The flags \<open>BindFlags\<close> registers, with the variable each one is bound to.\<close>

definition bound_flags :: "(string \<times> flag_value) list" where
  "bound_flags =
    [(''dry-run'', BoolFlag (on_cfg (\<lambda>v c. c\<lparr>DryRun := v\<rparr>))),
     (''dnsmasq-resources-namespace'', StringFlag (on_cfg (\<lambda>v c. c\<lparr>DnsmasqResourcesNamespace := v\<rparr>))),
     (''dnsmasq-dns-server'', StringFlag (on_cfg (\<lambda>v c. c\<lparr>DnsmasqDNSServer := v\<rparr>))),
     (''dnsmasq-domain-name'', StringFlag (on_cfg (\<lambda>v c. c\<lparr>DnsmasqDomainName := v\<rparr>))),
     (''dnsmasq-domain-search'', StringFlag (on_cf (\<lambda>v f. f\<lparr>csv_DnsmasqDomainSearch := v\<rparr>))),
     (''enable-device-based-hosts'', BoolFlag (on_cfg (\<lambda>v c. c\<lparr>EnableDeviceBasedHosts := v\<rparr>))),
     (''enable-device-short-name'', BoolFlag (on_cfg (\<lambda>v c. c\<lparr>EnableDeviceShortName := v\<rparr>))),
     (''device-suffix'', StringFlag (on_cfg (\<lambda>v c. c\<lparr>DeviceSuffix := v\<rparr>))),
     (''enable-freeradius-devices'', BoolFlag (on_cfg (\<lambda>v c. c\<lparr>EnableFreeRadiusDevices := v\<rparr>))),
     (''freeradius-devices-namespace'', StringFlag (on_cfg (\<lambda>v c. c\<lparr>FreeRadiusDevicesNamespace := v\<rparr>))),
     (''freeradius-devices-wireless-only'', BoolFlag (on_cfg (\<lambda>v c. c\<lparr>FreeRadiusDevicesWirelessOnly := v\<rparr>))),
     (''enable-ingress-based-dns-hosts'', BoolFlag (on_cfg (\<lambda>v c. c\<lparr>EnableIngressBasedDNSHosts := v\<rparr>))),
     (''use-http-routes-for-ingress'', BoolFlag (on_cfg (\<lambda>v c. c\<lparr>UseHTTPRoutesForIngress := v\<rparr>))),
     (''enable-load-balancer-based-dns-hosts'', BoolFlag (on_cfg (\<lambda>v c. c\<lparr>EnableLoadBalancerBasedDNSHosts := v\<rparr>))),
     (''load-balancer-based-suffix'', StringFlag (on_cfg (\<lambda>v c. c\<lparr>LoadBalancerBasedSuffix := v\<rparr>))),
     (''homelab-watch-namespaces'', StringFlag (on_cf (\<lambda>v f. f\<lparr>csv_WatchNamespaces := v\<rparr>)))]"

text \<open>
  Every flag's default is the current value of its variable, so registering changes no variable.
  The result: the returned copy of \<open>cf\<close>, and the bound variables.
\<close>

definition BindFlags :: "Config \<Rightarrow> CSVFlags \<times> flag_vars" where
  "BindFlags cfg =
    (let cf = \<lparr>csv_DnsmasqDomainSearch = strings_Join (DnsmasqDomainSearch cfg) '','',
               csv_WatchNamespaces = strings_Join (WatchNamespaces cfg) '',''\<rparr>
     in (cf, \<lparr>fv_cfg = cfg, fv_cf = cf\<rparr>))"

definition ApplyCSVFlags :: "Config \<Rightarrow> CSVFlags \<Rightarrow> Config" where
  "ApplyCSVFlags cfg cf =
    (let cfg = cfg\<lparr>DnsmasqDomainSearch := splitCommaList (csv_DnsmasqDomainSearch cf)\<rparr>;
         cfg = cfg\<lparr>WatchNamespaces := splitCommaList (csv_WatchNamespaces cf)\<rparr>
     in finalize cfg)"

subsection \<open>flag.Parse\<close>

definition strconv_ParseBool :: "string \<Rightarrow> bool option" where
  "strconv_ParseBool s =
    (if s \<in> set [''1'', ''t'', ''T'', ''true'', ''TRUE'', ''True''] then Some True
     else if s \<in> set [''0'', ''f'', ''F'', ''false'', ''FALSE'', ''False''] then Some False
     else None)"

datatype flag_error = BadSyntax string | NotDefined string | HelpRequested
  | InvalidValue string string | NeedsArgument string

text \<open>A flag some other package registered: is it boolean, and which values does it accept.\<close>

type_synonym other_flags = "string \<Rightarrow> (bool \<times> (string \<Rightarrow> bool)) option"

definition other_value :: "bool \<times> (string \<Rightarrow> bool) \<Rightarrow> string \<Rightarrow> flag_vars \<Rightarrow> flag_vars option" where
  "other_value f v st = (if snd f v then Some st else None)"

definition flag_Set :: "flag_value \<Rightarrow> string \<Rightarrow> flag_vars \<Rightarrow> flag_vars option" where
  "flag_Set f v st =
    (case f of
       BoolFlag g \<Rightarrow> (case strconv_ParseBool v of None \<Rightarrow> None | Some b \<Rightarrow> Some (g b st))
     | StringFlag g \<Rightarrow> Some (g v st))"

text \<open>Is the name registered, and if so: is it boolean, and how is it set.\<close>

definition flag_lookup ::
    "other_flags \<Rightarrow> string \<Rightarrow> (bool \<times> (string \<Rightarrow> flag_vars \<Rightarrow> flag_vars option)) option" where
  "flag_lookup other name =
    (case map_of bound_flags name of
       Some f \<Rightarrow> Some (case f of BoolFlag _ \<Rightarrow> True | StringFlag _ \<Rightarrow> False, flag_Set f)
     | None \<Rightarrow> (case other name of
         Some f \<Rightarrow> Some (fst f, other_value f)
       | None \<Rightarrow> None))"

text \<open>The argument without its dashes, split at the first \<open>=\<close> that is not its first byte.\<close>

definition split_value :: "string \<Rightarrow> string \<times> string option" where
  "split_value name =
    (let n = take 1 name @ takeWhile (\<lambda>c. c \<noteq> CHR ''='') (drop 1 name) in
     if length n < length name then (n, Some (drop (length n + 1) name)) else (n, None))"

text \<open>
  \<open>parseOne\<close> in its loop: the first argument that is no flag, or \<open>--\<close>, stops the parse.
\<close>

fun flag_Parse :: "other_flags \<Rightarrow> string list \<Rightarrow> flag_vars \<Rightarrow> flag_error + flag_vars" where
  "flag_Parse other [] st = Inr st"
| "flag_Parse other (s # args) st =
    (if length s < 2 \<or> hd s \<noteq> CHR ''-'' then Inr st
     else if s = ''--'' then Inr st
     else
       let name = (if s ! 1 = CHR ''-'' then drop 2 s else drop 1 s) in
       if name = [] \<or> hd name = CHR ''-'' \<or> hd name = CHR ''='' then Inl (BadSyntax s)
       else
         (case split_value name of (name, value) \<Rightarrow>
           (case flag_lookup other name of
              None \<Rightarrow>
                if name = ''help'' \<or> name = ''h'' then Inl HelpRequested else Inl (NotDefined name)
            | Some (is_bool, set_value) \<Rightarrow>
                if is_bool then
                  (case set_value (case value of Some v \<Rightarrow> v | None \<Rightarrow> ''true'') st of
                     None \<Rightarrow> Inl (InvalidValue name (case value of Some v \<Rightarrow> v | None \<Rightarrow> ''true''))
                   | Some st \<Rightarrow> flag_Parse other args st)
                else
                  (case value of
                     Some v \<Rightarrow>
                       (case set_value v st of
                          None \<Rightarrow> Inl (InvalidValue name v)
                        | Some st \<Rightarrow> flag_Parse other args st)
                   | None \<Rightarrow>
                       (case args of
                          [] \<Rightarrow> Inl (NeedsArgument name)
                        | v # args \<Rightarrow>
                            (case set_value v st of
                               None \<Rightarrow> Inl (InvalidValue name v)
                             | Some st \<Rightarrow> flag_Parse other args st))))))"

subsection \<open>The configuration part of main\<close>

definition main_config :: "environ \<Rightarrow> other_flags \<Rightarrow> string list \<Rightarrow> flag_error + Config" where
  "main_config env other args =
    (let cfg = Load env;
         (csvFlags, st) = BindFlags cfg
     in (case flag_Parse other args st of
           Inl e \<Rightarrow> Inl e
         | Inr st \<Rightarrow> Inr (ApplyCSVFlags (fv_cfg st) csvFlags)))"

text \<open>The manager's cache: all namespaces, or the listed ones.\<close>

definition cache_DefaultNamespaces :: "Config \<Rightarrow> (string, unit) gomap option" where
  "cache_DefaultNamespaces cfg =
    (if length (WatchNamespaces cfg) > 0
     then Some (fold (\<lambda>ns m. map_set ns () m) (WatchNamespaces cfg) [])
     else None)"

subsection \<open>Comma-separated lists\<close>

text \<open>
  (C35) Splitting is the inverse of joining, up to white space and empty entries: a setting made by
  joining entries without a comma with commas is split into exactly these entries, all of them and
  in this order, each with the white space around it removed and the empty ones dropped. So the
  entries come back as they were when none is empty or has white space around it; and the entries
  of any setting at all are of this kind, so that the default \<open>BindFlags\<close> computes for a list
  setting reads back as that list.
\<close>

theorem splitCommaList_roundtrip:
  assumes "list_all (\<lambda>p. CHR '','' \<notin> set p) ps"
  shows "splitCommaList (strings_Join ps '','') = filter (\<lambda>p. p \<noteq> []) (map strings_TrimSpace ps) \<and>
    (list_all (\<lambda>p. p \<noteq> [] \<and> strings_TrimSpace p = p) ps \<longrightarrow>
      splitCommaList (strings_Join ps '','') = ps) \<and>
    list_all clean_entry (splitCommaList s) \<and>
    splitCommaList (strings_Join (splitCommaList s) '','') = splitCommaList s"
proof (intro conjI impI)
  show "splitCommaList (strings_Join ps '','') = filter (\<lambda>p. p \<noteq> []) (map strings_TrimSpace ps)"
    using assms by (intro splitCommaList_parts) (simp add: list_all_iff)
  show "splitCommaList (strings_Join ps '','') = ps"
    if "list_all (\<lambda>p. p \<noteq> [] \<and> strings_TrimSpace p = p) ps"
    using that assms by (intro splitCommaList_Join) (simp add: list_all_iff clean_entry_def)
  have "\<forall>p\<in>set (splitCommaList s). clean_entry p" using splitCommaList_clean by blast
  then show "list_all clean_entry (splitCommaList s)"
    and "splitCommaList (strings_Join (splitCommaList s) '','') = splitCommaList s"
    by (simp_all add: list_all_iff splitCommaList_Join)
qed

subsection \<open>finalize\<close>

lemma finalize_idem: "finalize (finalize cfg) = finalize cfg"
proof -
  have fr: "FreeRadiusDevicesNamespace (finalize cfg) = [] \<Longrightarrow> EnableFreeRadiusDevices cfg \<Longrightarrow>
      DnsmasqResourcesNamespace cfg = []"
    by (simp add: finalize_FreeRadius split: if_splits)
  have same: "c\<lparr>FreeRadiusDevicesNamespace := ns\<rparr> = c" if "FreeRadiusDevicesNamespace c = ns" for c ns
    using that by (cases c) simp
  have "finalize (finalize cfg) = deriveDomainSearch (finalize cfg)"
    using fr by (auto simp: finalize_def[of "finalize cfg"] Let_def same)
  also have "\<dots> = finalize cfg"
    by (simp add: finalize_def Let_def deriveDomainSearch_idem)
  finally show ?thesis .
qed

lemma derived_search:
  assumes "DnsmasqDomainSearch cfg = []"
  shows "distinct (DnsmasqDomainSearch (finalize cfg)) \<and> [] \<notin> set (DnsmasqDomainSearch (finalize cfg))"
  unfolding finalize_DomainSearch
  by (auto simp: deriveDomainSearch_def Let_def assms add_search_props)

text \<open>
  \<open>finalize\<close> settles the configuration once and for all: running it again changes nothing, a
  domain search list it derives has no duplicates and no empty entries, and with FreeRADIUS enabled
  its namespace is set whenever the dnsmasq namespace is.
\<close>

theorem finalize_settles:
  "finalize (finalize cfg) = finalize cfg \<and>
    (let search = DnsmasqDomainSearch (finalize (cfg\<lparr>DnsmasqDomainSearch := []\<rparr>))
     in distinct search \<and> [] \<notin> set search) \<and>
    FreeRadiusDevicesNamespace (finalize (cfg\<lparr>EnableFreeRadiusDevices := True\<rparr>)) =
      (if FreeRadiusDevicesNamespace cfg = [] then DnsmasqResourcesNamespace cfg
       else FreeRadiusDevicesNamespace cfg)"
  using derived_search[of "cfg\<lparr>DnsmasqDomainSearch := []\<rparr>"]
  by (simp add: finalize_idem finalize_FreeRadius Let_def)

subsection \<open>Flags on the command line\<close>

text \<open>
  A flag sets its variable: for every string flag \<open>BindFlags\<close> registers, the argument
  \<open>--name=value\<close> assigns the value to the variable the flag is bound to, and parsing goes on.
\<close>

lemma string_flag_assigns:
  assumes "map_of bound_flags name = Some (StringFlag set_field)"
  shows "flag_Parse other ((''--'' @ name @ ''='' @ v) # args) st = flag_Parse other args (set_field v st)"
proof -
  have plain: "name \<noteq> [] \<and> CHR ''='' \<notin> set name \<and> hd name \<noteq> CHR ''-''"
    using map_of_SomeD[OF assms] by (auto simp: bound_flags_def)
  then obtain c cs where name: "name = c # cs" by (cases name) auto
  have "takeWhile (\<lambda>x. x \<noteq> CHR ''='') (cs @ CHR ''='' # v) = cs"
    using plain by (simp add: name takeWhile_tail) (auto intro: takeWhile_append2)
  then have "split_value (name @ ''='' @ v) = (name, Some v)"
    by (simp add: split_value_def name Let_def)
  moreover have "flag_lookup other name = Some (False, flag_Set (StringFlag set_field))"
    by (simp add: flag_lookup_def assms)
  ultimately show ?thesis
    using plain by (auto simp: flag_Set_def name Let_def)
qed

text \<open>
  (C38) The watched namespaces come from the environment alone: whatever is on the command line,
  \<open>--homelab-watch-namespaces\<close> included, a configuration \<open>main\<close> accepts has those of
  \<open>Load\<close>, since \<open>ApplyCSVFlags\<close> is given the copy \<open>BindFlags\<close> made before the parse.
\<close>

theorem watch_flag_ignored:
  assumes "main_config env other args = Inr cfg"
  shows "WatchNamespaces cfg = WatchNamespaces (Load env)"
proof -
  have "WatchNamespaces cfg = splitCommaList (strings_Join (WatchNamespaces (Load env)) '','')"
    using assms by (auto simp: main_config_def BindFlags_def ApplyCSVFlags_def Let_def split: sum.splits)
  also have "\<dots> = WatchNamespaces (Load env)"
    by (rule splitCommaList_Join) (auto simp: Load_WatchNamespaces intro: splitCommaList_clean)
  finally show ?thesis .
qed

lemma derive_namespace:
  "deriveDomainSearch (cfg\<lparr>DnsmasqResourcesNamespace := v\<rparr>) = (deriveDomainSearch cfg)\<lparr>DnsmasqResourcesNamespace := v\<rparr>"
  by (simp add: deriveDomainSearch_def Let_def)

lemma finalize_namespace:
  assumes "FreeRadiusDevicesNamespace cfg \<noteq> []"
  shows "finalize (cfg\<lparr>DnsmasqResourcesNamespace := v\<rparr>) = (finalize cfg)\<lparr>DnsmasqResourcesNamespace := v\<rparr>"
  using assms by (simp add: finalize_def derive_namespace)

lemma Load_FreeRadius:
  assumes "EnableFreeRadiusDevices (Load env)"
  shows "FreeRadiusDevicesNamespace (Load env) =
      (if os_Getenv env ''FREERADIUS_DEVICES_NAMESPACE'' = [] then DnsmasqResourcesNamespace (Load env)
       else os_Getenv env ''FREERADIUS_DEVICES_NAMESPACE'')"
    and "FreeRadiusDevicesNamespace (Load env) \<noteq> []"
proof -
  have "getenv env ''DNSMASQ_RESOURCES_NAMESPACE'' ''default'' \<noteq> []"
    by (simp add: getenv_def Let_def)
  with assms show "FreeRadiusDevicesNamespace (Load env) =
      (if os_Getenv env ''FREERADIUS_DEVICES_NAMESPACE'' = [] then DnsmasqResourcesNamespace (Load env)
       else os_Getenv env ''FREERADIUS_DEVICES_NAMESPACE'')"
    and "FreeRadiusDevicesNamespace (Load env) \<noteq> []"
    by (simp_all add: Load_def Let_def finalize_FreeRadius)
qed

text \<open>
  A flag overrides its setting and nothing else: the namespace given by
  \<open>--dnsmasq-resources-namespace\<close> is used for the dnsmasq objects, but the FreeRADIUS devices stay in
  the namespace of the environment, also where that one was derived from the namespace the flag
  overrides, because \<open>Load\<close> has filled it in before the flags are parsed.
\<close>

theorem resources_namespace_flag:
  assumes "EnableFreeRadiusDevices (Load env)" and "list_all clean_entry (DnsmasqDomainSearch (Load env))"
  shows "main_config env other [''--dnsmasq-resources-namespace='' @ v] =
      Inr ((Load env)\<lparr>DnsmasqResourcesNamespace := v\<rparr>) \<and>
    FreeRadiusDevicesNamespace (Load env) =
      (if os_Getenv env ''FREERADIUS_DEVICES_NAMESPACE'' = [] then DnsmasqResourcesNamespace (Load env)
       else os_Getenv env ''FREERADIUS_DEVICES_NAMESPACE'')"
proof -
  have "map_of bound_flags ''dnsmasq-resources-namespace'' =
      Some (StringFlag (on_cfg (\<lambda>v c. c\<lparr>DnsmasqResourcesNamespace := v\<rparr>)))"
    by (simp add: bound_flags_def)
  from string_flag_assigns[OF this, of other v "[]" "snd (BindFlags (Load env))"]
  have parse: "flag_Parse other [''--dnsmasq-resources-namespace='' @ v] (snd (BindFlags (Load env))) =
      Inr (on_cfg (\<lambda>v c. c\<lparr>DnsmasqResourcesNamespace := v\<rparr>) v (snd (BindFlags (Load env))))"
    by (simp only: append.simps flag_Parse.simps(1))
  have "splitCommaList (strings_Join (DnsmasqDomainSearch (Load env)) '','') = DnsmasqDomainSearch (Load env)"
    using assms(2) by (intro splitCommaList_Join) (simp add: list_all_iff)
  moreover have "splitCommaList (strings_Join (WatchNamespaces (Load env)) '','') = WatchNamespaces (Load env)"
    by (rule splitCommaList_Join) (auto simp: Load_WatchNamespaces intro: splitCommaList_clean)
  moreover have "finalize (Load env) = Load env"
    using Load_finalized[of env] by (auto simp: finalize_idem)
  ultimately show ?thesis
    using parse Load_FreeRadius[OF assms(1)] finalize_namespace[of "Load env" v]
    by (simp add: main_config_def BindFlags_def ApplyCSVFlags_def Let_def split: prod.splits)
qed

end
