(* ===== verification/Watches.thy ===== *)
theory Watches
  imports Reconcilers
begin

text \<open>
  What the controllers watch: the map functions and predicates \<open>SetupWithManager\<close> registers in
  \<open>device_controller.go\<close>, \<open>ingressdns_controller.go\<close> and \<open>loadbalancerdns_controller.go\<close>.
  An object of interface type \<open>client.Object\<close> is a value of \<open>client_object\<close>, a type assertion
  a match on its constructor; an event is a value of \<open>watch_event\<close>. How the builder connects them
  to the work queue is controller-runtime's.
\<close>

subsection \<open>Objects and events\<close>

datatype client_object =
    DeviceObject Device
  | NetworkObject Network
  | IngressRouterObject IngressRouter
  | IngressObject Ingress
  | ServiceObject Service
  | ConfigMapObject ConfigMap
  | UnstructuredObject Unstructured

fun GetNamespace :: "client_object \<Rightarrow> string" where
  "GetNamespace (DeviceObject x) = Namespace x"
| "GetNamespace (NetworkObject x) = Namespace x"
| "GetNamespace (IngressRouterObject x) = Namespace x"
| "GetNamespace (IngressObject x) = Namespace x"
| "GetNamespace (ServiceObject x) = Namespace x"
| "GetNamespace (ConfigMapObject x) = Namespace x"
| "GetNamespace (UnstructuredObject x) = Namespace x"

fun GetName :: "client_object \<Rightarrow> string" where
  "GetName (DeviceObject x) = Name x"
| "GetName (NetworkObject x) = Name x"
| "GetName (IngressRouterObject x) = Name x"
| "GetName (IngressObject x) = Name x"
| "GetName (ServiceObject x) = Name x"
| "GetName (ConfigMapObject x) = Name x"
| "GetName (UnstructuredObject x) = Name x"

datatype watch_event =
    CreateEvent client_object
  | UpdateEvent client_object client_object
  | DeleteEvent client_object
  | GenericEvent client_object

subsection \<open>The device controller\<close>

definition canonicalNetworkRequest :: "'w kube \<Rightarrow> string \<Rightarrow> ('w, Request) prog" where
  "canonicalNetworkRequest k namespace = do {
     r \<leftarrow> list_networks k namespace;
     ret (case r of
       Inl _ \<Rightarrow> \<lparr>req_Namespace = namespace, req_Name = ''default''\<rparr>
     | Inr items \<Rightarrow>
         if length items = 0 then \<lparr>req_Namespace = namespace, req_Name = ''default''\<rparr>
         else
           let items = slices_SortFunc items compareNetworkName
           in \<lparr>req_Namespace = namespace, req_Name = Name (items ! 0)\<rparr>)
   }"

definition enqueueCanonicalNetwork :: "'w kube \<Rightarrow> client_object \<Rightarrow> ('w, Request list) prog" where
  "enqueueCanonicalNetwork k obj = do {
     let ns = GetNamespace obj;
     trigger_note ns ''Network'' (GetName obj);
     req \<leftarrow> canonicalNetworkRequest k ns;
     ret [req]
   }"

definition mapDeviceToNetwork :: "'w kube \<Rightarrow> client_object \<Rightarrow> ('w, Request list) prog" where
  "mapDeviceToNetwork k obj =
    (case obj of
       DeviceObject dev \<Rightarrow> do {
         trigger_note (Namespace dev) ''Device'' (Name dev);
         req \<leftarrow> canonicalNetworkRequest k (Namespace dev);
         ret [req]
       }
     | _ \<Rightarrow> ret [])"

text \<open>The predicate of the watch on Networks.\<close>

definition canonicalNetwork :: "'w kube \<Rightarrow> client_object \<Rightarrow> ('w, bool) prog" where
  "canonicalNetwork k obj =
    (case obj of
       NetworkObject n \<Rightarrow> do {
         req \<leftarrow> canonicalNetworkRequest k (Namespace n);
         ret (Name n = req_Name req)
       }
     | _ \<Rightarrow> ret False)"

subsection \<open>The ingress and load balancer controllers\<close>

definition ingressAnchorOnly :: "Config \<Rightarrow> client_object \<Rightarrow> bool" where
  "ingressAnchorOnly cfg obj \<longleftrightarrow>
    GetNamespace obj = DnsmasqResourcesNamespace cfg \<and> GetName obj = ingressAnchorName"

definition enqueueIngress :: "Config \<Rightarrow> client_object \<Rightarrow> Request list" where
  "enqueueIngress cfg obj =
    [\<lparr>req_Namespace = DnsmasqResourcesNamespace cfg, req_Name = ingressAnchorName\<rparr>]"

definition lbAnchorOnly :: "Config \<Rightarrow> client_object \<Rightarrow> bool" where
  "lbAnchorOnly cfg obj \<longleftrightarrow>
    GetNamespace obj = DnsmasqResourcesNamespace cfg \<and> GetName obj = lbAnchorName"

definition enqueueLoadBalancer :: "Config \<Rightarrow> client_object \<Rightarrow> Request list" where
  "enqueueLoadBalancer cfg obj =
    [\<lparr>req_Namespace = DnsmasqResourcesNamespace cfg, req_Name = lbAnchorName\<rparr>]"

definition is_load_balancer :: "client_object \<Rightarrow> bool" where
  "is_load_balancer obj = (case obj of ServiceObject s \<Rightarrow> svc_Type s = ServiceTypeLoadBalancer | _ \<Rightarrow> False)"

fun lbOnly :: "watch_event \<Rightarrow> bool" where
  "lbOnly (CreateEvent obj) = is_load_balancer obj"
| "lbOnly (UpdateEvent old new) = is_load_balancer new"
| "lbOnly (DeleteEvent obj) = is_load_balancer obj"
| "lbOnly (GenericEvent obj) = False"

subsection \<open>SetupWithManager\<close>

text \<open>
  What a controller asks its builder for: its name, the kind it is for with the predicate on that
  kind's objects, and the other kinds it watches, each with its map function and its filter on
  events (none lets every event through). \<open>None\<close> is the early return of a disabled aggregate.
\<close>

record 'w builder =
  bld_Named :: string
  bld_For :: string
  bld_Predicate :: "client_object \<Rightarrow> ('w, bool) prog"
  bld_Watches :: "(string \<times> (client_object \<Rightarrow> ('w, Request list) prog) \<times> (watch_event \<Rightarrow> bool)) list"

definition DeviceReconciler_SetupWithManager :: "'w kube \<Rightarrow> Config \<Rightarrow> 'w builder option" where
  "DeviceReconciler_SetupWithManager k cfg =
    (if \<not> EnableDeviceBasedHosts cfg then None
     else Some
       \<lparr>bld_Named = ''device'',
        bld_For = ''Network'', bld_Predicate = canonicalNetwork k,
        bld_Watches =
          [(''Network'', enqueueCanonicalNetwork k, \<lambda>_. True),
           (''Device'', mapDeviceToNetwork k, \<lambda>_. True)]\<rparr>)"

definition IngressDNSReconciler_SetupWithManager :: "Config \<Rightarrow> 'w builder option" where
  "IngressDNSReconciler_SetupWithManager cfg =
    (if \<not> EnableIngressBasedDNSHosts cfg then None
     else Some
       \<lparr>bld_Named = ''ingressdns'',
        bld_For = ''ConfigMap'', bld_Predicate = (\<lambda>obj. ret (ingressAnchorOnly cfg obj)),
        bld_Watches =
          [(''IngressRouter'', \<lambda>obj. ret (enqueueIngress cfg obj), \<lambda>_. True),
           (''Ingress'', \<lambda>obj. ret (enqueueIngress cfg obj), \<lambda>_. True),
           (gvk_Kind HTTPRouteGVK, \<lambda>obj. ret (enqueueIngress cfg obj), \<lambda>_. True)]\<rparr>)"

definition LoadBalancerDNSReconciler_SetupWithManager :: "Config \<Rightarrow> 'w builder option" where
  "LoadBalancerDNSReconciler_SetupWithManager cfg =
    (if \<not> EnableLoadBalancerBasedDNSHosts cfg then None
     else Some
       \<lparr>bld_Named = ''loadbalancerdns'',
        bld_For = ''ConfigMap'', bld_Predicate = (\<lambda>obj. ret (lbAnchorOnly cfg obj)),
        bld_Watches = [(''Service'', \<lambda>obj. ret (enqueueLoadBalancer cfg obj), lbOnly)]\<rparr>)"

subsection \<open>One request per namespace\<close>

lemma SortFunc_hd_Min:
  assumes "nets \<noteq> []"
  shows "Name (slices_SortFunc nets compareNetworkName ! 0) = Min (Name ` set nets)"
proof -
  let ?s = "slices_SortFunc nets compareNetworkName"
  have mem: "set ?s = set nets" by simp
  with assms obtain x xs where s: "?s = x # xs" by (cases ?s) auto
  have "sorted_wrt (\<lambda>a b. compareNetworkName a b \<le> 0) ?s"
    by (rule network_names.SortFunc_sorted) simp
  then have "\<forall>n\<in>set xs. Name x \<le> Name n" by (simp add: s compareNetworkName_def)
  then have "Min (Name ` set ?s) = Name x" by (auto simp: s intro!: Min_eqI)
  then show ?thesis by (simp add: mem) (simp add: s)
qed

text \<open>The request that stands for a namespace, given the answer to the list of its networks.\<close>

definition least_request :: "string \<Rightarrow> error + Network list \<Rightarrow> Request" where
  "least_request ns r =
    \<lparr>req_Namespace = ns,
     req_Name = (case r of
        Inl _ \<Rightarrow> ''default''
      | Inr nets \<Rightarrow> if nets = [] then ''default'' else Min (Name ` set nets))\<rparr>"

lemma canonicalNetworkRequest_least:
  "traces (canonicalNetworkRequest k ns) (\<lambda>req es. \<exists>r. es = [ListedNetworks ns r] \<and> req = least_request ns r)"
  unfolding canonicalNetworkRequest_def list_networks_def least_request_def
  by (intro trace_rules) (auto simp: SortFunc_hd_Min split: sum.split)

lemma trigger_note_silent [trace_rules]: "Q () [] \<Longrightarrow> traces (trigger_note ns kind name) Q"
  by (simp add: traces_def trigger_note_def)

lemma request_after_note:
  "traces (do { trigger_note ns kind name; req \<leftarrow> canonicalNetworkRequest k ns; ret [req] })
    (\<lambda>reqs es. \<exists>r. es = [ListedNetworks ns r] \<and> reqs = [least_request ns r])"
  by (rule traces_bind, rule trigger_note_silent, rule traces_seq[OF canonicalNetworkRequest_least],
      rule traces_return) auto

text \<open>
  (C30) Every event of a namespace, of a device or of a network, is mapped to the same one request,
  so the work queue merges them: it names the least network of the namespace, whatever the order
  of the list, or \<open>default\<close> where there is none or listing fails. The event's object is left as
  the trigger that the reconcile of this request will log.
\<close>

theorem namespace_events_coalesce:
  "traces (mapDeviceToNetwork k (DeviceObject dev))
     (\<lambda>reqs es. \<exists>r. es = [ListedNetworks (Namespace dev) r] \<and> reqs = [least_request (Namespace dev) r]) \<and>
   traces (enqueueCanonicalNetwork k (NetworkObject net))
     (\<lambda>reqs es. \<exists>r. es = [ListedNetworks (Namespace net) r] \<and> reqs = [least_request (Namespace net) r]) \<and>
   fst (consume_map (Namespace dev) (byKey (snd (run_state (mapDeviceToNetwork k (DeviceObject dev)) s)))) =
     Some \<lparr>tr_Kind = ''Device'', tr_Name = Name dev\<rparr> \<and>
   fst (consume_map (Namespace net) (byKey (snd (run_state (enqueueCanonicalNetwork k (NetworkObject net)) s)))) =
     Some \<lparr>tr_Kind = ''Network'', tr_Name = Name net\<rparr>"
proof (intro conjI)
  show "traces (mapDeviceToNetwork k (DeviceObject dev))
      (\<lambda>reqs es. \<exists>r. es = [ListedNetworks (Namespace dev) r] \<and> reqs = [least_request (Namespace dev) r])"
    by (simp add: mapDeviceToNetwork_def request_after_note)
  show "traces (enqueueCanonicalNetwork k (NetworkObject net))
      (\<lambda>reqs es. \<exists>r. es = [ListedNetworks (Namespace net) r] \<and> reqs = [least_request (Namespace net) r])"
    by (simp add: enqueueCanonicalNetwork_def Let_def request_after_note)
qed (auto simp: mapDeviceToNetwork_def enqueueCanonicalNetwork_def canonicalNetworkRequest_def
      list_networks_def call_def trigger_note_def note_map_def consume_map_def Let_def split: prod.split sum.split)

subsection \<open>Which Service events matter\<close>

abbreviation lb_entries :: "string \<Rightarrow> Service list \<Rightarrow> DnsHostEntry set" where
  "lb_entries sfx services \<equiv> set (dns_Hosts (BuildLoadBalancerBased services sfx))"

lemma lb_entries_eq:
  "lb_entries sfx services = (\<lambda>ip. \<lparr>dns_IP = ip, dns_Hostnames = sorted_list_of_set
      {Name s @ sfx | s. s \<in> {s \<in> set services. balanced s} \<and> service_ip s = ip}\<rparr>) `
    service_ip ` {s \<in> set services. balanced s}"
proof (rule set_eqI)
  fix h
  show "h \<in> lb_entries sfx services \<longleftrightarrow> h \<in> (\<lambda>ip. \<lparr>dns_IP = ip, dns_Hostnames = sorted_list_of_set
      {Name s @ sfx | s. s \<in> {s \<in> set services. balanced s} \<and> service_ip s = ip}\<rparr>) `
    service_ip ` {s \<in> set services. balanced s}"
    unfolding set_BuildLoadBalancerBased image_image image_iff by (auto simp: conj_assoc)
qed

lemma lb_addresses: "dns_IP ` lb_entries sfx services = service_ip ` {s \<in> set services. balanced s}"
  unfolding lb_entries_eq image_image by simp

lemma lb_entries_irrelevant:
  "svc_Type s \<noteq> ServiceTypeLoadBalancer \<Longrightarrow> lb_entries sfx (s # services) = lb_entries sfx services"
proof -
  assume "svc_Type s \<noteq> ServiceTypeLoadBalancer"
  then have "{x \<in> set (s # services). balanced x} = {x \<in> set services. balanced x}"
    by (auto simp: balanced_def)
  then show ?thesis unfolding lb_entries_eq by simp
qed

text \<open>
  (C31) What the filter on Service events lets through is enough in these cases: a Service whose
  creation or deletion is filtered out changes no wanted entry, nor does a filtered update of a
  Service that was no LoadBalancer before.
\<close>

theorem lbOnly_sound:
  "(lbOnly (CreateEvent (ServiceObject s)) \<or> lb_entries sfx (s # services) = lb_entries sfx services) \<and>
   (lbOnly (DeleteEvent (ServiceObject s)) \<or> lb_entries sfx (s # services) = lb_entries sfx services) \<and>
   (lbOnly (UpdateEvent (ServiceObject s) (ServiceObject new)) \<or> is_load_balancer (ServiceObject s) \<or>
     lb_entries sfx (s # services) = lb_entries sfx (new # services))"
  using lb_entries_irrelevant[where s = s and services = services] lb_entries_irrelevant[where s = new and services = services]
  by (auto simp: is_load_balancer_def)

text \<open>
  (C32) The remaining case is missed: when a Service stops being a LoadBalancer, the update is
  filtered out although the entry of its address is no longer wanted, so that the stale entry
  stays until something else triggers a reconcile.
\<close>

theorem lb_type_change_missed:
  assumes "svc_Type old = ServiceTypeLoadBalancer" and "service_ip old \<noteq> []"
    and "svc_Type new \<noteq> ServiceTypeLoadBalancer"
    and "\<And>s. s \<in> set services \<Longrightarrow> service_ip s \<noteq> service_ip old"
  shows "\<not> lbOnly (UpdateEvent (ServiceObject old) (ServiceObject new)) \<and>
    service_ip old \<in> dns_IP ` lb_entries sfx (old # services) \<and>
    service_ip old \<notin> dns_IP ` lb_entries sfx (new # services)"
proof -
  have old: "balanced old" using assms(1,2) by (simp add: balanced_def)
  have gone: "service_ip old \<notin> service_ip ` {s \<in> set services. balanced s}" using assms(4) by force
  show ?thesis
    unfolding lb_entries_irrelevant[OF assms(3)] lb_addresses
    using old gone assms(3) by (auto simp: is_load_balancer_def)
qed

subsection \<open>Every input is watched\<close>

text \<open>
  The kind of a read whose answer the desired state is built from. The objects listed for pruning
  are the operator's own output.
\<close>

fun input_kind :: "event \<Rightarrow> string option" where
  "input_kind (ListedDevices _ _) = Some ''Device''"
| "input_kind (ListedNetworks _ _) = Some ''Network''"
| "input_kind (ListedIngressRouters _) = Some ''IngressRouter''"
| "input_kind (ListedIngresses _) = Some ''Ingress''"
| "input_kind (ListedServices _) = Some ''Service''"
| "input_kind (ListedObjects gvk _ _ _) = (if gvk = list_gvk HTTPRouteGVK then Some ''HTTPRoute'' else None)"
| "input_kind _ = None"

definition input_watched :: "'w builder option \<Rightarrow> event \<Rightarrow> bool" where
  "input_watched b e =
    (case input_kind e of
       None \<Rightarrow> True
     | Some kind \<Rightarrow> (case b of None \<Rightarrow> False | Some b \<Rightarrow> kind \<in> fst ` set (bld_Watches b)))"

lemma output_kinds:
  "list_gvk DhcpHostsGVK \<noteq> list_gvk HTTPRouteGVK" "list_gvk DnsHostsGVK \<noteq> list_gvk HTTPRouteGVK"
  "list_gvk FreeRadiusDeviceGVK \<noteq> list_gvk HTTPRouteGVK"
  by (simp_all add: list_gvk_def HTTPRouteGVK_def DhcpHostsGVK_def DnsHostsGVK_def FreeRadiusDeviceGVK_def)

lemma reconcileNamespace_watched:
  assumes "EnableDeviceBasedHosts cfg"
  shows "calls_only (input_watched (DeviceReconciler_SetupWithManager k cfg)) (reconcileNamespace k cfg req)"
  unfolding reconcileNamespace_def reconcile_output_def apply_defs apply_free_radius_def
    free_radius_owner_def prune_outputs_def pruneManaged_def list_devices_def list_networks_def Let_def
  by (intro only_rules)
    (auto simp: input_watched_def DeviceReconciler_SetupWithManager_def assms output_kinds split: if_splits)

lemma reconcileIngress_watched:
  assumes "EnableIngressBasedDNSHosts cfg"
  shows "calls_only (input_watched (IngressDNSReconciler_SetupWithManager cfg)) (reconcileIngress k cfg ns)"
  unfolding reconcileIngress_def ensureIngressAnchor_def list_routers_def list_ingresses_def Let_def
  by (intro only_rules)
    (simp_all add: input_watched_def IngressDNSReconciler_SetupWithManager_def assms HTTPRouteGVK_def)

lemma reconcileLoadBalancer_watched:
  assumes "EnableLoadBalancerBasedDNSHosts cfg"
  shows "calls_only (input_watched (LoadBalancerDNSReconciler_SetupWithManager cfg)) (reconcileLoadBalancer k cfg ns)"
  unfolding reconcileLoadBalancer_def list_services_def Let_def
  by (intro only_rules)
    (simp_all add: input_watched_def LoadBalancerDNSReconciler_SetupWithManager_def assms)

text \<open>
  (C27) Every kind of object a reconciler builds its desired state from is watched by its
  controller, so that a change of an input triggers a reconcile.
\<close>

theorem inputs_watched:
  "calls_only (input_watched (DeviceReconciler_SetupWithManager k cfg)) (DeviceReconciler_Reconcile k cfg req) \<and>
   calls_only (input_watched (IngressDNSReconciler_SetupWithManager cfg)) (IngressDNSReconciler_Reconcile k cfg req) \<and>
   calls_only (input_watched (LoadBalancerDNSReconciler_SetupWithManager cfg)) (LoadBalancerDNSReconciler_Reconcile k cfg req)"
  unfolding DeviceReconciler_Reconcile_def IngressDNSReconciler_Reconcile_def
    LoadBalancerDNSReconciler_Reconcile_def Let_def
  by (simp add: only_return gate_run_only reconcileNamespace_watched reconcileIngress_watched
      reconcileLoadBalancer_watched)

end
