(* ===== verification/Startup.thy ===== *)
theory Startup
  imports Flags Watches
begin

text \<open>
  \<open>cmd/main.go\<close> after the flags: the options of the manager and the sequence of calls that set it
  up and run it. Every call may fail, which ends the process with exit code 1; the answers of
  controller-runtime are a function of the call, a parameter. The process also ends when
  \<open>flag.Parse\<close> rejects the command line (code 2) or has printed its help (code 0).
\<close>

subsection \<open>Options\<close>

text \<open>The variables of \<open>main\<close> that flags are bound to, and their defaults.\<close>

record main_flags =
  metricsAddr :: string
  metricsCertPath :: string
  metricsCertName :: string
  metricsCertKey :: string
  webhookCertPath :: string
  webhookCertName :: string
  webhookCertKey :: string
  webhookPort :: int64
  enableLeaderElection :: bool
  leaderElectionNamespace :: string
  probeAddr :: string
  secureMetrics :: bool
  enableHTTP2 :: bool

definition default_flags :: main_flags where
  "default_flags =
    \<lparr>metricsAddr = ''0'', metricsCertPath = [], metricsCertName = ''tls.crt'', metricsCertKey = ''tls.key'',
     webhookCertPath = [], webhookCertName = ''tls.crt'', webhookCertKey = ''tls.key'', webhookPort = 9443,
     enableLeaderElection = True, leaderElectionNamespace = [], probeAddr = '':8081'',
     secureMetrics = True, enableHTTP2 = False\<rparr>"

text \<open>\<open>http1_only\<close>: the option that sets the TLS protocols to HTTP/1.1 is present.\<close>

record webhook_options =
  wh_http1_only :: bool
  wh_Port :: int64
  wh_CertDir :: string
  wh_CertName :: string
  wh_KeyName :: string

record metrics_options =
  ms_BindAddress :: string
  ms_SecureServing :: bool
  ms_http1_only :: bool
  ms_authenticated :: bool
  ms_CertDir :: string
  ms_CertName :: string
  ms_KeyName :: string

record manager_options =
  mo_DefaultNamespaces :: "(string, unit) gomap option"
  mo_Metrics :: metrics_options
  mo_WebhookServer :: webhook_options
  mo_HealthProbeBindAddress :: string
  mo_LeaderElection :: bool
  mo_LeaderElectionID :: string
  mo_LeaderElectionNamespace :: string

definition webhookServer :: "main_flags \<Rightarrow> webhook_options" where
  "webhookServer f =
    \<lparr>wh_http1_only = (\<not> enableHTTP2 f), wh_Port = webhookPort f, wh_CertDir = webhookCertPath f,
     wh_CertName = webhookCertName f, wh_KeyName = webhookCertKey f\<rparr>"

definition metricsServerOptions :: "main_flags \<Rightarrow> metrics_options" where
  "metricsServerOptions f =
    (let opts = \<lparr>ms_BindAddress = metricsAddr f, ms_SecureServing = secureMetrics f,
                 ms_http1_only = (\<not> enableHTTP2 f), ms_authenticated = False,
                 ms_CertDir = [], ms_CertName = [], ms_KeyName = []\<rparr>;
         opts = (if secureMetrics f then opts\<lparr>ms_authenticated := True\<rparr> else opts)
     in if length (metricsCertPath f) > 0
        then opts\<lparr>ms_CertDir := metricsCertPath f, ms_CertName := metricsCertName f,
                  ms_KeyName := metricsCertKey f\<rparr>
        else opts)"

definition managerOptions :: "main_flags \<Rightarrow> Config \<Rightarrow> manager_options" where
  "managerOptions f cfg =
    \<lparr>mo_DefaultNamespaces = cache_DefaultNamespaces cfg,
     mo_Metrics = metricsServerOptions f,
     mo_WebhookServer = webhookServer f,
     mo_HealthProbeBindAddress = probeAddr f,
     mo_LeaderElection = enableLeaderElection f,
     mo_LeaderElectionID = ''homelab-operator.valdron.ca'',
     mo_LeaderElectionNamespace = leaderElectionNamespace f\<rparr>"

subsection \<open>The calls of main\<close>

text \<open>\<open>Complete\<close> registers the controller of that name with what its builder was asked for.\<close>

datatype startup_call =
    GetConfigOrDie
  | NewManager manager_options
  | Complete string
  | AddHealthzCheck string
  | AddReadyzCheck string
  | Start

text \<open>\<open>SetupWithManager\<close>: one call, none for a disabled aggregate.\<close>

definition setup_call :: "'w builder option \<Rightarrow> startup_call list" where
  "setup_call b = (case b of None \<Rightarrow> [] | Some b \<Rightarrow> [Complete (bld_Named b)])"

definition startup_calls :: "'w kube \<Rightarrow> main_flags \<Rightarrow> Config \<Rightarrow> startup_call list" where
  "startup_calls k f cfg =
    [GetConfigOrDie, NewManager (managerOptions f cfg)] @
    setup_call (DeviceReconciler_SetupWithManager k cfg) @
    setup_call (IngressDNSReconciler_SetupWithManager cfg :: 'w builder option) @
    setup_call (LoadBalancerDNSReconciler_SetupWithManager cfg :: 'w builder option) @
    [AddHealthzCheck ''healthz'', AddReadyzCheck ''readyz'', Start]"

text \<open>Make the calls one by one; after a failed one, \<open>os.Exit(1)\<close>.\<close>

fun make_calls :: "(startup_call \<Rightarrow> error option) \<Rightarrow> startup_call list \<Rightarrow> startup_call list \<times> nat" where
  "make_calls answer [] = ([], 0)"
| "make_calls answer (c # cs) =
    (case answer c of
       Some _ \<Rightarrow> ([c], 1)
     | None \<Rightarrow> (case make_calls answer cs of (made, code) \<Rightarrow> (c # made, code)))"

definition main_program :: "'w kube \<Rightarrow> (startup_call \<Rightarrow> error option) \<Rightarrow> environ \<Rightarrow> other_flags \<Rightarrow>
    string list \<Rightarrow> main_flags \<Rightarrow> startup_call list \<times> nat" where
  "main_program k answer env other args f =
    (case main_config env other args of
       Inl e \<Rightarrow> ([], if e = HelpRequested then 0 else 2)
     | Inr cfg \<Rightarrow> make_calls answer (startup_calls k f cfg))"

subsection \<open>Starting up\<close>

lemma make_calls_props:
  assumes "make_calls answer cs = (made, code)"
  shows "take (length made) cs = made \<and> list_all (\<lambda>c. answer c = None) (butlast made) \<and>
    (if list_all (\<lambda>c. answer c = None) cs then code = 0 \<and> made = cs
     else code = 1 \<and> answer (last made) \<noteq> None \<and> made \<noteq> [])"
  using assms
proof (induction cs arbitrary: made code)
  case (Cons c cs)
  show ?case
  proof (cases "answer c")
    case None
    obtain made' code' where rest: "make_calls answer cs = (made', code')" by fastforce
    with None Cons.prems have "made = c # made'" "code = code'" by simp_all
    with Cons.IH[OF rest] None show ?thesis by (auto split: if_splits)
  qed (use Cons.prems in auto)
qed simp

lemma startup_calls_controllers:
  "startup_calls k f cfg = GetConfigOrDie # NewManager (managerOptions f cfg) #
    map Complete
      ((if EnableDeviceBasedHosts cfg then [''device''] else []) @
       (if EnableIngressBasedDNSHosts cfg then [''ingressdns''] else []) @
       (if EnableLoadBalancerBasedDNSHosts cfg then [''loadbalancerdns''] else [])) @
    [AddHealthzCheck ''healthz'', AddReadyzCheck ''readyz'', Start]"
  by (simp add: startup_calls_def setup_call_def DeviceReconciler_SetupWithManager_def
      IngressDNSReconciler_SetupWithManager_def LoadBalancerDNSReconciler_SetupWithManager_def)

text \<open>
  (C39) Start-up: with a command line that parses, \<open>main\<close> reads the cluster configuration, creates the
  manager, registers one controller per enabled aggregate, in order, then the health checks, and
  starts the manager. It stops at the first call that fails, with exit code 1, and ends with exit
  code 0 when every call was made and none failed. Another command line ends it before any call.
\<close>

theorem main_startup:
  "case main_config env other args of
     Inl e \<Rightarrow> main_program k answer env other args f = ([], if e = HelpRequested then 0 else 2)
   | Inr cfg \<Rightarrow>
       (let controllers =
          (if EnableDeviceBasedHosts cfg then [''device''] else []) @
          (if EnableIngressBasedDNSHosts cfg then [''ingressdns''] else []) @
          (if EnableLoadBalancerBasedDNSHosts cfg then [''loadbalancerdns''] else []);
        calls = GetConfigOrDie # NewManager (managerOptions f cfg) # map Complete controllers @
          [AddHealthzCheck ''healthz'', AddReadyzCheck ''readyz'', Start];
        (made, code) = main_program k answer env other args f
        in take (length made) calls = made \<and> list_all (\<lambda>c. answer c = None) (butlast made) \<and>
          (if list_all (\<lambda>c. answer c = None) calls then code = 0 \<and> made = calls
           else code = 1 \<and> answer (last made) \<noteq> None \<and> made \<noteq> []))"
proof (cases "main_config env other args")
  case (Inr cfg)
  obtain made code where run: "make_calls answer (startup_calls k f cfg) = (made, code)" by fastforce
  show ?thesis
    using make_calls_props[OF run] unfolding startup_calls_controllers
    by (simp add: main_program_def Inr run Let_def)
qed (simp add: main_program_def)

end
