(* ===== verification/Scheme.thy ===== *)
theory Scheme
  imports Watches
begin

text \<open>
  The registration of types in the scheme the manager's client uses: package \<open>api/v1\<close>
  (\<open>groupversion_info.go\<close> and the \<open>init\<close> functions of the three type files), \<open>AddExternal\<close>
  (\<open>internal/scheme/external.go\<close>) and the \<open>init\<close> of \<open>cmd/main.go\<close>. A scheme is a value of any
  type \<open>'s\<close>, a Go type in it its name; \<open>runtime.SchemeBuilder\<close> is the slice of functions its
  type declares.
\<close>

subsection \<open>apimachinery and client-go\<close>

record GroupVersion =
  gv_Group :: string
  gv_Version :: string

definition WithKind :: "GroupVersion \<Rightarrow> string \<Rightarrow> GroupVersionKind" where
  "WithKind gv kind = \<lparr>gvk_Group = gv_Group gv, gvk_Version = gv_Version gv, gvk_Kind = kind\<rparr>"

type_synonym 's scheme_func = "'s \<Rightarrow> error + 's"

type_synonym 's SchemeBuilder = "'s scheme_func list"

record 's scheme_lib =
  AddKnownTypes :: "GroupVersion \<Rightarrow> string list \<Rightarrow> 's \<Rightarrow> 's"
  AddKnownTypeWithName :: "GroupVersionKind \<Rightarrow> 's \<Rightarrow> 's"
  AddToGroupVersion :: "GroupVersion \<Rightarrow> 's \<Rightarrow> 's"
  Register :: "'s scheme_func \<Rightarrow> 's SchemeBuilder \<Rightarrow> 's SchemeBuilder"
  Builder_AddToScheme :: "'s SchemeBuilder \<Rightarrow> 's scheme_func"
  clientgo_AddToScheme :: "'s scheme_func"

subsection \<open>Package \<open>api/v1\<close>\<close>

definition SchemeGroupVersion :: GroupVersion where
  "SchemeGroupVersion = \<lparr>gv_Group = ''homelab.valdron.ca'', gv_Version = ''v1''\<rparr>"

text \<open>
  \<open>SchemeBuilder\<close> as its declaration initialises it, before the \<open>init\<close> functions run; Go runs
  those of a package in the order of its files.
\<close>

definition SchemeBuilder_decl :: "'s scheme_lib \<Rightarrow> 's SchemeBuilder" where
  "SchemeBuilder_decl lib = [\<lambda>scheme. Inr (AddToGroupVersion lib SchemeGroupVersion scheme)]"

definition init_device :: "'s scheme_lib \<Rightarrow> 's SchemeBuilder \<Rightarrow> 's SchemeBuilder" where
  "init_device lib =
    Register lib (\<lambda>s. Inr (AddKnownTypes lib SchemeGroupVersion [''Device'', ''DeviceList''] s))"

definition init_ingressrouter :: "'s scheme_lib \<Rightarrow> 's SchemeBuilder \<Rightarrow> 's SchemeBuilder" where
  "init_ingressrouter lib =
    Register lib (\<lambda>s. Inr (AddKnownTypes lib SchemeGroupVersion [''IngressRouter'', ''IngressRouterList''] s))"

definition init_network :: "'s scheme_lib \<Rightarrow> 's SchemeBuilder \<Rightarrow> 's SchemeBuilder" where
  "init_network lib =
    Register lib (\<lambda>s. Inr (AddKnownTypes lib SchemeGroupVersion [''Network'', ''NetworkList''] s))"

definition v1_SchemeBuilder :: "'s scheme_lib \<Rightarrow> 's SchemeBuilder" where
  "v1_SchemeBuilder lib = init_network lib (init_ingressrouter lib (init_device lib (SchemeBuilder_decl lib)))"

text \<open>The method value \<open>SchemeBuilder.AddToScheme\<close> holds the variable's address, so it sees them.\<close>

definition v1_AddToScheme :: "'s scheme_lib \<Rightarrow> 's scheme_func" where
  "v1_AddToScheme lib = Builder_AddToScheme lib (v1_SchemeBuilder lib)"

subsection \<open>External kinds\<close>

definition external_gvks :: "GroupVersionKind list" where
  "external_gvks = [DnsHostsGVK, DhcpHostsGVK, DhcpOptionsGVK, FreeRadiusDeviceGVK, HTTPRouteGVK]"

definition add_external :: "'s scheme_lib \<Rightarrow> GroupVersionKind \<Rightarrow> 's \<Rightarrow> 's" where
  "add_external lib gvk s = AddKnownTypeWithName lib (list_gvk gvk) (AddKnownTypeWithName lib gvk s)"

definition AddExternal :: "'s scheme_lib \<Rightarrow> 's scheme_func" where
  "AddExternal lib s = Inr (fold (add_external lib) external_gvks s)"

subsection \<open>The program's scheme\<close>

text \<open>\<open>utilruntime.Must\<close> panics on an error: \<open>Inl\<close> is that panic.\<close>

definition main_init :: "'s scheme_lib \<Rightarrow> 's scheme_func" where
  "main_init lib scheme =
    (case clientgo_AddToScheme lib scheme of
       Inl e \<Rightarrow> Inl e
     | Inr scheme \<Rightarrow>
         (case v1_AddToScheme lib scheme of
            Inl e \<Rightarrow> Inl e
          | Inr scheme \<Rightarrow> AddExternal lib scheme))"

subsection \<open>What the libraries document\<close>

definition core :: GroupVersion where
  "core = \<lparr>gv_Group = [], gv_Version = ''v1''\<rparr>"

definition networking :: GroupVersion where
  "networking = \<lparr>gv_Group = ''networking.k8s.io'', gv_Version = ''v1''\<rparr>"

text \<open>
  \<open>knows s\<close> are the kinds a scheme recognises. Registering adds the kinds it names and forgets
  none; a builder appends what is registered with it and runs its functions in order, up to the
  first error; client-go's scheme has the kinds of Kubernetes.
\<close>

definition documented_scheme :: "'s scheme_lib \<Rightarrow> ('s \<Rightarrow> GroupVersionKind set) \<Rightarrow> bool" where
  "documented_scheme lib knows \<longleftrightarrow>
    (\<forall>gv kinds s. knows (AddKnownTypes lib gv kinds s) = knows s \<union> WithKind gv ` set kinds) \<and>
    (\<forall>gvk s. knows (AddKnownTypeWithName lib gvk s) = insert gvk (knows s)) \<and>
    (\<forall>gv s. knows s \<subseteq> knows (AddToGroupVersion lib gv s)) \<and>
    (\<forall>f fs. Register lib f fs = fs @ [f]) \<and>
    (\<forall>s. Builder_AddToScheme lib [] s = Inr s) \<and>
    (\<forall>f fs s. Builder_AddToScheme lib (f # fs) s =
      (case f s of Inl e \<Rightarrow> Inl e | Inr s \<Rightarrow> Builder_AddToScheme lib fs s)) \<and>
    (\<forall>s s'. clientgo_AddToScheme lib s = Inr s' \<longrightarrow>
      {WithKind core ''ConfigMap'', WithKind core ''ServiceList'', WithKind core ''Service'',
       WithKind networking ''IngressList'', WithKind networking ''Ingress''} \<subseteq> knows s')"

text \<open>The kinds the reconcilers' calls are about, and those of a builder.\<close>

fun used_kinds :: "event \<Rightarrow> GroupVersionKind set" where
  "used_kinds (Got gvk _ _ _) = {gvk}"
| "used_kinds (ListedDevices _ _) = {WithKind SchemeGroupVersion ''DeviceList''}"
| "used_kinds (ListedNetworks _ _) = {WithKind SchemeGroupVersion ''NetworkList''}"
| "used_kinds (ListedIngressRouters _) = {WithKind SchemeGroupVersion ''IngressRouterList''}"
| "used_kinds (ListedIngresses _) = {WithKind networking ''IngressList''}"
| "used_kinds (ListedServices _) = {WithKind core ''ServiceList''}"
| "used_kinds (ListedObjects gvk _ _ _) = {gvk}"
| "used_kinds (Applied u _ _) = {u_GVK u}"
| "used_kinds (AppliedConfigMap _ _) = {WithKind core ''ConfigMap''}"
| "used_kinds (Deleted _ _) = {}"
| "used_kinds (UpdatedDevice _ _) = {WithKind SchemeGroupVersion ''Device''}"
| "used_kinds (UpdatedNetwork _ _) = {WithKind SchemeGroupVersion ''Network''}"
| "used_kinds (UpdatedIngressRouter _ _) = {WithKind SchemeGroupVersion ''IngressRouter''}"
| "used_kinds (Logged _ _) = {}"

definition operator_kinds :: "GroupVersionKind set" where
  "operator_kinds =
    WithKind SchemeGroupVersion ` {''Device'', ''DeviceList'', ''Network'', ''NetworkList'',
      ''IngressRouter'', ''IngressRouterList''} \<union>
    {WithKind core ''ConfigMap'', WithKind core ''ServiceList'', WithKind core ''Service'',
     WithKind networking ''IngressList'', WithKind networking ''Ingress''} \<union>
    set external_gvks \<union> list_gvk ` set external_gvks"

abbreviation uses_known :: "event \<Rightarrow> bool" where
  "uses_known e \<equiv> used_kinds e \<subseteq> operator_kinds"

lemma PlanUnstructured_known:
  "u_GVK obj \<in> operator_kinds \<Longrightarrow> calls_only uses_known (PlanUnstructured k obj)"
  by (rule PlanUnstructured_rule) simp

lemma ApplyUnstructured_known:
  "u_GVK obj \<in> operator_kinds \<Longrightarrow> calls_only uses_known (ApplyUnstructured k obj dryRun lbl owner)"
  by (rule ApplyUnstructured_rule) simp_all

lemma planAndApply_known:
  "u_GVK obj \<in> operator_kinds \<Longrightarrow> calls_only uses_known (planAndApply k cfg obj lbl owner)"
  unfolding planAndApply_def
  by (intro only_bind traces_case_prod traces_case_option traces_if only_return PlanUnstructured_known
      ApplyUnstructured_known)

lemma plan_then_apply_known:
  "u_GVK obj \<in> operator_kinds \<Longrightarrow> (\<And>plan. calls_only uses_known (rest plan)) \<Longrightarrow>
    calls_only uses_known (plan_then_apply k cfg obj lbl anchor rest)"
  unfolding plan_then_apply_def
  by (intro only_bind traces_case_prod traces_case_option traces_if only_return or_return_only
      PlanUnstructured_known ApplyUnstructured_known)

lemma known_gvks:
  "DnsHostsGVK \<in> operator_kinds" "DhcpHostsGVK \<in> operator_kinds" "DhcpOptionsGVK \<in> operator_kinds"
  "FreeRadiusDeviceGVK \<in> operator_kinds" "list_gvk DnsHostsGVK \<in> operator_kinds"
  "list_gvk DhcpHostsGVK \<in> operator_kinds" "list_gvk FreeRadiusDeviceGVK \<in> operator_kinds"
  "list_gvk HTTPRouteGVK \<in> operator_kinds"
  by (simp_all add: operator_kinds_def external_gvks_def)

lemma known_typed:
  "WithKind SchemeGroupVersion ''DeviceList'' \<in> operator_kinds" "WithKind SchemeGroupVersion ''Device'' \<in> operator_kinds"
  "WithKind SchemeGroupVersion ''NetworkList'' \<in> operator_kinds" "WithKind SchemeGroupVersion ''Network'' \<in> operator_kinds"
  "WithKind SchemeGroupVersion ''IngressRouterList'' \<in> operator_kinds"
  "WithKind SchemeGroupVersion ''IngressRouter'' \<in> operator_kinds"
  "WithKind networking ''IngressList'' \<in> operator_kinds" "WithKind core ''ServiceList'' \<in> operator_kinds"
  "WithKind core ''ConfigMap'' \<in> operator_kinds"
  by (simp_all add: operator_kinds_def)

lemma applies_known [only_rules]:
  "calls_only uses_known (applyDhcpOptions k cfg ns opts owner)"
  "calls_only uses_known (applyDhcpHosts k cfg ns owner name hosts)"
  "calls_only uses_known (applyDnsHosts k cfg ns owner name dns)"
  "calls_only uses_known (applyFreeRadius k cfg ns owner name spec)"
  unfolding apply_defs Let_def
  by (rule planAndApply_known;
      simp add: NewDhcpOptions_def NewDhcpHosts_def NewDnsHosts_def free_radius_object_def Let_def known_gvks)+


lemma reconcileNamespace_known: "calls_only uses_known (reconcileNamespace k cfg req)"
  unfolding reconcileNamespace_def reconcile_output_def apply_free_radius_def
    free_radius_owner_def prune_outputs_def pruneManaged_def list_devices_def list_networks_def Let_def
  by (intro only_rules) (auto simp: known_gvks known_typed split: if_splits)

lemma anchor_known: "calls_only uses_known (ensureAnchor k cfg ns name lbl)"
  by (intro only_rules) (simp add: known_typed)

lemma reconcileIngress_known: "calls_only uses_known (reconcileIngress k cfg ns)"
proof -
  have routes: "calls_only uses_known (if b then listHTTPRoutes k else ret (Inr []))" for b
    by (intro only_rules) (simp add: known_gvks)
  have report: "calls_only uses_known (do {
      updateRouterStatuses k cfg routers True [];
      logReconcileSummary [] d a plans; ret (no_result, None) })" for routers d a plans
    by (intro only_rules) (simp_all add: known_typed)
  show ?thesis
    unfolding reconcileIngress_def ensureIngressAnchor_def list_routers_def list_ingresses_def Let_def
    by (intro or_return_only anchor_known only_call routes traces_case_prod plan_then_apply_known report)
      (simp_all add: known_typed known_gvks NewDnsHosts_def)
qed

lemma reconcileLoadBalancer_known: "calls_only uses_known (reconcileLoadBalancer k cfg ns)"
proof -
  have report: "calls_only uses_known (do { logReconcileSummary [] d a plans; ret (no_result, None) })" for d a plans
    by (intro only_rules) simp
  show ?thesis
    unfolding reconcileLoadBalancer_def list_services_def Let_def
    by (intro or_return_only anchor_known only_call plan_then_apply_known report)
      (simp_all add: known_typed known_gvks NewDnsHosts_def)
qed

text \<open>What the kinds named by \<open>For\<close> and \<open>Watches\<close> are in Go.\<close>

definition watch_gvk :: "string \<Rightarrow> GroupVersionKind" where
  "watch_gvk kind =
    (if kind \<in> {''Device'', ''Network'', ''IngressRouter''} then WithKind SchemeGroupVersion kind
     else if kind = ''Ingress'' then WithKind networking kind
     else if kind = ''HTTPRoute'' then HTTPRouteGVK
     else WithKind core kind)"

definition watched_kinds :: "'w builder option \<Rightarrow> GroupVersionKind set" where
  "watched_kinds b =
    (case b of None \<Rightarrow> {} | Some b \<Rightarrow> watch_gvk ` insert (bld_For b) (fst ` set (bld_Watches b)))"

lemma watched_known:
  "watched_kinds (DeviceReconciler_SetupWithManager k cfg) \<subseteq> operator_kinds"
  "watched_kinds (IngressDNSReconciler_SetupWithManager cfg) \<subseteq> operator_kinds"
  "watched_kinds (LoadBalancerDNSReconciler_SetupWithManager cfg) \<subseteq> operator_kinds"
  by (auto simp: watched_kinds_def watch_gvk_def operator_kinds_def external_gvks_def HTTPRouteGVK_def
    DeviceReconciler_SetupWithManager_def IngressDNSReconciler_SetupWithManager_def
    LoadBalancerDNSReconciler_SetupWithManager_def)

lemma knows_external:
  assumes "documented_scheme lib knows"
  shows "knows (fold (add_external lib) gvks s) = knows s \<union> set gvks \<union> list_gvk ` set gvks"
proof (induction gvks arbitrary: s)
  case (Cons gvk gvks)
  have "knows (add_external lib gvk s) = insert (list_gvk gvk) (insert gvk (knows s))"
    using assms by (simp add: documented_scheme_def add_external_def)
  with Cons show ?case by auto
qed simp

lemma four_parts: "A \<union> B \<subseteq> V \<Longrightarrow> C \<subseteq> A \<Longrightarrow> B \<union> C \<union> E \<union> L \<subseteq> V \<union> E \<union> L"
  by blast

lemma main_init_knows:
  assumes "documented_scheme lib knows" and "clientgo_AddToScheme lib s = Inr s0"
  shows "\<exists>s'. main_init lib s = Inr s' \<and> operator_kinds \<subseteq> knows s'"
proof -
  let ?add = "\<lambda>kinds s. AddKnownTypes lib SchemeGroupVersion kinds s"
  let ?v1 = "?add [''Network'', ''NetworkList''] (?add [''IngressRouter'', ''IngressRouterList'']
    (?add [''Device'', ''DeviceList''] (AddToGroupVersion lib SchemeGroupVersion s0)))"
  have "v1_AddToScheme lib s0 = Inr ?v1"
    using assms(1) by (simp add: documented_scheme_def v1_AddToScheme_def v1_SchemeBuilder_def
      SchemeBuilder_decl_def init_device_def init_ingressrouter_def init_network_def)
  then have "main_init lib s = Inr (fold (add_external lib) external_gvks ?v1)"
    by (simp add: main_init_def assms(2) AddExternal_def)
  moreover have "operator_kinds \<subseteq> knows (fold (add_external lib) external_gvks ?v1)"
    unfolding operator_kinds_def knows_external[OF assms(1)]
  proof (rule four_parts)
    have keep: "knows s0 \<subseteq> knows (AddToGroupVersion lib SchemeGroupVersion s0)"
      and grow: "knows (AddKnownTypes lib gv kinds x) = knows x \<union> WithKind gv ` set kinds" for gv kinds x
      using assms(1) by (simp_all add: documented_scheme_def)
    show "knows s0 \<union> WithKind SchemeGroupVersion ` {''Device'', ''DeviceList'', ''Network'', ''NetworkList'',
        ''IngressRouter'', ''IngressRouterList''} \<subseteq> knows ?v1"
      using keep by (auto simp: grow)
    show "{WithKind core ''ConfigMap'', WithKind core ''ServiceList'', WithKind core ''Service'',
        WithKind networking ''IngressList'', WithKind networking ''Ingress''} \<subseteq> knows s0"
      using assms by (simp add: documented_scheme_def)
  qed
  ultimately show ?thesis by blast
qed

text \<open>
  (C28) The scheme the program starts with recognises every kind it needs: once client-go's kinds
  are registered the registration cannot fail, and afterwards every object and list the three
  reconcilers read or write, and every kind their controllers watch, is of a registered kind.
\<close>

theorem scheme_complete:
  assumes "documented_scheme lib knows" and "clientgo_AddToScheme lib s = Inr s0"
  shows "\<exists>s'. main_init lib s = Inr s' \<and>
    calls_only (\<lambda>e. used_kinds e \<subseteq> knows s') (DeviceReconciler_Reconcile k cfg req) \<and>
    calls_only (\<lambda>e. used_kinds e \<subseteq> knows s') (IngressDNSReconciler_Reconcile k cfg req) \<and>
    calls_only (\<lambda>e. used_kinds e \<subseteq> knows s') (LoadBalancerDNSReconciler_Reconcile k cfg req) \<and>
    watched_kinds (DeviceReconciler_SetupWithManager k cfg) \<subseteq> knows s' \<and>
    watched_kinds (IngressDNSReconciler_SetupWithManager cfg) \<subseteq> knows s' \<and>
    watched_kinds (LoadBalancerDNSReconciler_SetupWithManager cfg) \<subseteq> knows s'"
proof -
  obtain s' where s': "main_init lib s = Inr s'" "operator_kinds \<subseteq> knows s'"
    using main_init_knows[OF assms] by blast
  have calls: "calls_only (\<lambda>e. used_kinds e \<subseteq> knows s') m" if "calls_only uses_known m" for m :: "('x, 'y) prog"
    using that by (rule only_mono) (use s'(2) in blast)
  show ?thesis
    unfolding DeviceReconciler_Reconcile_def IngressDNSReconciler_Reconcile_def
      LoadBalancerDNSReconciler_Reconcile_def Let_def
  proof (intro exI[of _ s'] conjI traces_if only_return gate_run_only calls reconcileNamespace_known
      reconcileIngress_known reconcileLoadBalancer_known)
    show "main_init lib s = Inr s'" by (rule s')
  qed (use watched_known s'(2) in \<open>blast+\<close>)
qed

end
