(* ===== verification/GoJson.thy ===== *)
theory GoJson
  imports ApiTypes
begin

text \<open>
  Package \<open>encoding/json\<close> as far as the source uses it to read a dynamic value into a struct:
  \<open>Marshal\<close> of a map, whose text is represented by the value it denotes (no key twice, keys in
  order), and \<open>Unmarshal\<close> of such a text into structs, slices and strings. A Go type is a
  \<open>gtype\<close>, a value of it a \<open>gval\<close>; a slice is its cells up to the capacity, of which a number are
  in use.
\<close>

subsection \<open>Marshal\<close>

function (sequential) Marshal :: "jv \<Rightarrow> jv" where
  "Marshal (JArray vs) = JArray (map Marshal vs)"
| "Marshal (JObject kvs) = JObject (slices_SortFunc
     (AList.clearjunk (map (\<lambda>kv. (fst kv, Marshal (snd kv))) kvs)) (\<lambda>a b. cmp_Compare (fst a) (fst b)))"
| "Marshal v = v"
  by pat_completeness auto
termination
proof (relation "measure size")
  fix kvs :: "(string \<times> jv) list" and kv
  assume "kv \<in> set kvs"
  then show "(snd kv, JObject kvs) \<in> measure size"
    by (induction kvs) auto
qed (auto simp: less_Suc_eq_le size_list_estimation')

subsection \<open>Types and values\<close>

datatype gtype = TString | TSlice gtype | TStruct "(string \<times> gtype) list"

datatype gval = VString string | VSlice "gval list" nat | VStruct "gval list"

fun zero_value :: "gtype \<Rightarrow> gval" where
  "zero_value TString = VString []"
| "zero_value (TSlice T) = VSlice [] 0"
| "zero_value (TStruct fs) = VStruct (map (\<lambda>f. zero_value (snd f)) fs)"

text \<open>
  A key names the field of its exact name, or else the first whose name differs in case only.
  The letters \<open>s\<close> and \<open>k\<close> have a third form, \<open>U+017F\<close> and \<open>U+212A\<close>; no other character
  folds to an ASCII one.
\<close>

definition fold_ascii :: "char \<Rightarrow> char" where
  "fold_ascii c = (if CHR ''a'' \<le> c \<and> c \<le> CHR ''z'' then char_of (of_char c - 32 :: nat) else c)"

fun foldName :: "string \<Rightarrow> string" where
  "foldName [] = []"
| "foldName (c # cs) =
    (if c = CHR 0xC5 \<and> take 1 cs = [CHR 0xBF] then CHR ''S'' # foldName (drop 1 cs)
     else if c = CHR 0xE2 \<and> take 2 cs = [CHR 0x84, CHR 0xAA] then CHR ''K'' # foldName (drop 2 cs)
     else fold_ascii c # foldName cs)"

fun field_where :: "(string \<Rightarrow> bool) \<Rightarrow> (string \<times> gtype) list \<Rightarrow> (nat \<times> gtype) option" where
  "field_where P [] = None"
| "field_where P ((name, T) # fs) =
    (if P name then Some (0, T) else map_option (map_prod Suc id) (field_where P fs))"

definition struct_field :: "(string \<times> gtype) list \<Rightarrow> string \<Rightarrow> (nat \<times> gtype) option" where
  "struct_field fs key =
    (case field_where (\<lambda>name. name = key) fs of
       Some f \<Rightarrow> Some f
     | None \<Rightarrow> field_where (\<lambda>name. foldName name = foldName key) fs)"

subsection \<open>Unmarshal\<close>

text \<open>
  A value of the wrong type is skipped and its error kept, if it is the first; \<open>wrong what T path\<close>
  is that error, for the kind of value met, the type wanted and the fields passed. \<open>null\<close> empties
  a slice and leaves the rest alone. An array is decoded into the cells the slice has, which keep
  what the array does not mention.
\<close>

type_synonym type_error = "string \<Rightarrow> gtype \<Rightarrow> string list \<Rightarrow> error"

definition first_error :: "error option \<Rightarrow> error option \<Rightarrow> error option" where
  "first_error e e' = (case e of None \<Rightarrow> e' | Some e \<Rightarrow> Some e)"

fun json_kind :: "jv \<Rightarrow> string" where
  "json_kind JNull = ''null''"
| "json_kind (JBool _) = ''bool''"
| "json_kind (JInt _) = ''number''"
| "json_kind (JString _) = ''string''"
| "json_kind (JArray _) = ''array''"
| "json_kind (JObject _) = ''object''"

fun decode :: "type_error \<Rightarrow> string list \<Rightarrow> gtype \<Rightarrow> jv \<Rightarrow> gval \<Rightarrow> gval \<times> error option"
  and decode_elems :: "type_error \<Rightarrow> string list \<Rightarrow> gtype \<Rightarrow> jv list \<Rightarrow> gval list \<Rightarrow> gval list \<times> error option"
  and decode_fields :: "type_error \<Rightarrow> string list \<Rightarrow> (string \<times> gtype) list \<Rightarrow> (string \<times> jv) list \<Rightarrow>
    gval list \<Rightarrow> gval list \<times> error option" where
  "decode wrong path (TSlice T) JNull old = (VSlice [] 0, None)"
| "decode wrong path T JNull old = (old, None)"
| "decode wrong path TString (JString s) old = (VString s, None)"
| "decode wrong path (TSlice T) (JArray []) old = (VSlice [] 0, None)"
| "decode wrong path (TSlice T) (JArray vs) (VSlice cells n) =
    (let (cells, e) = decode_elems wrong path T vs cells in (VSlice cells (length vs), e))"
| "decode wrong path (TStruct fs) (JObject kvs) (VStruct vals) =
    (let (vals, e) = decode_fields wrong path fs kvs vals in (VStruct vals, e))"
| "decode wrong path T v old = (old, Some (wrong (json_kind v) T path))"
| "decode_elems wrong path T [] cells = (cells, None)"
| "decode_elems wrong path T (v # vs) cells =
    (let (x, e) = decode wrong path T v (case cells of [] \<Rightarrow> zero_value T | c # _ \<Rightarrow> c);
         (xs, e') = decode_elems wrong path T vs (tl cells)
     in (x # xs, first_error e e'))"
| "decode_fields wrong path fs [] vals = (vals, None)"
| "decode_fields wrong path fs ((key, v) # kvs) vals =
    (case struct_field fs key of
       None \<Rightarrow> decode_fields wrong path fs kvs vals
     | Some (i, T) \<Rightarrow>
         let (x, e) = decode wrong (path @ [fst (fs ! i)]) T v (vals ! i);
             (vals, e') = decode_fields wrong path fs kvs (vals[i := x])
         in (vals, first_error e e'))"

definition Unmarshal :: "type_error \<Rightarrow> gtype \<Rightarrow> jv \<Rightarrow> gval \<Rightarrow> gval \<times> error option" where
  "Unmarshal wrong T text out = decode wrong [] T text out"

end
