(* ===== verification/Parse.thy ===== *)
theory Parse
  imports GoJson DnsObjects
begin

text \<open>
  The parse functions of \<open>internal/dnsmasq/unstructured.go\<close>, the inverses of the constructors:
  the spec of an object is marshalled and unmarshalled into the struct of its kind. Each struct
  has its Go type, with the JSON names of its fields, and the reading of a value of that type.
\<close>

subsection \<open>The structs as Go types\<close>

fun of_string :: "gval \<Rightarrow> string" where
  "of_string (VString s) = s"
| "of_string _ = []"

fun of_slice :: "(gval \<Rightarrow> 'a) \<Rightarrow> gval \<Rightarrow> 'a list" where
  "of_slice f (VSlice cells n) = map f (take n cells)"
| "of_slice f _ = []"

definition type_DnsHostEntry :: gtype where
  "type_DnsHostEntry = TStruct [(''ip'', TString), (''hostnames'', TSlice TString)]"

definition type_DnsHostsSpec :: gtype where
  "type_DnsHostsSpec = TStruct [(''controller'', TString), (''hosts'', TSlice type_DnsHostEntry)]"

definition type_DhcpHostEntry :: gtype where
  "type_DhcpHostEntry = TStruct [(''macs'', TSlice TString), (''ip'', TString), (''hostname'', TString),
     (''setTags'', TSlice TString), (''leaseTime'', TString)]"

definition type_DhcpHostsSpec :: gtype where
  "type_DhcpHostsSpec = TStruct [(''controller'', TString), (''hosts'', TSlice type_DhcpHostEntry)]"

definition type_DhcpOption :: gtype where
  "type_DhcpOption = TStruct [(''key'', TString), (''values'', TSlice TString), (''tags'', TSlice TString)]"

definition type_DhcpOptionsSpec :: gtype where
  "type_DhcpOptionsSpec = TStruct [(''controller'', TString), (''options'', TSlice type_DhcpOption)]"

fun of_DnsHostEntry :: "gval \<Rightarrow> DnsHostEntry" where
  "of_DnsHostEntry (VStruct [ip, hostnames]) =
    \<lparr>dns_IP = of_string ip, dns_Hostnames = of_slice of_string hostnames\<rparr>"
| "of_DnsHostEntry _ = \<lparr>dns_IP = [], dns_Hostnames = []\<rparr>"

fun of_DnsHostsSpec :: "gval \<Rightarrow> DnsHostsSpec" where
  "of_DnsHostsSpec (VStruct [controller, hosts]) =
    \<lparr>dns_Controller = of_string controller, dns_Hosts = of_slice of_DnsHostEntry hosts\<rparr>"
| "of_DnsHostsSpec _ = \<lparr>dns_Controller = [], dns_Hosts = []\<rparr>"

fun of_DhcpHostEntry :: "gval \<Rightarrow> DhcpHostEntry" where
  "of_DhcpHostEntry (VStruct [macs, ip, hostname, setTags, leaseTime]) =
    \<lparr>dhcp_MACs = of_slice of_string macs, dhcp_IP = of_string ip, dhcp_Hostname = of_string hostname,
     dhcp_SetTags = of_slice of_string setTags, dhcp_LeaseTime = of_string leaseTime\<rparr>"
| "of_DhcpHostEntry _ =
    \<lparr>dhcp_MACs = [], dhcp_IP = [], dhcp_Hostname = [], dhcp_SetTags = [], dhcp_LeaseTime = []\<rparr>"

fun of_DhcpHostsSpec :: "gval \<Rightarrow> DhcpHostsSpec" where
  "of_DhcpHostsSpec (VStruct [controller, hosts]) =
    \<lparr>dhcp_Controller = of_string controller, dhcp_Hosts = of_slice of_DhcpHostEntry hosts\<rparr>"
| "of_DhcpHostsSpec _ = \<lparr>dhcp_Controller = [], dhcp_Hosts = []\<rparr>"

fun of_DhcpOption :: "gval \<Rightarrow> DhcpOption" where
  "of_DhcpOption (VStruct [key, values, tags]) =
    \<lparr>opt_Key = of_string key, opt_Values = of_slice of_string values, opt_Tags = of_slice of_string tags\<rparr>"
| "of_DhcpOption _ = \<lparr>opt_Key = [], opt_Values = [], opt_Tags = []\<rparr>"

fun of_DhcpOptionsSpec :: "gval \<Rightarrow> DhcpOptionsSpec" where
  "of_DhcpOptionsSpec (VStruct [controller, options]) =
    \<lparr>opts_Controller = of_string controller, opts_Options = of_slice of_DhcpOption options\<rparr>"
| "of_DhcpOptionsSpec _ = \<lparr>opts_Controller = [], opts_Options = []\<rparr>"

subsection \<open>The functions\<close>

definition parseSpec ::
  "'w kube \<Rightarrow> type_error \<Rightarrow> gtype \<Rightarrow> (gval \<Rightarrow> 'a) \<Rightarrow> Unstructured \<Rightarrow> 'a \<times> error option" where
  "parseSpec k wrong T of_value u =
    (let out = zero_value T in
     case NestedMap k (Object u) [''spec''] of
       Inl err \<Rightarrow> (of_value out, Some err)
     | Inr None \<Rightarrow> (of_value out, None)
     | Inr (Some m) \<Rightarrow>
         let b = Marshal (JObject m);
             (out, err) = Unmarshal wrong T b out
         in (of_value out, err))"

definition ParseDnsHostsSpec ::
  "'w kube \<Rightarrow> type_error \<Rightarrow> Unstructured \<Rightarrow> DnsHostsSpec \<times> error option" where
  "ParseDnsHostsSpec k wrong u = parseSpec k wrong type_DnsHostsSpec of_DnsHostsSpec u"

definition ParseDhcpHostsSpec ::
  "'w kube \<Rightarrow> type_error \<Rightarrow> Unstructured \<Rightarrow> DhcpHostsSpec \<times> error option" where
  "ParseDhcpHostsSpec k wrong u = parseSpec k wrong type_DhcpHostsSpec of_DhcpHostsSpec u"

definition ParseDhcpOptionsSpec ::
  "'w kube \<Rightarrow> type_error \<Rightarrow> Unstructured \<Rightarrow> DhcpOptionsSpec \<times> error option" where
  "ParseDhcpOptionsSpec k wrong u = parseSpec k wrong type_DhcpOptionsSpec of_DhcpOptionsSpec u"

lemmas parse_defs = ParseDnsHostsSpec_def ParseDhcpHostsSpec_def ParseDhcpOptionsSpec_def parseSpec_def
  Unmarshal_def Let_def

subsection \<open>Round trip\<close>

text \<open>An object decodes field by field, in whatever order its keys come.\<close>

lemma field_where_index:
  "i < length fs \<Longrightarrow> distinct (map fst fs) \<Longrightarrow>
    field_where (\<lambda>name. name = fst (fs ! i)) fs = Some (i, snd (fs ! i))"
proof (induction fs arbitrary: i)
  case (Cons f fs)
  show ?case
  proof (cases i)
    case 0
    then show ?thesis by (cases f) simp
  next
    case (Suc j)
    with Cons.prems have "fst (fs ! j) \<in> set (map fst fs)" by simp
    moreover have "fst f \<notin> set (map fst fs)" using Cons.prems(2) by simp
    ultimately have "fst f \<noteq> fst (fs ! j)" by metis
    with Suc Cons show ?thesis by (cases f) simp
  qed
qed simp

lemma struct_field_index:
  "i < length fs \<Longrightarrow> distinct (map fst fs) \<Longrightarrow> struct_field fs (fst (fs ! i)) = Some (i, snd (fs ! i))"
  by (simp add: struct_field_def field_where_index)

definition decodes_to :: "type_error \<Rightarrow> string list \<Rightarrow> (string \<rightharpoonup> jv) \<Rightarrow> string \<times> gtype \<Rightarrow> gval \<Rightarrow> gval \<Rightarrow> bool" where
  "decodes_to wrong path obj f old new \<longleftrightarrow>
    (case obj (fst f) of
       None \<Rightarrow> new = old
     | Some v \<Rightarrow> decode wrong (path @ [fst f]) (snd f) v old = (new, None))"

lemma decode_fields_exact:
  assumes "distinct (map fst fs)" and "length vals = length fs" "length news = length fs"
    and "distinct (map fst kvs)" and "fst ` set kvs \<subseteq> fst ` set fs"
    and "\<And>i. i < length fs \<Longrightarrow> decodes_to wrong path (map_of kvs) (fs ! i) (vals ! i) (news ! i)"
  shows "decode_fields wrong path fs kvs vals = (news, None)"
  using assms(2,4-)
proof (induction kvs arbitrary: vals)
  case Nil
  then show ?case using assms(3) by (auto simp: decodes_to_def intro: nth_equalityI)
next
  case (Cons kv kvs)
  obtain key v where kv: "kv = (key, v)" by fastforce
  with Cons.prems(3) obtain i where i: "i < length fs" "key = fst (fs ! i)"
    by (auto simp: in_set_conv_nth)
  have "map_of kvs key = None" using Cons.prems(2) kv by (auto simp: map_of_eq_None_iff)
  have same: "fst (fs ! j) = key \<longleftrightarrow> j = i" if "j < length fs" for j
    using that i assms(1) by (metis distinct_conv_nth length_map nth_map)
  have v: "decode wrong (path @ [key]) (snd (fs ! i)) v (vals ! i) = (news ! i, None)"
    using Cons.prems(4)[OF i(1)] kv i(2) by (simp add: decodes_to_def)
  have "decode_fields wrong path fs kvs (vals[i := news ! i]) = (news, None)"
  proof (rule Cons.IH)
    show "decodes_to wrong path (map_of kvs) (fs ! j) (vals[i := news ! i] ! j) (news ! j)"
      if j: "j < length fs" for j
    proof (cases "j = i")
      case True
      with i(2) j Cons.prems(1) \<open>map_of kvs key = None\<close> show ?thesis by (simp add: decodes_to_def)
    next
      case False
      with j same[OF j] Cons.prems(4)[OF j] kv show ?thesis by (auto simp: decodes_to_def)
    qed
  qed (use Cons.prems kv in auto)
  with v i show ?case by (simp add: kv struct_field_index[OF i(1) assms(1)] first_error_def)
qed

lemma Marshal_object:
  "\<exists>kvs'. Marshal (JObject kvs) = JObject kvs' \<and> distinct (map fst kvs') \<and> fst ` set kvs' = fst ` set kvs \<and>
    map_of kvs' = map_option Marshal \<circ> map_of kvs"
proof -
  let ?m = "AList.clearjunk (map (\<lambda>kv. (fst kv, Marshal (snd kv))) kvs)"
  let ?s = "slices_SortFunc ?m (\<lambda>a b. cmp_Compare (fst a) (fst b))"
  have d: "distinct (map fst ?m)" by (rule distinct_clearjunk)
  then have d': "distinct (map fst ?s)" by simp
  have "map_of ?s = map_of ?m"
    using map_of_inject_set[OF d' d] by simp
  also have "\<dots> = map_of (map (\<lambda>(key, v). (key, Marshal v)) kvs)"
    by (simp add: map_of_clearjunk case_prod_beta')
  finally have eq: "map_of ?s = map_option Marshal \<circ> map_of kvs"
    by (simp add: map_of_map)
  have "fst ` set ?s = fst ` set kvs"
  proof -
    have "fst ` set ?m = fst ` set (map (\<lambda>kv. (fst kv, Marshal (snd kv))) kvs)"
      by (simp only: clearjunk_keys_set list.set_map[symmetric])
    then show ?thesis by (simp add: image_image)
  qed
  with d' eq show ?thesis by (intro exI[of _ ?s]) simp
qed

lemma decode_object:
  assumes "distinct (map fst fs)" and "length vals = length fs" "length news = length fs"
    and "fst ` set kvs \<subseteq> fst ` set fs"
    and "list_all (\<lambda>(f, old, new). decodes_to wrong path (map_option Marshal \<circ> map_of kvs) f old new)
      (zip fs (zip vals news))"
  shows "decode wrong path (TStruct fs) (Marshal (JObject kvs)) (VStruct vals) = (VStruct news, None)"
proof -
  obtain kvs' where m: "Marshal (JObject kvs) = JObject kvs'" "distinct (map fst kvs')"
    "fst ` set kvs' = fst ` set kvs" "map_of kvs' = map_option Marshal \<circ> map_of kvs"
    using Marshal_object by blast
  have "decode_fields wrong path fs kvs' vals = (news, None)"
    using assms m by (intro decode_fields_exact) (auto simp: list_all_length)
  with m(1) show ?thesis by simp
qed

lemma decode_elems_fresh:
  assumes "\<And>x. x \<in> set xs \<Longrightarrow> decode wrong path T (Marshal (f x)) (zero_value T) = (g x, None)"
  shows "decode_elems wrong path T (map (Marshal \<circ> f) xs) [] = (map g xs, None)"
  using assms by (induction xs) (auto simp: first_error_def)

lemma decode_slice:
  assumes "\<And>x. x \<in> set xs \<Longrightarrow> decode wrong path T (Marshal (f x)) (zero_value T) = (g x, None)"
  shows "decode wrong path (TSlice T) (Marshal (JArray (map f xs))) (VSlice [] 0) =
    (VSlice (map g xs) (length xs), None)"
proof (cases xs)
  case (Cons x ys)
  have "decode_elems wrong path T (map (Marshal \<circ> f) xs) [] = (map g xs, None)"
    by (rule decode_elems_fresh) (rule assms)
  with Cons show ?thesis by (simp split: prod.splits)
qed simp

definition strings :: "string list \<Rightarrow> gval" where
  "strings xs = VSlice (map VString xs) (length xs)"

lemma strings_Nil: "VSlice [] 0 = strings []"
  by (simp add: strings_def)

lemma decode_strings:
  "decode wrong path (TSlice TString) (Marshal (JArray (map JString xs))) (strings []) = (strings xs, None)"
  using decode_slice[of xs wrong path TString JString VString] by (simp add: strings_def)

lemma of_slice_strings [simp]: "of_slice of_string (strings xs) = xs"
  by (simp add: strings_def o_def)

definition value_DnsHostEntry :: "DnsHostEntry \<Rightarrow> gval" where
  "value_DnsHostEntry e = VStruct [VString (dns_IP e), strings (dns_Hostnames e)]"

definition value_DhcpHostEntry :: "DhcpHostEntry \<Rightarrow> gval" where
  "value_DhcpHostEntry e = VStruct [strings (dhcp_MACs e), VString (dhcp_IP e), VString (dhcp_Hostname e),
     strings (dhcp_SetTags e), VString (dhcp_LeaseTime e)]"

definition value_DhcpOption :: "DhcpOption \<Rightarrow> gval" where
  "value_DhcpOption opt = VStruct [VString (opt_Key opt), strings (opt_Values opt), strings (opt_Tags opt)]"

lemma of_value_inverse:
  "of_DnsHostEntry (value_DnsHostEntry e) = e"
  "of_DhcpHostEntry (value_DhcpHostEntry h) = h"
  "of_DhcpOption (value_DhcpOption opt) = opt"
  by (simp_all add: value_DnsHostEntry_def value_DhcpHostEntry_def value_DhcpOption_def)

lemmas omit_defs = omit_empty_string_def omit_empty_list_def json_strings_def

lemma decode_DnsHostEntry:
  "decode wrong path type_DnsHostEntry (Marshal (json_DnsHostEntry e)) (zero_value type_DnsHostEntry) =
    (value_DnsHostEntry e, None)"
  unfolding type_DnsHostEntry_def json_DnsHostEntry_def value_DnsHostEntry_def zero_value.simps list.map
  by (rule decode_object)
    (auto simp: omit_defs decodes_to_def strings_Nil decode_strings simp del: Marshal.simps(1))

lemma decode_DhcpHostEntry:
  "decode wrong path type_DhcpHostEntry (Marshal (json_DhcpHostEntry e)) (zero_value type_DhcpHostEntry) =
    (value_DhcpHostEntry e, None)"
  unfolding type_DhcpHostEntry_def json_DhcpHostEntry_def value_DhcpHostEntry_def zero_value.simps list.map
  by (rule decode_object)
    (auto simp: omit_defs decodes_to_def strings_Nil decode_strings simp del: Marshal.simps(1))

lemma decode_DhcpOption:
  "decode wrong path type_DhcpOption (Marshal (json_DhcpOption opt)) (zero_value type_DhcpOption) =
    (value_DhcpOption opt, None)"
  unfolding type_DhcpOption_def json_DhcpOption_def value_DhcpOption_def zero_value.simps list.map
  by (rule decode_object)
    (auto simp: omit_defs decodes_to_def strings_Nil decode_strings simp del: Marshal.simps(1))

text \<open>The three specs have the same shape: a controller and a list of entries.\<close>

lemma decode_spec:
  assumes "\<And>x. decode wrong [field] T (Marshal (f x)) (zero_value T) = (g x, None)" and "field \<noteq> ''controller''"
  shows "decode wrong [] (TStruct [(''controller'', TString), (field, TSlice T)])
      (Marshal (JObject (omit_empty_string ''controller'' c @ omit_empty_list field f xs)))
      (VStruct [VString [], VSlice [] 0]) =
    (VStruct [VString c, VSlice (map g xs) (length xs)], None)"
  by (rule decode_object)
    (use assms(2) in \<open>auto simp: omit_defs decodes_to_def decode_slice[OF assms(1)] simp del: Marshal.simps(1)\<close>)

lemma decode_DnsHostsSpec:
  "decode wrong [] type_DnsHostsSpec (Marshal (JObject (json_DnsHostsSpec s))) (zero_value type_DnsHostsSpec) =
    (VStruct [VString (dns_Controller s), VSlice (map value_DnsHostEntry (dns_Hosts s)) (length (dns_Hosts s))], None)"
  unfolding type_DnsHostsSpec_def json_DnsHostsSpec_def zero_value.simps list.map snd_conv
  by (rule decode_spec[OF decode_DnsHostEntry]) simp

lemma decode_DhcpHostsSpec:
  "decode wrong [] type_DhcpHostsSpec (Marshal (JObject (json_DhcpHostsSpec s))) (zero_value type_DhcpHostsSpec) =
    (VStruct [VString (dhcp_Controller s), VSlice (map value_DhcpHostEntry (dhcp_Hosts s)) (length (dhcp_Hosts s))],
     None)"
  unfolding type_DhcpHostsSpec_def json_DhcpHostsSpec_def zero_value.simps list.map snd_conv
  by (rule decode_spec[OF decode_DhcpHostEntry]) simp

lemma decode_DhcpOptionsSpec:
  "decode wrong [] type_DhcpOptionsSpec (Marshal (JObject (json_DhcpOptionsSpec s)))
      (zero_value type_DhcpOptionsSpec) =
    (VStruct [VString (opts_Controller s), VSlice (map value_DhcpOption (opts_Options s)) (length (opts_Options s))],
     None)"
  unfolding type_DhcpOptionsSpec_def json_DhcpOptionsSpec_def zero_value.simps list.map snd_conv
  by (rule decode_spec[OF decode_DhcpOption]) simp

lemma parseSpec_newObject:
  assumes "documented_NestedMap k" "documented_SetNestedMap k"
    and "decode wrong [] T (Marshal (JObject m)) (zero_value T) = (v, None)"
  shows "parseSpec k wrong T of_value (newObject k gvk name ns m) = (of_value v, None)"
proof -
  have "NestedMap k (Object (newObject k gvk name ns m)) [''spec''] = Inr (Some m)"
    using assms(1) newObject_spec[OF assms(2)] by (simp add: documented_NestedMap_def)
  with assms(3) show ?thesis by (simp add: parseSpec_def Unmarshal_def)
qed

text \<open>
  (C36) Parsing an object gives back the spec it was constructed with, without an error: nothing
  of a spec is lost or changed on its way through JSON into a dynamic object, empty fields and
  the order of lists included.
\<close>

theorem parse_new_roundtrip:
  assumes "documented_NestedMap k" "documented_SetNestedMap k"
  shows "ParseDnsHostsSpec k wrong (NewDnsHosts k name ns dns) = (dns, None) \<and>
    ParseDhcpHostsSpec k wrong (NewDhcpHosts k name ns dhcp) = (dhcp, None) \<and>
    ParseDhcpOptionsSpec k wrong (NewDhcpOptions k name ns opts) = (opts, None)"
  unfolding ParseDnsHostsSpec_def NewDnsHosts_def ParseDhcpHostsSpec_def NewDhcpHosts_def
    ParseDhcpOptionsSpec_def NewDhcpOptions_def
  by (intro conjI) (subst parseSpec_newObject[OF assms decode_DnsHostsSpec]
    parseSpec_newObject[OF assms decode_DhcpHostsSpec] parseSpec_newObject[OF assms decode_DhcpOptionsSpec],
    simp add: o_def of_value_inverse)+

subsection \<open>Arbitrary objects\<close>

text \<open>Values of a Go type, and dynamic values of the shape a type asks for: \<open>null\<close> and unknown keys are fine.\<close>

inductive well_typed :: "gtype \<Rightarrow> gval \<Rightarrow> bool" where
  String: "well_typed TString (VString s)"
| Slice: "n \<le> length cells \<Longrightarrow> (\<And>c. c \<in> set cells \<Longrightarrow> well_typed T c) \<Longrightarrow> well_typed (TSlice T) (VSlice cells n)"
| Struct: "length vals = length fs \<Longrightarrow> (\<And>i. i < length fs \<Longrightarrow> well_typed (snd (fs ! i)) (vals ! i)) \<Longrightarrow>
    well_typed (TStruct fs) (VStruct vals)"

inductive_simps well_typed_simps [simp]:
  "well_typed TString v"
  "well_typed (TSlice T) (VSlice cells n)" "well_typed (TSlice T) (VString s)" "well_typed (TSlice T) (VStruct vals)"
  "well_typed (TStruct fs) (VStruct vals)" "well_typed (TStruct fs) (VString s)" "well_typed (TStruct fs) (VSlice cells n)"

fun conforms :: "gtype \<Rightarrow> jv \<Rightarrow> bool"
  and conform_elems :: "gtype \<Rightarrow> jv list \<Rightarrow> bool"
  and conform_fields :: "(string \<times> gtype) list \<Rightarrow> (string \<times> jv) list \<Rightarrow> bool" where
  "conforms T JNull = True"
| "conforms TString (JString s) = True"
| "conforms (TSlice T) (JArray vs) = conform_elems T vs"
| "conforms (TStruct fs) (JObject kvs) = conform_fields fs kvs"
| "conforms T v = False"
| "conform_elems T [] = True"
| "conform_elems T (v # vs) \<longleftrightarrow> conforms T v \<and> conform_elems T vs"
| "conform_fields fs [] = True"
| "conform_fields fs ((key, v) # kvs) \<longleftrightarrow>
    (case struct_field fs key of None \<Rightarrow> True | Some (i, T) \<Rightarrow> conforms T v) \<and> conform_fields fs kvs"

lemma well_typed_zero: "well_typed T (zero_value T)"
proof (induction T)
  case (TStruct fs)
  have "well_typed (snd f) (zero_value (snd f))" if "f \<in> set fs" for f
    using TStruct[OF that] by (cases f) (simp add: prod_set_defs)
  then show ?case by simp
qed simp_all

lemma field_where_Some: "field_where P fs = Some (i, T) \<Longrightarrow> i < length fs \<and> snd (fs ! i) = T"
  by (induction P fs arbitrary: i rule: field_where.induct) (auto split: if_splits)

lemma struct_field_Some: "struct_field fs key = Some (i, T) \<Longrightarrow> i < length fs \<and> snd (fs ! i) = T"
  by (auto simp: struct_field_def dest: field_where_Some split: option.splits)

lemma first_error_None [simp]: "first_error e e' = None \<longleftrightarrow> e = None \<and> e' = None"
  by (cases e) (simp_all add: first_error_def)

lemma mismatch:
  "\<not> conforms T (JBool b)" "\<not> conforms T (JInt n)"
  "well_typed T (VString s) \<Longrightarrow> \<not> conforms T (JArray vs)" "well_typed T (VStruct vals) \<Longrightarrow> \<not> conforms T (JArray vs)"
  "well_typed T (VString s) \<Longrightarrow> \<not> conforms T (JObject kvs)" "well_typed T (VSlice cells m) \<Longrightarrow> \<not> conforms T (JObject kvs)"
  by (cases T; simp)+

lemma decode_types:
  "well_typed T old \<Longrightarrow> well_typed T (fst (decode wrong path T v old)) \<and>
    (snd (decode wrong path T v old) = None \<longleftrightarrow> conforms T v)"
  "\<forall>c \<in> set cells. well_typed T c \<Longrightarrow>
    (\<forall>c \<in> set (fst (decode_elems wrong path T vs cells)). well_typed T c) \<and>
    length vs \<le> length (fst (decode_elems wrong path T vs cells)) \<and>
    (snd (decode_elems wrong path T vs cells) = None \<longleftrightarrow> conform_elems T vs)"
  "well_typed (TStruct fs) (VStruct vals) \<Longrightarrow>
    well_typed (TStruct fs) (VStruct (fst (decode_fields wrong path fs kvs vals))) \<and>
    (snd (decode_fields wrong path fs kvs vals) = None \<longleftrightarrow> conform_fields fs kvs)"
proof (induction wrong path T v old and wrong path T vs cells and wrong path fs kvs vals
    rule: decode_decode_elems_decode_fields.induct)
  case (5 wrong path T v va cells n)
  then show ?case by (simp add: case_prod_beta del: decode_elems.simps)
next
  case (6 wrong path fs kvs vals)
  then show ?case by (simp add: case_prod_beta)
next
  case (9 wrong path T v vs cells)
  have "well_typed T (case cells of [] \<Rightarrow> zero_value T | c # x \<Rightarrow> c)" and "\<forall>c \<in> set (tl cells). well_typed T c"
    using 9(3) well_typed_zero by (cases cells; auto)+
  with 9(1) 9(2)[OF refl prod.collapse] show ?case by (simp add: case_prod_beta)
next
  case (11 wrong path fs key v kvs vals)
  show ?case
  proof (cases "struct_field fs key")
    case None
    with 11(1,4) show ?thesis by simp
  next
    case (Some f)
    obtain i T where f: "f = (i, T)" by fastforce
    have i: "i < length fs" "snd (fs ! i) = T"
      using struct_field_Some[of fs key i T] Some f by auto
    let ?d = "decode wrong (path @ [fst (fs ! i)]) T v (vals ! i)"
    have "well_typed T (vals ! i)" using 11(4) i by auto
    then have d: "well_typed T (fst ?d) \<and> (snd ?d = None \<longleftrightarrow> conforms T v)"
      by (rule 11(2)[OF Some f[symmetric]])
    have "well_typed (TStruct fs) (VStruct (vals[i := fst ?d]))"
      using 11(4) d i by (auto simp: nth_list_update)
    with 11(3)[OF Some f[symmetric] refl prod.collapse] d show ?thesis
      by (simp add: Some f case_prod_beta)
  qed
qed (simp_all add: well_typed_zero mismatch)

text \<open>A parse function that gives a value of the type \<open>T\<close>, and an error exactly where there is a reason.\<close>

definition parses_safely ::
  "'w kube \<Rightarrow> gtype \<Rightarrow> (gval \<Rightarrow> 'a) \<Rightarrow> (Unstructured \<Rightarrow> 'a \<times> error option) \<Rightarrow> bool" where
  "parses_safely k T of_value parse \<longleftrightarrow> (\<forall>u.
    (\<exists>v. well_typed T v \<and> fst (parse u) = of_value v) \<and>
    (snd (parse u) = None \<longleftrightarrow>
      (case NestedMap k (Object u) [''spec''] of
         Inl e \<Rightarrow> False
       | Inr None \<Rightarrow> True
       | Inr (Some m) \<Rightarrow> conforms T (Marshal (JObject m)))) \<and>
    (NestedMap k (Object u) [''spec''] = Inr None \<longrightarrow> fst (parse u) = of_value (zero_value T)))"

lemma parseSpec_safely: "parses_safely k T of_value (parseSpec k wrong T of_value)"
  unfolding parses_safely_def
proof
  fix u
  show "(\<exists>v. well_typed T v \<and> fst (parseSpec k wrong T of_value u) = of_value v) \<and>
    (snd (parseSpec k wrong T of_value u) = None \<longleftrightarrow>
      (case NestedMap k (Object u) [''spec''] of
         Inl e \<Rightarrow> False
       | Inr None \<Rightarrow> True
       | Inr (Some m) \<Rightarrow> conforms T (Marshal (JObject m)))) \<and>
    (NestedMap k (Object u) [''spec''] = Inr None \<longrightarrow>
      fst (parseSpec k wrong T of_value u) = of_value (zero_value T))"
    using well_typed_zero[of T] decode_types(1)[OF well_typed_zero[of T]]
    by (auto simp: parseSpec_def Unmarshal_def Let_def case_prod_beta simp del: Marshal.simps
      split: sum.split option.split)
qed

text \<open>
  (C37) Parsing any object is type-safe: whatever its spec holds, the result is a value of the
  struct's Go type, and there is an error exactly if the spec is not a map or a value in it has
  a type its field does not accept, at any depth; an object without a spec gives the zero value.
\<close>

theorem parse_type_safe:
  "parses_safely k type_DnsHostsSpec of_DnsHostsSpec (ParseDnsHostsSpec k wrong) \<and>
    parses_safely k type_DhcpHostsSpec of_DhcpHostsSpec (ParseDhcpHostsSpec k wrong) \<and>
    parses_safely k type_DhcpOptionsSpec of_DhcpOptionsSpec (ParseDhcpOptionsSpec k wrong)"
  unfolding ParseDnsHostsSpec_def[abs_def] ParseDhcpHostsSpec_def[abs_def] ParseDhcpOptionsSpec_def[abs_def]
  by (intro conjI parseSpec_safely)

end
