(* ===== verification/GoMemory.thy ===== *)
theory GoMemory
  imports Prelude "HOL-Library.State_Monad"
begin

text \<open>
  Go's memory, for the one part of the program where sharing matters, the deep copies of
  \<open>api/v1\<close>. Memory is a row of cells, each an array of the values of single type; a cell's content is
  of any type \<open>'c\<close> that has an injection per element type. A pointer is a cell with an index, a
  slice a cell with an offset and a length, \<open>nil\<close> is \<open>None\<close>. Addresses below \<open>limit\<close> are in use.

  The locale \<open>deep_copy\<close> states what a deep copy is, with the laws that make deep copies compose:
  a value that was in memory is not affected by what is allocated later, and its copy lives in the
  cells allocated while it was made, and in no other.
\<close>

subsection \<open>Cells, pointers and slices\<close>

record 'c heap =
  limit :: nat
  cells :: "nat \<Rightarrow> 'c"

type_synonym ('c, 'a) mem = "('c heap, 'a) state"

record ('v, 'c) kind =
  wrap :: "'v list \<Rightarrow> 'c"
  unwrap :: "'c \<Rightarrow> 'v list option"

definition kind_ok :: "('v, 'c) kind \<Rightarrow> bool" where
  "kind_ok K \<longleftrightarrow> (\<forall>xs. unwrap K (wrap K xs) = Some xs)"

type_synonym pointer = "nat \<times> nat"

record slice =
  arr :: nat
  off :: nat
  len :: nat

definition array_at :: "('v, 'c) kind \<Rightarrow> 'c heap \<Rightarrow> nat \<Rightarrow> 'v list" where
  "array_at K h a = (case unwrap K (cells h a) of Some xs \<Rightarrow> xs | None \<Rightarrow> [])"

definition alloc :: "'c \<Rightarrow> ('c, nat) mem" where
  "alloc c = State (\<lambda>h. (limit h, h\<lparr>limit := limit h + 1, cells := (cells h)(limit h := c)\<rparr>))"

definition load :: "('v, 'c) kind \<Rightarrow> nat \<Rightarrow> nat \<Rightarrow> ('c, 'v) mem" where
  "load K a i = State (\<lambda>h. (array_at K h a ! i, h))"

definition store :: "('v, 'c) kind \<Rightarrow> nat \<Rightarrow> nat \<Rightarrow> 'v \<Rightarrow> ('c, unit) mem" where
  "store K a i x = State (\<lambda>h. ((), h\<lparr>cells := (cells h)(a := wrap K ((array_at K h a)[i := x]))\<rparr>))"

definition go_new :: "('v, 'c) kind \<Rightarrow> 'v \<Rightarrow> ('c, pointer) mem" where
  "go_new K zero = do { a \<leftarrow> alloc (wrap K [zero]); State_Monad.return (a, 0) }"

definition go_make :: "('v, 'c) kind \<Rightarrow> 'v \<Rightarrow> nat \<Rightarrow> ('c, slice) mem" where
  "go_make K zero n = do {
     a \<leftarrow> alloc (wrap K (replicate n zero));
     State_Monad.return \<lparr>arr = a, off = 0, len = n\<rparr>
   }"

fun for_each :: "'i list \<Rightarrow> ('i \<Rightarrow> ('s, unit) state) \<Rightarrow> ('s, unit) state" where
  "for_each [] body = State_Monad.return ()"
| "for_each (i # is) body = do { body i; for_each is body }"

text \<open>
  \<open>for i := range src\<close> with a body that copies the \<open>i\<close>th element into the \<open>i\<close>th of \<open>dst\<close>, and
  the builtin \<open>copy\<close>.
\<close>

definition copy_round ::
  "('v, 'c) kind \<Rightarrow> ('v \<Rightarrow> ('c, 'v) mem) \<Rightarrow> slice \<Rightarrow> slice \<Rightarrow> nat \<Rightarrow> ('c, unit) mem" where
  "copy_round K f src dst i = do {
     x \<leftarrow> load K (arr src) (off src + i);
     y \<leftarrow> f x;
     store K (arr dst) (off dst + i) y
   }"

definition copy_each ::
  "('v, 'c) kind \<Rightarrow> ('v \<Rightarrow> ('c, 'v) mem) \<Rightarrow> slice \<Rightarrow> slice \<Rightarrow> ('c, unit) mem" where
  "copy_each K f src dst = for_each [0..<len src] (copy_round K f src dst)"

definition go_copy :: "('v, 'c) kind \<Rightarrow> slice \<Rightarrow> slice \<Rightarrow> ('c, unit) mem" where
  "go_copy K dst src = copy_each K State_Monad.return (src\<lparr>len := min (len dst) (len src)\<rparr>) dst"

lemma run_mem [simp]:
  "run_state (alloc c) h = (limit h, h\<lparr>limit := limit h + 1, cells := (cells h)(limit h := c)\<rparr>)"
  "run_state (load K a i) h = (array_at K h a ! i, h)"
  "run_state (store K a i x) h = ((), h\<lparr>cells := (cells h)(a := wrap K ((array_at K h a)[i := x]))\<rparr>)"
  by (simp_all add: alloc_def load_def store_def)

lemma array_at_inj [simp]: "kind_ok K \<Longrightarrow> cells h a = wrap K xs \<Longrightarrow> array_at K h a = xs"
  by (simp add: kind_ok_def array_at_def)

lemma array_at_cong: "cells g a = cells h a \<Longrightarrow> array_at K g a = array_at K h a"
  by (simp add: array_at_def)

lemma run_for_each_append:
  "run_state (for_each (is @ js) body) h =
    run_state (for_each js body) (snd (run_state (for_each is body) h))"
  by (induction "is" arbitrary: h) (simp_all split: prod.split)

subsection \<open>Parts of memory\<close>

definition agree :: "nat \<Rightarrow> nat \<Rightarrow> 'c heap \<Rightarrow> 'c heap \<Rightarrow> bool" where
  "agree lo hi g h \<longleftrightarrow> (\<forall>a. lo \<le> a \<and> a < hi \<longrightarrow> cells g a = cells h a)"

definition extends :: "'c heap \<Rightarrow> 'c heap \<Rightarrow> bool" where
  "extends h g \<longleftrightarrow> limit h \<le> limit g \<and> agree 0 (limit h) g h"

lemma agree_refl [simp]: "agree lo hi h h"
  by (simp add: agree_def)

lemma agree_trans: "agree lo hi f g \<Longrightarrow> agree lo hi g h \<Longrightarrow> agree lo hi f h"
  by (simp add: agree_def)

lemma agree_narrow: "agree lo hi g h \<Longrightarrow> lo \<le> lo' \<Longrightarrow> hi' \<le> hi \<Longrightarrow> agree lo' hi' g h"
  by (simp add: agree_def)

lemma extends_refl [simp]: "extends h h"
  by (simp add: extends_def)

lemma extends_trans [trans]: "extends f g \<Longrightarrow> extends g h \<Longrightarrow> extends f h"
  by (auto simp: extends_def agree_def)

lemma extends_agree: "extends h g \<Longrightarrow> hi \<le> limit h \<Longrightarrow> agree lo hi g h"
  by (simp add: extends_def agree_def)

text \<open>
  A value is held by the cells from \<open>lo\<close> to \<open>hi\<close>: whatever happens to the others, it stays a
  proper value and its meaning the same.
\<close>

definition held :: "('c heap \<Rightarrow> 'a \<Rightarrow> bool) \<Rightarrow> ('c heap \<Rightarrow> 'a \<Rightarrow> 'v) \<Rightarrow> nat \<Rightarrow> nat \<Rightarrow> 'c heap \<Rightarrow> 'a \<Rightarrow> 'v \<Rightarrow> bool"
  where "held ok val lo hi h x v \<longleftrightarrow>
    (\<forall>g. agree lo hi g h \<and> hi \<le> limit g \<longrightarrow> ok g x \<and> val g x = v)"

lemma heldD: "held ok val lo hi h x v \<Longrightarrow> agree lo hi g h \<Longrightarrow> hi \<le> limit g \<Longrightarrow> ok g x \<and> val g x = v"
  by (simp add: held_def)

lemma held_mono:
  "held ok val lo hi h x v \<Longrightarrow> lo' \<le> lo \<Longrightarrow> hi \<le> hi' \<Longrightarrow> agree lo hi h' h \<Longrightarrow> held ok val lo' hi' h' x v"
  unfolding held_def by (meson agree_narrow agree_trans order_trans)

subsection \<open>Deep copies\<close>

locale deep_copy =
  fixes ok :: "'c heap \<Rightarrow> 'a \<Rightarrow> bool"
    and val :: "'c heap \<Rightarrow> 'a \<Rightarrow> 'v"
    and copy :: "'a \<Rightarrow> ('c, 'a) mem"
  assumes stable: "ok h x \<Longrightarrow> held ok val 0 (limit h) h x (val h x)"
    and copied: "ok h x \<Longrightarrow> run_state (copy x) h = (x', h') \<Longrightarrow>
      extends h h' \<and> held ok val (limit h) (limit h') h' x' (val h x)"
begin

lemma later: "ok h x \<Longrightarrow> extends h g \<Longrightarrow> ok g x \<and> val g x = val h x"
  using stable heldD unfolding extends_def by metis

end

text \<open>What a deep copy gives its caller: an equal value, and neither sees what is done to the other.\<close>

definition independent :: "('c heap \<Rightarrow> 'a \<Rightarrow> 'v) \<Rightarrow> 'c heap \<Rightarrow> 'a \<Rightarrow> 'c heap \<Rightarrow> 'a \<Rightarrow> bool" where
  "independent val h x h' x' \<longleftrightarrow>
    val h' x' = val h x \<and> val h' x = val h x \<and>
    (\<forall>g. agree (limit h) (limit h') g h' \<and> limit h' \<le> limit g \<longrightarrow> val g x' = val h x) \<and>
    (\<forall>g. agree 0 (limit h) g h' \<and> limit h' \<le> limit g \<longrightarrow> val g x = val h x)"

context deep_copy
begin

lemma copy_independent:
  assumes okx: "ok h x" and run: "run_state (copy x) h = (x', h')"
  shows "independent val h x h' x'"
proof -
  have ext: "extends h h'" and new: "held ok val (limit h) (limit h') h' x' (val h x)"
    using copied[OF okx run] by auto
  have "val g x = val h x" if "agree 0 (limit h) g h'" "limit h' \<le> limit g" for g
    using later[OF okx, of g] that ext by (auto simp: extends_def intro: agree_trans)
  then show ?thesis
    using new later[OF okx ext] by (auto simp: independent_def held_def)
qed

end

subsection \<open>How deep copies compose\<close>

lemma copy_plain: "deep_copy (\<lambda>_ _. True) (\<lambda>_ x. x) State_Monad.return"
  by unfold_locales (auto simp: held_def)

definition copy_option :: "('a \<Rightarrow> ('c, 'a) mem) \<Rightarrow> 'a option \<Rightarrow> ('c, 'a option) mem" where
  "copy_option copy p =
    (case p of
       None \<Rightarrow> State_Monad.return None
     | Some x \<Rightarrow> do { y \<leftarrow> copy x; State_Monad.return (Some y) })"

definition wf_option :: "('c heap \<Rightarrow> 'a \<Rightarrow> bool) \<Rightarrow> 'c heap \<Rightarrow> 'a option \<Rightarrow> bool" where
  "wf_option ok h p = (case p of None \<Rightarrow> True | Some x \<Rightarrow> ok h x)"

definition val_option :: "('c heap \<Rightarrow> 'a \<Rightarrow> 'v) \<Rightarrow> 'c heap \<Rightarrow> 'a option \<Rightarrow> 'v option" where
  "val_option val h p = map_option (val h) p"

lemma held_option [simp]:
  "held (wf_option ok) (val_option val) lo hi h (Some x) (Some v) \<longleftrightarrow> held ok val lo hi h x v"
  "held (wf_option ok) (val_option val) lo hi h None None"
  by (simp_all add: held_def wf_option_def val_option_def)

lemma option_simps [simp]:
  "wf_option ok h None" "wf_option ok h (Some x) \<longleftrightarrow> ok h x"
  "val_option val h None = None" "val_option val h (Some x) = Some (val h x)"
  by (simp_all add: wf_option_def val_option_def)

context deep_copy
begin

lemma copy_option: "deep_copy (wf_option ok) (val_option val) (copy_option copy)"
proof
  show "held (wf_option ok) (val_option val) 0 (limit h) h p (val_option val h p)"
    if "wf_option ok h p" for h p
    using that stable by (cases p) simp_all
  fix h p p' h'
  assume okp: "wf_option ok h p" and run: "run_state (copy_option copy p) h = (p', h')"
  show "extends h h' \<and> held (wf_option ok) (val_option val) (limit h) (limit h') h' p' (val_option val h p)"
  proof (cases p)
    case None
    with run show ?thesis by (simp add: copy_option_def)
  next
    case (Some x)
    with run obtain y where y: "run_state (copy x) h = (y, h')" and p': "p' = Some y"
      by (auto simp: copy_option_def split: prod.splits)
    from copied[OF _ y] Some okp p' show ?thesis by simp
  qed
qed

lemma copy_part:
  assumes "\<And>r a. part (join r a) = a" and "\<And>r a v. build (join r a) v = build r v"
  shows "deep_copy (\<lambda>h r. ok h (part r)) (\<lambda>h r. build r (val h (part r)))
    (\<lambda>r. do { a \<leftarrow> copy (part r); State_Monad.return (join r a) })"
    (is "deep_copy ?ok ?val ?copy")
proof
  have lift: "held ?ok ?val lo hi h r (build r v)" if "held ok val lo hi h (part r) v" for lo hi h r v
    using that by (simp add: held_def)
  show "held ?ok ?val 0 (limit h) h r (?val h r)" if "?ok h r" for h r
    by (rule lift) (rule stable[OF that])
  fix h r r' h'
  assume okr: "?ok h r" and run: "run_state (?copy r) h = (r', h')"
  obtain a where a: "run_state (copy (part r)) h = (a, h')" and r': "r' = join r a"
    using run by (auto split: prod.splits)
  have "held ok val (limit h) (limit h') h' (part r') (val h (part r))"
    using copied[OF okr a] by (simp add: r' assms(1))
  from lift[OF this] copied[OF okr a] show "extends h h' \<and> held ?ok ?val (limit h) (limit h') h' r' (?val h r)"
    by (simp add: r' assms(2))
qed

end

lemma copy_pair:
  assumes "deep_copy wf1 val1 copy1" and "deep_copy wf2 val2 copy2"
  shows "deep_copy (\<lambda>h p. wf1 h (fst p) \<and> wf2 h (snd p)) (\<lambda>h p. (val1 h (fst p), val2 h (snd p)))
    (\<lambda>p. do { a \<leftarrow> copy1 (fst p); b \<leftarrow> copy2 (snd p); State_Monad.return (a, b) })"
    (is "deep_copy ?ok ?val ?copy")
proof
  show "held ?ok ?val 0 (limit h) h p (?val h p)" if "?ok h p" for h p
    using that deep_copy.stable[OF assms(1)] deep_copy.stable[OF assms(2)] by (auto simp: held_def)
  fix h p p' h'
  assume okp: "?ok h p" and run: "run_state (?copy p) h = (p', h')"
  obtain a h1 where a: "run_state (copy1 (fst p)) h = (a, h1)" by fastforce
  with run obtain b where b: "run_state (copy2 (snd p)) h1 = (b, h')" and p': "p' = (a, b)"
    by (auto split: prod.splits)
  have one: "extends h h1" "held wf1 val1 (limit h) (limit h1) h1 a (val1 h (fst p))"
    using deep_copy.copied[OF assms(1) _ a] okp by auto
  have same: "wf2 h1 (snd p) \<and> val2 h1 (snd p) = val2 h (snd p)"
    using deep_copy.later[OF assms(2) _ one(1)] okp by auto
  have two: "extends h1 h'" "held wf2 val2 (limit h1) (limit h') h' b (val2 h (snd p))"
    using deep_copy.copied[OF assms(2) _ b] same by auto
  have le: "limit h \<le> limit h1" "limit h1 \<le> limit h'"
    using one(1) two(1) by (simp_all add: extends_def)
  have "held wf1 val1 (limit h) (limit h') h' a (val1 h (fst p))"
    using one(2) le two(1) by (auto intro: held_mono extends_agree)
  moreover have "held wf2 val2 (limit h) (limit h') h' b (val2 h (snd p))"
    using two(2) le by (auto intro: held_mono)
  ultimately show "extends h h' \<and> held ?ok ?val (limit h) (limit h') h' p' (?val h p)"
    using extends_trans[OF one(1) two(1)] p' by (simp add: held_def)
qed

subsection \<open>Copying a slice\<close>

definition copy_slice :: "('a, 'c) kind \<Rightarrow> 'a \<Rightarrow> ('a \<Rightarrow> ('c, 'a) mem) \<Rightarrow> slice \<Rightarrow> ('c, slice) mem" where
  "copy_slice K zero copy s = do {
     out \<leftarrow> go_make K zero (len s);
     copy_each K copy s out;
     State_Monad.return out
   }"

definition wf_slice :: "('a, 'c) kind \<Rightarrow> ('c heap \<Rightarrow> 'a \<Rightarrow> bool) \<Rightarrow> 'c heap \<Rightarrow> slice \<Rightarrow> bool" where
  "wf_slice K ok h s \<longleftrightarrow> arr s < limit h \<and> off s + len s \<le> length (array_at K h (arr s)) \<and>
    (\<forall>i < len s. ok h (array_at K h (arr s) ! (off s + i)))"

definition val_slice :: "('a, 'c) kind \<Rightarrow> ('c heap \<Rightarrow> 'a \<Rightarrow> 'v) \<Rightarrow> 'c heap \<Rightarrow> slice \<Rightarrow> 'v list" where
  "val_slice K val h s = map (\<lambda>i. val h (array_at K h (arr s) ! (off s + i))) [0..<len s]"

context deep_copy
begin

text \<open>After \<open>n\<close> rounds the first \<open>n\<close> cells of the new array \<open>a\<close> hold copies, beyond \<open>a\<close>.\<close>

definition copied_so_far :: "('a, 'c) kind \<Rightarrow> 'c heap \<Rightarrow> slice \<Rightarrow> nat \<Rightarrow> 'c heap \<Rightarrow> bool" where
  "copied_so_far K h s n g \<longleftrightarrow> extends h g \<and> limit h < limit g \<and>
    (\<exists>ys. cells g (limit h) = wrap K ys \<and> length ys = len s \<and>
      (\<forall>j < n. held ok val (Suc (limit h)) (limit g) g (ys ! j)
        (val h (array_at K h (arr s) ! (off s + j)))))"

lemma copy_round_step:
  assumes K: "kind_ok K" and wfs: "wf_slice K ok h s" and n: "n < len s"
    and sofar: "copied_so_far K h s n g"
  shows "copied_so_far K h s (Suc n)
    (snd (run_state (copy_round K copy s \<lparr>arr = limit h, off = 0, len = len s\<rparr> n) g))"
proof -
  obtain ys where g: "extends h g" "limit h < limit g"
    and ys: "cells g (limit h) = wrap K ys" "length ys = len s"
    and held: "\<And>j. j < n \<Longrightarrow> held ok val (Suc (limit h)) (limit g) g (ys ! j)
      (val h (array_at K h (arr s) ! (off s + j)))"
    using sofar unfolding copied_so_far_def by blast
  let ?x = "array_at K h (arr s) ! (off s + n)"
  have "array_at K g (arr s) = array_at K h (arr s)"
    by (rule array_at_cong) (use g(1) wfs in \<open>simp add: extends_def agree_def wf_slice_def\<close>)
  then have load: "array_at K g (arr s) ! (off s + n) = ?x" by simp
  have x: "ok g ?x \<and> val g ?x = val h ?x"
    using later[OF _ g(1)] wfs n by (simp add: wf_slice_def)
  obtain y g1 where run: "run_state (copy ?x) g = (y, g1)" by fastforce
  have g1: "extends g g1" "held ok val (limit g) (limit g1) g1 y (val h ?x)"
    using copied[OF _ run] x by auto
  have "cells g1 (limit h) = wrap K ys"
    using g1(1) g(2) ys(1) by (simp add: extends_def agree_def)
  then have a: "array_at K g1 (limit h) = ys" by (rule array_at_inj[OF K])
  let ?g2 = "g1\<lparr>cells := (cells g1)(limit h := wrap K (ys[n := y]))\<rparr>"
  have step: "snd (run_state (copy_round K copy s \<lparr>arr = limit h, off = 0, len = len s\<rparr> n) g) = ?g2"
    by (simp add: copy_round_def load run a)
  have ext: "extends h ?g2" using g(1) g1(1) by (auto simp: extends_def agree_def)
  have le: "limit g \<le> limit ?g2" using g1(1) by (simp add: extends_def)
  have "held ok val (Suc (limit h)) (limit ?g2) ?g2 (ys[n := y] ! j)
      (val h (array_at K h (arr s) ! (off s + j)))" if "j < Suc n" for j
  proof (cases "j = n")
    case True
    with n ys(2) g1(2) g(2) show ?thesis
      by (auto intro: held_mono simp: agree_def)
  next
    case False
    with that have "held ok val (Suc (limit h)) (limit g) g (ys ! j)
      (val h (array_at K h (arr s) ! (off s + j)))" using held by simp
    then have "held ok val (Suc (limit h)) (limit ?g2) ?g2 (ys ! j)
      (val h (array_at K h (arr s) ! (off s + j)))"
      by (rule held_mono) (use le g1(1) in \<open>auto simp: extends_def agree_def\<close>)
    with False show ?thesis by simp
  qed
  then have "\<forall>j < Suc n. held ok val (Suc (limit h)) (limit ?g2) ?g2 (ys[n := y] ! j)
      (val h (array_at K h (arr s) ! (off s + j)))" by blast
  then show ?thesis
    unfolding step copied_so_far_def using ext g(2) le ys(2)
    by (intro conjI exI[of _ "ys[n := y]"]) simp_all
qed

lemma copy_rounds:
  assumes "kind_ok K" and "wf_slice K ok h s" and "copied_so_far K h s 0 g" and "n \<le> len s"
  shows "copied_so_far K h s n
    (snd (run_state (for_each [0..<n] (copy_round K copy s \<lparr>arr = limit h, off = 0, len = len s\<rparr>)) g))"
  using assms(4)
proof (induction n)
  case (Suc n)
  then show ?case
    using copy_round_step[OF assms(1,2), of n] by (simp add: run_for_each_append split: prod.split)
qed (simp add: assms(3))

lemma copy_slice:
  assumes K: "kind_ok K"
  shows "deep_copy (wf_slice K ok) (val_slice K val) (copy_slice K zero copy)"
proof
  show "held (wf_slice K ok) (val_slice K val) 0 (limit h) h s (val_slice K val h s)"
    if wfs: "wf_slice K ok h s" for h s
    unfolding held_def
  proof (intro allI impI)
    fix g assume g: "agree 0 (limit h) g h \<and> limit h \<le> limit g"
    then have ext: "extends h g" by (simp add: extends_def)
    have "array_at K g (arr s) = array_at K h (arr s)"
      by (rule array_at_cong) (use g wfs in \<open>simp add: agree_def wf_slice_def\<close>)
    with wfs g later[OF _ ext] show "wf_slice K ok g s \<and> val_slice K val g s = val_slice K val h s"
      by (simp add: wf_slice_def val_slice_def)
  qed
  fix h s s' h'
  assume wfs: "wf_slice K ok h s" and run: "run_state (copy_slice K zero copy s) h = (s', h')"
  let ?out = "\<lparr>arr = limit h, off = 0, len = len s\<rparr>"
  let ?g = "h\<lparr>limit := limit h + 1, cells := (cells h)(limit h := wrap K (replicate (len s) zero))\<rparr>"
  have s': "s' = ?out" and h': "h' = snd (run_state (copy_each K copy s ?out) ?g)"
    using run by (auto simp: copy_slice_def go_make_def split: prod.splits)
  have "copied_so_far K h s 0 ?g"
    by (simp add: copied_so_far_def extends_def agree_def exI[of _ "replicate (len s) zero"])
  from copy_rounds[OF K wfs this order_refl] have rounds: "copied_so_far K h s (len s) h'"
    by (simp add: h' copy_each_def)
  then obtain ys where ys: "cells h' (limit h) = wrap K ys" "length ys = len s"
    and held: "\<And>j. j < len s \<Longrightarrow> held ok val (Suc (limit h)) (limit h') h' (ys ! j)
      (val h (array_at K h (arr s) ! (off s + j)))"
    and ext: "extends h h'" "limit h < limit h'"
    unfolding copied_so_far_def by blast
  have "wf_slice K ok g ?out \<and> val_slice K val g ?out = val_slice K val h s"
    if g: "agree (limit h) (limit h') g h'" "limit h' \<le> limit g" for g
  proof -
    have "cells g (limit h) = wrap K ys" using g ext(2) ys(1) by (simp add: agree_def)
    then have a: "array_at K g (limit h) = ys" by (rule array_at_inj[OF K])
    have "ok g (ys ! j) \<and> val g (ys ! j) = val h (array_at K h (arr s) ! (off s + j))" if "j < len s" for j
      using heldD[OF held[OF that], of g] g agree_narrow[OF g(1), of "Suc (limit h)" "limit h'"] by simp
    then show ?thesis using a ys(2) ext(2) g(2) by (simp add: wf_slice_def val_slice_def)
  qed
  then show "extends h h' \<and> held (wf_slice K ok) (val_slice K val) (limit h) (limit h') h' s'
      (val_slice K val h s)"
    using ext(1) by (simp add: held_def s')
qed

end

subsection \<open>Copying what a pointer points to\<close>

definition copy_pointer :: "('a, 'c) kind \<Rightarrow> 'a \<Rightarrow> ('a \<Rightarrow> ('c, 'a) mem) \<Rightarrow> pointer \<Rightarrow> ('c, pointer) mem" where
  "copy_pointer K zero copy p = do {
     out \<leftarrow> go_new K zero;
     x \<leftarrow> load K (fst p) (snd p);
     y \<leftarrow> copy x;
     store K (fst out) (snd out) y;
     State_Monad.return out
   }"

definition wf_pointer :: "('a, 'c) kind \<Rightarrow> ('c heap \<Rightarrow> 'a \<Rightarrow> bool) \<Rightarrow> 'c heap \<Rightarrow> pointer \<Rightarrow> bool" where
  "wf_pointer K ok h p \<longleftrightarrow> fst p < limit h \<and> snd p < length (array_at K h (fst p)) \<and>
    ok h (array_at K h (fst p) ! snd p)"

definition val_pointer :: "('a, 'c) kind \<Rightarrow> ('c heap \<Rightarrow> 'a \<Rightarrow> 'v) \<Rightarrow> 'c heap \<Rightarrow> pointer \<Rightarrow> 'v" where
  "val_pointer K val h p = val h (array_at K h (fst p) ! snd p)"

definition single :: "pointer \<Rightarrow> slice" where
  "single p = \<lparr>arr = fst p, off = snd p, len = 1\<rparr>"

lemma single_conv:
  "wf_pointer K ok h p \<longleftrightarrow> wf_slice K ok h (single p)"
  "val_slice K val h (single p) = [val_pointer K val h p]"
  by (auto simp: wf_pointer_def wf_slice_def val_slice_def val_pointer_def single_def)

lemma held_single:
  "held (wf_slice K ok) (val_slice K val) lo hi h (single p) [v] \<longleftrightarrow>
    held (wf_pointer K ok) (val_pointer K val) lo hi h p v"
  by (simp add: held_def single_conv)

lemma copy_pointer_one:
  "run_state (copy_slice K zero copy (single p)) h =
    (single (fst (run_state (copy_pointer K zero copy p) h)), snd (run_state (copy_pointer K zero copy p) h))"
  by (simp add: copy_slice_def copy_pointer_def go_new_def go_make_def copy_each_def copy_round_def single_def
    case_prod_beta)

context deep_copy
begin

lemma copy_pointer:
  assumes "kind_ok K"
  shows "deep_copy (wf_pointer K ok) (val_pointer K val) (copy_pointer K zero copy)"
proof
  show "held (wf_pointer K ok) (val_pointer K val) 0 (limit h) h p (val_pointer K val h p)"
    if "wf_pointer K ok h p" for h p
    using that deep_copy.stable[OF copy_slice[OF assms], of h "single p"]
    by (simp add: single_conv held_single)
  show "extends h h' \<and> held (wf_pointer K ok) (val_pointer K val) (limit h) (limit h') h' p' (val_pointer K val h p)"
    if "wf_pointer K ok h p" "run_state (copy_pointer K zero copy p) h = (p', h')" for h p p' h'
    using that deep_copy.copied[OF copy_slice[OF assms], of h "single p" zero "single p'" h']
    by (simp add: copy_pointer_one single_conv held_single)
qed

end

end
