(* ===== verification/DeepCopy.thy ===== *)
theory DeepCopy
  imports ApiTypes GoMemory
begin

text \<open>
  The deep copies of \<open>api/v1/zz_generated.deepcopy.go\<close>, over theory \<open>GoMemory\<close>. Here the structs
  have their pointers and slices: each record has its reference fields as parameters, which are
  addresses in memory and plain values in what the struct means. \<open>DeepCopyInto\<close> takes the struct
  \<open>in\<close> points to and returns the one it leaves in \<open>out\<close>, another variable; \<open>DeepCopy\<close> takes a
  pointer and returns a pointer. A pointer into the middle of a struct, such as \<open>&device.Spec\<close>, is
  passed as that field's value and occurs as a pointer nowhere else.

  \<open>ObjectMeta\<close>, \<open>ListMeta\<close>, \<open>Condition\<close> and \<open>Time\<close> are copied by apimachinery, whose functions
  are parameters.
\<close>

subsection \<open>Structs in memory\<close>

record TypeMeta =
  tm_Kind :: string
  tm_APIVersion :: string

record ('time, 'conds) GoHomelabStatus =
  hs_ObservedGeneration :: int64
  hs_LastSyncTime :: 'time
  hs_Conditions :: 'conds

record 'status GoStatus =
  st_HomelabStatus :: 'status

record 'strs GoDeviceSpec =
  gs_Network :: string
  gs_IP :: string
  gs_MACAddresses :: 'strs
  gs_DHCP :: bool
  gs_AdditionalHostnames :: 'strs
  gs_Trunked :: bool
  gs_Wired :: bool
  gs_Wireless :: bool
  gs_USB :: bool
  gs_Location :: string
  gs_Position :: int64
  gs_PDU :: string
  gs_Switch :: string
  gs_Side :: string
  gs_Manufacturer :: string
  gs_Model :: string
  gs_SerialNumber :: string

record ('om, 'spec, 'status) GoObject =
  go_TypeMeta :: TypeMeta
  go_ObjectMeta :: 'om
  go_Spec :: 'spec
  go_Status :: 'status

record ('lm, 'items) GoList =
  gl_TypeMeta :: TypeMeta
  gl_ListMeta :: 'lm
  gl_Items :: 'items

type_synonym mem_HomelabStatus = "(pointer option, slice option) GoHomelabStatus"
type_synonym mem_Status = "mem_HomelabStatus GoStatus"
type_synonym mem_DeviceSpec = "slice option GoDeviceSpec"
type_synonym 'om mem_Device = "('om, mem_DeviceSpec, mem_Status) GoObject"
type_synonym 'om mem_IngressRouter = "('om, IngressRouterSpec, mem_Status) GoObject"
type_synonym 'om mem_Network = "('om, NetworkSpec, mem_Status) GoObject"
type_synonym 'lm mem_List = "('lm, slice option) GoList"

text \<open>A cell for each type that is allocated, and those of apimachinery.\<close>

datatype ('om, 'lm, 'x) cell =
    Strings "string list"
  | Times "go_time list"
  | ConditionArray "Condition list"
  | HomelabStatuses "mem_HomelabStatus list"
  | DeviceSpecs "mem_DeviceSpec list"
  | DeviceStatuses "mem_Status list"
  | Devices "'om mem_Device list"
  | DeviceLists "'lm mem_List list"
  | IngressRouterSpecs "IngressRouterSpec list"
  | IngressRouterStatuses "mem_Status list"
  | IngressRouters "'om mem_IngressRouter list"
  | IngressRouterLists "'lm mem_List list"
  | NetworkSpecs "NetworkSpec list"
  | NetworkStatuses "mem_Status list"
  | Networks "'om mem_Network list"
  | NetworkLists "'lm mem_List list"
  | Foreign 'x

definition string_kind :: "(string, ('om, 'lm, 'x) cell) kind" where
  "string_kind = \<lparr>wrap = Strings, unwrap = \<lambda>c. case c of Strings xs \<Rightarrow> Some xs | _ \<Rightarrow> None\<rparr>"

definition time_kind :: "(go_time, ('om, 'lm, 'x) cell) kind" where
  "time_kind = \<lparr>wrap = Times, unwrap = \<lambda>c. case c of Times xs \<Rightarrow> Some xs | _ \<Rightarrow> None\<rparr>"

definition condition_kind :: "(Condition, ('om, 'lm, 'x) cell) kind" where
  "condition_kind = \<lparr>wrap = ConditionArray, unwrap = \<lambda>c. case c of ConditionArray xs \<Rightarrow> Some xs | _ \<Rightarrow> None\<rparr>"

definition HomelabStatus_kind :: "(mem_HomelabStatus, ('om, 'lm, 'x) cell) kind" where
  "HomelabStatus_kind = \<lparr>wrap = HomelabStatuses, unwrap = \<lambda>c. case c of HomelabStatuses xs \<Rightarrow> Some xs | _ \<Rightarrow> None\<rparr>"

definition DeviceSpec_kind :: "(mem_DeviceSpec, ('om, 'lm, 'x) cell) kind" where
  "DeviceSpec_kind = \<lparr>wrap = DeviceSpecs, unwrap = \<lambda>c. case c of DeviceSpecs xs \<Rightarrow> Some xs | _ \<Rightarrow> None\<rparr>"

definition DeviceStatus_kind :: "(mem_Status, ('om, 'lm, 'x) cell) kind" where
  "DeviceStatus_kind = \<lparr>wrap = DeviceStatuses, unwrap = \<lambda>c. case c of DeviceStatuses xs \<Rightarrow> Some xs | _ \<Rightarrow> None\<rparr>"

definition Device_kind :: "('om mem_Device, ('om, 'lm, 'x) cell) kind" where
  "Device_kind = \<lparr>wrap = Devices, unwrap = \<lambda>c. case c of Devices xs \<Rightarrow> Some xs | _ \<Rightarrow> None\<rparr>"

definition DeviceList_kind :: "('lm mem_List, ('om, 'lm, 'x) cell) kind" where
  "DeviceList_kind = \<lparr>wrap = DeviceLists, unwrap = \<lambda>c. case c of DeviceLists xs \<Rightarrow> Some xs | _ \<Rightarrow> None\<rparr>"

definition IngressRouterSpec_kind :: "(IngressRouterSpec, ('om, 'lm, 'x) cell) kind" where
  "IngressRouterSpec_kind = \<lparr>wrap = IngressRouterSpecs, unwrap = \<lambda>c. case c of IngressRouterSpecs xs \<Rightarrow> Some xs | _ \<Rightarrow> None\<rparr>"

definition IngressRouterStatus_kind :: "(mem_Status, ('om, 'lm, 'x) cell) kind" where
  "IngressRouterStatus_kind = \<lparr>wrap = IngressRouterStatuses, unwrap = \<lambda>c. case c of IngressRouterStatuses xs \<Rightarrow> Some xs | _ \<Rightarrow> None\<rparr>"

definition IngressRouter_kind :: "('om mem_IngressRouter, ('om, 'lm, 'x) cell) kind" where
  "IngressRouter_kind = \<lparr>wrap = IngressRouters, unwrap = \<lambda>c. case c of IngressRouters xs \<Rightarrow> Some xs | _ \<Rightarrow> None\<rparr>"

definition IngressRouterList_kind :: "('lm mem_List, ('om, 'lm, 'x) cell) kind" where
  "IngressRouterList_kind = \<lparr>wrap = IngressRouterLists, unwrap = \<lambda>c. case c of IngressRouterLists xs \<Rightarrow> Some xs | _ \<Rightarrow> None\<rparr>"

definition NetworkSpec_kind :: "(NetworkSpec, ('om, 'lm, 'x) cell) kind" where
  "NetworkSpec_kind = \<lparr>wrap = NetworkSpecs, unwrap = \<lambda>c. case c of NetworkSpecs xs \<Rightarrow> Some xs | _ \<Rightarrow> None\<rparr>"

definition NetworkStatus_kind :: "(mem_Status, ('om, 'lm, 'x) cell) kind" where
  "NetworkStatus_kind = \<lparr>wrap = NetworkStatuses, unwrap = \<lambda>c. case c of NetworkStatuses xs \<Rightarrow> Some xs | _ \<Rightarrow> None\<rparr>"

definition Network_kind :: "('om mem_Network, ('om, 'lm, 'x) cell) kind" where
  "Network_kind = \<lparr>wrap = Networks, unwrap = \<lambda>c. case c of Networks xs \<Rightarrow> Some xs | _ \<Rightarrow> None\<rparr>"

definition NetworkList_kind :: "('lm mem_List, ('om, 'lm, 'x) cell) kind" where
  "NetworkList_kind = \<lparr>wrap = NetworkLists, unwrap = \<lambda>c. case c of NetworkLists xs \<Rightarrow> Some xs | _ \<Rightarrow> None\<rparr>"

lemmas kind_defs = string_kind_def time_kind_def condition_kind_def HomelabStatus_kind_def DeviceSpec_kind_def
  DeviceStatus_kind_def Device_kind_def DeviceList_kind_def IngressRouterSpec_kind_def
  IngressRouterStatus_kind_def IngressRouter_kind_def IngressRouterList_kind_def
  NetworkSpec_kind_def NetworkStatus_kind_def Network_kind_def NetworkList_kind_def

lemma kinds_ok [simp]:
  "kind_ok string_kind"
  "kind_ok time_kind"
  "kind_ok condition_kind"
  "kind_ok HomelabStatus_kind"
  "kind_ok DeviceSpec_kind"
  "kind_ok DeviceStatus_kind"
  "kind_ok Device_kind"
  "kind_ok DeviceList_kind"
  "kind_ok IngressRouterSpec_kind"
  "kind_ok IngressRouterStatus_kind"
  "kind_ok IngressRouter_kind"
  "kind_ok IngressRouterList_kind"
  "kind_ok NetworkSpec_kind"
  "kind_ok NetworkStatus_kind"
  "kind_ok Network_kind"
  "kind_ok NetworkList_kind"
  by (simp_all add: kind_ok_def kind_defs)

record ('om, 'lm, 'x) metav1_lib =
  ObjectMeta_DeepCopyInto :: "'om \<Rightarrow> (('om, 'lm, 'x) cell, 'om) mem"
  ListMeta_DeepCopyInto :: "'lm \<Rightarrow> (('om, 'lm, 'x) cell, 'lm) mem"
  Condition_DeepCopyInto :: "Condition \<Rightarrow> (('om, 'lm, 'x) cell, Condition) mem"
  Time_DeepCopy :: "pointer \<Rightarrow> (('om, 'lm, 'x) cell, pointer) mem"
  zero_ObjectMeta :: 'om
  zero_ListMeta :: 'lm

subsection \<open>Zero values\<close>

text \<open>What \<open>new\<close> and \<open>make\<close> fill memory with; every field is written before it is read.\<close>

definition zero_TypeMeta :: TypeMeta where
  "zero_TypeMeta = \<lparr>tm_Kind = [], tm_APIVersion = []\<rparr>"

definition zero_Condition :: Condition where
  "zero_Condition = new_condition [] ConditionUnknown [] []"

definition zero_HomelabStatus :: mem_HomelabStatus where
  "zero_HomelabStatus = \<lparr>hs_ObservedGeneration = 0, hs_LastSyncTime = None, hs_Conditions = None\<rparr>"

definition zero_Status :: mem_Status where
  "zero_Status = \<lparr>st_HomelabStatus = zero_HomelabStatus\<rparr>"

definition zero_DeviceSpec :: mem_DeviceSpec where
  "zero_DeviceSpec = \<lparr>
     gs_Network = [], gs_IP = [], gs_MACAddresses = None, gs_DHCP = False,
     gs_AdditionalHostnames = None, gs_Trunked = False, gs_Wired = False, gs_Wireless = False,
     gs_USB = False, gs_Location = [], gs_Position = 0, gs_PDU = [], gs_Switch = [], gs_Side = [],
     gs_Manufacturer = [], gs_Model = [], gs_SerialNumber = []\<rparr>"

definition zero_IngressRouterSpec :: IngressRouterSpec where
  "zero_IngressRouterSpec = \<lparr>irs_IngressClass = [], irs_IPAddress = []\<rparr>"

definition zero_NetworkSpec :: NetworkSpec where
  "zero_NetworkSpec =
    \<lparr>ns_Role = [], ns_VLAN = 0, ns_CIDRBlock = [], ns_ServeDHCP = False, ns_Router = [], ns_DNSServer = []\<rparr>"

definition zero_object :: "('om, 'lm, 'x) metav1_lib \<Rightarrow> 'spec \<Rightarrow> ('om, 'spec, mem_Status) GoObject" where
  "zero_object lib spec =
    \<lparr>go_TypeMeta = zero_TypeMeta, go_ObjectMeta = zero_ObjectMeta lib, go_Spec = spec, go_Status = zero_Status\<rparr>"

abbreviation zero_Device :: "('om, 'lm, 'x) metav1_lib \<Rightarrow> 'om mem_Device" where
  "zero_Device lib \<equiv> zero_object lib zero_DeviceSpec"

abbreviation zero_IngressRouter :: "('om, 'lm, 'x) metav1_lib \<Rightarrow> 'om mem_IngressRouter" where
  "zero_IngressRouter lib \<equiv> zero_object lib zero_IngressRouterSpec"

abbreviation zero_Network :: "('om, 'lm, 'x) metav1_lib \<Rightarrow> 'om mem_Network" where
  "zero_Network lib \<equiv> zero_object lib zero_NetworkSpec"

definition zero_List :: "('om, 'lm, 'x) metav1_lib \<Rightarrow> 'lm mem_List" where
  "zero_List lib = \<lparr>gl_TypeMeta = zero_TypeMeta, gl_ListMeta = zero_ListMeta lib, gl_Items = None\<rparr>"

subsection \<open>Status\<close>

definition HomelabStatus_DeepCopyInto ::
  "('om, 'lm, 'x) metav1_lib \<Rightarrow> mem_HomelabStatus \<Rightarrow> (('om, 'lm, 'x) cell, mem_HomelabStatus) mem" where
  "HomelabStatus_DeepCopyInto lib inp = do {
     time \<leftarrow> copy_option (Time_DeepCopy lib) (hs_LastSyncTime inp);
     conditions \<leftarrow> copy_option (copy_slice condition_kind zero_Condition (Condition_DeepCopyInto lib))
       (hs_Conditions inp);
     State_Monad.return (inp\<lparr>hs_LastSyncTime := time, hs_Conditions := conditions\<rparr>)
   }"

definition HomelabStatus_DeepCopy :: "('om, 'lm, 'x) metav1_lib \<Rightarrow> pointer option \<Rightarrow> (('om, 'lm, 'x) cell, pointer option) mem" where
  "HomelabStatus_DeepCopy lib p = copy_option (copy_pointer HomelabStatus_kind zero_HomelabStatus (HomelabStatus_DeepCopyInto lib)) p"

definition DeviceStatus_DeepCopyInto :: "('om, 'lm, 'x) metav1_lib \<Rightarrow> mem_Status \<Rightarrow> (('om, 'lm, 'x) cell, mem_Status) mem" where
  "DeviceStatus_DeepCopyInto lib inp = do {
     status \<leftarrow> HomelabStatus_DeepCopyInto lib (st_HomelabStatus inp);
     State_Monad.return (inp\<lparr>st_HomelabStatus := status\<rparr>)
   }"

definition DeviceStatus_DeepCopy :: "('om, 'lm, 'x) metav1_lib \<Rightarrow> pointer option \<Rightarrow> (('om, 'lm, 'x) cell, pointer option) mem" where
  "DeviceStatus_DeepCopy lib p = copy_option (copy_pointer DeviceStatus_kind zero_Status (DeviceStatus_DeepCopyInto lib)) p"

definition IngressRouterStatus_DeepCopyInto :: "('om, 'lm, 'x) metav1_lib \<Rightarrow> mem_Status \<Rightarrow> (('om, 'lm, 'x) cell, mem_Status) mem" where
  "IngressRouterStatus_DeepCopyInto lib inp = do {
     status \<leftarrow> HomelabStatus_DeepCopyInto lib (st_HomelabStatus inp);
     State_Monad.return (inp\<lparr>st_HomelabStatus := status\<rparr>)
   }"

definition IngressRouterStatus_DeepCopy :: "('om, 'lm, 'x) metav1_lib \<Rightarrow> pointer option \<Rightarrow> (('om, 'lm, 'x) cell, pointer option) mem" where
  "IngressRouterStatus_DeepCopy lib p = copy_option (copy_pointer IngressRouterStatus_kind zero_Status (IngressRouterStatus_DeepCopyInto lib)) p"

definition NetworkStatus_DeepCopyInto :: "('om, 'lm, 'x) metav1_lib \<Rightarrow> mem_Status \<Rightarrow> (('om, 'lm, 'x) cell, mem_Status) mem" where
  "NetworkStatus_DeepCopyInto lib inp = do {
     status \<leftarrow> HomelabStatus_DeepCopyInto lib (st_HomelabStatus inp);
     State_Monad.return (inp\<lparr>st_HomelabStatus := status\<rparr>)
   }"

definition NetworkStatus_DeepCopy :: "('om, 'lm, 'x) metav1_lib \<Rightarrow> pointer option \<Rightarrow> (('om, 'lm, 'x) cell, pointer option) mem" where
  "NetworkStatus_DeepCopy lib p = copy_option (copy_pointer NetworkStatus_kind zero_Status (NetworkStatus_DeepCopyInto lib)) p"

subsection \<open>Specs\<close>

definition copy_strings :: "slice \<Rightarrow> (('om, 'lm, 'x) cell, slice) mem" where
  "copy_strings s = do {
     out \<leftarrow> go_make string_kind [] (len s);
     go_copy string_kind out s;
     State_Monad.return out
   }"

definition DeviceSpec_DeepCopyInto :: "mem_DeviceSpec \<Rightarrow> (('om, 'lm, 'x) cell, mem_DeviceSpec) mem" where
  "DeviceSpec_DeepCopyInto inp = do {
     macs \<leftarrow> copy_option copy_strings (gs_MACAddresses inp);
     names \<leftarrow> copy_option copy_strings (gs_AdditionalHostnames inp);
     State_Monad.return (inp\<lparr>gs_MACAddresses := macs, gs_AdditionalHostnames := names\<rparr>)
   }"

definition DeviceSpec_DeepCopy :: "pointer option \<Rightarrow> (('om, 'lm, 'x) cell, pointer option) mem" where
  "DeviceSpec_DeepCopy p = copy_option (copy_pointer DeviceSpec_kind zero_DeviceSpec DeviceSpec_DeepCopyInto) p"

definition IngressRouterSpec_DeepCopyInto :: "IngressRouterSpec \<Rightarrow> (('om, 'lm, 'x) cell, IngressRouterSpec) mem" where
  "IngressRouterSpec_DeepCopyInto inp = State_Monad.return inp"

definition IngressRouterSpec_DeepCopy :: "pointer option \<Rightarrow> (('om, 'lm, 'x) cell, pointer option) mem" where
  "IngressRouterSpec_DeepCopy p = copy_option (copy_pointer IngressRouterSpec_kind zero_IngressRouterSpec IngressRouterSpec_DeepCopyInto) p"

definition NetworkSpec_DeepCopyInto :: "NetworkSpec \<Rightarrow> (('om, 'lm, 'x) cell, NetworkSpec) mem" where
  "NetworkSpec_DeepCopyInto inp = State_Monad.return inp"

definition NetworkSpec_DeepCopy :: "pointer option \<Rightarrow> (('om, 'lm, 'x) cell, pointer option) mem" where
  "NetworkSpec_DeepCopy p = copy_option (copy_pointer NetworkSpec_kind zero_NetworkSpec NetworkSpec_DeepCopyInto) p"

subsection \<open>Objects and lists\<close>

text \<open>A \<open>runtime.Object\<close> that is not \<open>nil\<close>: a pointer with its type.\<close>

datatype runtime_object =
    DeviceObject pointer
  | DeviceListObject pointer
  | IngressRouterObject pointer
  | IngressRouterListObject pointer
  | NetworkObject pointer
  | NetworkListObject pointer

definition Device_DeepCopyInto :: "('om, 'lm, 'x) metav1_lib \<Rightarrow> 'om mem_Device \<Rightarrow> (('om, 'lm, 'x) cell, 'om mem_Device) mem" where
  "Device_DeepCopyInto lib inp = do {
     meta \<leftarrow> ObjectMeta_DeepCopyInto lib (go_ObjectMeta inp);
     spec \<leftarrow> DeviceSpec_DeepCopyInto (go_Spec inp);
     status \<leftarrow> DeviceStatus_DeepCopyInto lib (go_Status inp);
     State_Monad.return (inp\<lparr>go_TypeMeta := go_TypeMeta inp, go_ObjectMeta := meta,
       go_Spec := spec, go_Status := status\<rparr>)
   }"

definition Device_DeepCopy :: "('om, 'lm, 'x) metav1_lib \<Rightarrow> pointer option \<Rightarrow> (('om, 'lm, 'x) cell, pointer option) mem" where
  "Device_DeepCopy lib p = copy_option (copy_pointer Device_kind (zero_Device lib) (Device_DeepCopyInto lib)) p"

definition Device_DeepCopyObject :: "('om, 'lm, 'x) metav1_lib \<Rightarrow> pointer option \<Rightarrow> (('om, 'lm, 'x) cell, runtime_object option) mem" where
  "Device_DeepCopyObject lib p = do {
     c \<leftarrow> Device_DeepCopy lib p;
     State_Monad.return (case c of Some c \<Rightarrow> Some (DeviceObject c) | None \<Rightarrow> None)
   }"

definition DeviceList_DeepCopyInto :: "('om, 'lm, 'x) metav1_lib \<Rightarrow> 'lm mem_List \<Rightarrow> (('om, 'lm, 'x) cell, 'lm mem_List) mem" where
  "DeviceList_DeepCopyInto lib inp = do {
     meta \<leftarrow> ListMeta_DeepCopyInto lib (gl_ListMeta inp);
     items \<leftarrow> copy_option (copy_slice Device_kind (zero_Device lib) (Device_DeepCopyInto lib)) (gl_Items inp);
     State_Monad.return (inp\<lparr>gl_TypeMeta := gl_TypeMeta inp, gl_ListMeta := meta, gl_Items := items\<rparr>)
   }"

definition DeviceList_DeepCopy :: "('om, 'lm, 'x) metav1_lib \<Rightarrow> pointer option \<Rightarrow> (('om, 'lm, 'x) cell, pointer option) mem" where
  "DeviceList_DeepCopy lib p = copy_option (copy_pointer DeviceList_kind (zero_List lib) (DeviceList_DeepCopyInto lib)) p"

definition DeviceList_DeepCopyObject :: "('om, 'lm, 'x) metav1_lib \<Rightarrow> pointer option \<Rightarrow> (('om, 'lm, 'x) cell, runtime_object option) mem" where
  "DeviceList_DeepCopyObject lib p = do {
     c \<leftarrow> DeviceList_DeepCopy lib p;
     State_Monad.return (case c of Some c \<Rightarrow> Some (DeviceListObject c) | None \<Rightarrow> None)
   }"

definition IngressRouter_DeepCopyInto :: "('om, 'lm, 'x) metav1_lib \<Rightarrow> 'om mem_IngressRouter \<Rightarrow> (('om, 'lm, 'x) cell, 'om mem_IngressRouter) mem" where
  "IngressRouter_DeepCopyInto lib inp = do {
     meta \<leftarrow> ObjectMeta_DeepCopyInto lib (go_ObjectMeta inp);
     status \<leftarrow> IngressRouterStatus_DeepCopyInto lib (go_Status inp);
     State_Monad.return (inp\<lparr>go_TypeMeta := go_TypeMeta inp, go_ObjectMeta := meta,
       go_Spec := go_Spec inp, go_Status := status\<rparr>)
   }"

definition IngressRouter_DeepCopy :: "('om, 'lm, 'x) metav1_lib \<Rightarrow> pointer option \<Rightarrow> (('om, 'lm, 'x) cell, pointer option) mem" where
  "IngressRouter_DeepCopy lib p = copy_option (copy_pointer IngressRouter_kind (zero_IngressRouter lib) (IngressRouter_DeepCopyInto lib)) p"

definition IngressRouter_DeepCopyObject :: "('om, 'lm, 'x) metav1_lib \<Rightarrow> pointer option \<Rightarrow> (('om, 'lm, 'x) cell, runtime_object option) mem" where
  "IngressRouter_DeepCopyObject lib p = do {
     c \<leftarrow> IngressRouter_DeepCopy lib p;
     State_Monad.return (case c of Some c \<Rightarrow> Some (IngressRouterObject c) | None \<Rightarrow> None)
   }"

definition IngressRouterList_DeepCopyInto :: "('om, 'lm, 'x) metav1_lib \<Rightarrow> 'lm mem_List \<Rightarrow> (('om, 'lm, 'x) cell, 'lm mem_List) mem" where
  "IngressRouterList_DeepCopyInto lib inp = do {
     meta \<leftarrow> ListMeta_DeepCopyInto lib (gl_ListMeta inp);
     items \<leftarrow> copy_option (copy_slice IngressRouter_kind (zero_IngressRouter lib) (IngressRouter_DeepCopyInto lib)) (gl_Items inp);
     State_Monad.return (inp\<lparr>gl_TypeMeta := gl_TypeMeta inp, gl_ListMeta := meta, gl_Items := items\<rparr>)
   }"

definition IngressRouterList_DeepCopy :: "('om, 'lm, 'x) metav1_lib \<Rightarrow> pointer option \<Rightarrow> (('om, 'lm, 'x) cell, pointer option) mem" where
  "IngressRouterList_DeepCopy lib p = copy_option (copy_pointer IngressRouterList_kind (zero_List lib) (IngressRouterList_DeepCopyInto lib)) p"

definition IngressRouterList_DeepCopyObject :: "('om, 'lm, 'x) metav1_lib \<Rightarrow> pointer option \<Rightarrow> (('om, 'lm, 'x) cell, runtime_object option) mem" where
  "IngressRouterList_DeepCopyObject lib p = do {
     c \<leftarrow> IngressRouterList_DeepCopy lib p;
     State_Monad.return (case c of Some c \<Rightarrow> Some (IngressRouterListObject c) | None \<Rightarrow> None)
   }"

definition Network_DeepCopyInto :: "('om, 'lm, 'x) metav1_lib \<Rightarrow> 'om mem_Network \<Rightarrow> (('om, 'lm, 'x) cell, 'om mem_Network) mem" where
  "Network_DeepCopyInto lib inp = do {
     meta \<leftarrow> ObjectMeta_DeepCopyInto lib (go_ObjectMeta inp);
     status \<leftarrow> NetworkStatus_DeepCopyInto lib (go_Status inp);
     State_Monad.return (inp\<lparr>go_TypeMeta := go_TypeMeta inp, go_ObjectMeta := meta,
       go_Spec := go_Spec inp, go_Status := status\<rparr>)
   }"

definition Network_DeepCopy :: "('om, 'lm, 'x) metav1_lib \<Rightarrow> pointer option \<Rightarrow> (('om, 'lm, 'x) cell, pointer option) mem" where
  "Network_DeepCopy lib p = copy_option (copy_pointer Network_kind (zero_Network lib) (Network_DeepCopyInto lib)) p"

definition Network_DeepCopyObject :: "('om, 'lm, 'x) metav1_lib \<Rightarrow> pointer option \<Rightarrow> (('om, 'lm, 'x) cell, runtime_object option) mem" where
  "Network_DeepCopyObject lib p = do {
     c \<leftarrow> Network_DeepCopy lib p;
     State_Monad.return (case c of Some c \<Rightarrow> Some (NetworkObject c) | None \<Rightarrow> None)
   }"

definition NetworkList_DeepCopyInto :: "('om, 'lm, 'x) metav1_lib \<Rightarrow> 'lm mem_List \<Rightarrow> (('om, 'lm, 'x) cell, 'lm mem_List) mem" where
  "NetworkList_DeepCopyInto lib inp = do {
     meta \<leftarrow> ListMeta_DeepCopyInto lib (gl_ListMeta inp);
     items \<leftarrow> copy_option (copy_slice Network_kind (zero_Network lib) (Network_DeepCopyInto lib)) (gl_Items inp);
     State_Monad.return (inp\<lparr>gl_TypeMeta := gl_TypeMeta inp, gl_ListMeta := meta, gl_Items := items\<rparr>)
   }"

definition NetworkList_DeepCopy :: "('om, 'lm, 'x) metav1_lib \<Rightarrow> pointer option \<Rightarrow> (('om, 'lm, 'x) cell, pointer option) mem" where
  "NetworkList_DeepCopy lib p = copy_option (copy_pointer NetworkList_kind (zero_List lib) (NetworkList_DeepCopyInto lib)) p"

definition NetworkList_DeepCopyObject :: "('om, 'lm, 'x) metav1_lib \<Rightarrow> pointer option \<Rightarrow> (('om, 'lm, 'x) cell, runtime_object option) mem" where
  "NetworkList_DeepCopyObject lib p = do {
     c \<leftarrow> NetworkList_DeepCopy lib p;
     State_Monad.return (case c of Some c \<Rightarrow> Some (NetworkListObject c) | None \<Rightarrow> None)
   }"

subsection \<open>What the structs mean\<close>

text \<open>
  A struct is proper in memory if its references are; its meaning has values in their place.
  \<open>om\<close> and \<open>lm\<close> stand for what apimachinery's two types refer to.
\<close>

abbreviation always :: "'c heap \<Rightarrow> 'a \<Rightarrow> bool" where
  "always \<equiv> \<lambda>_ _. True"

abbreviation itself :: "'c heap \<Rightarrow> 'a \<Rightarrow> 'a" where
  "itself \<equiv> \<lambda>_ x. x"

definition build_HomelabStatus ::
  "('t, 'c) GoHomelabStatus \<Rightarrow> 't2 \<times> 'c2 \<Rightarrow> ('t2, 'c2) GoHomelabStatus" where
  "build_HomelabStatus s v =
    \<lparr>hs_ObservedGeneration = hs_ObservedGeneration s, hs_LastSyncTime = fst v, hs_Conditions = snd v\<rparr>"

definition build_DeviceSpec :: "'s GoDeviceSpec \<Rightarrow> 's2 \<times> 's2 \<Rightarrow> 's2 GoDeviceSpec" where
  "build_DeviceSpec s v = (let macs = fst v; names = snd v in \<lparr>
     gs_Network = gs_Network s, gs_IP = gs_IP s, gs_MACAddresses = macs, gs_DHCP = gs_DHCP s,
     gs_AdditionalHostnames = names, gs_Trunked = gs_Trunked s, gs_Wired = gs_Wired s,
     gs_Wireless = gs_Wireless s, gs_USB = gs_USB s, gs_Location = gs_Location s,
     gs_Position = gs_Position s, gs_PDU = gs_PDU s, gs_Switch = gs_Switch s, gs_Side = gs_Side s,
     gs_Manufacturer = gs_Manufacturer s, gs_Model = gs_Model s, gs_SerialNumber = gs_SerialNumber s\<rparr>)"

definition build_object :: "('m, 's, 't) GoObject \<Rightarrow> 'm2 \<times> 's2 \<times> 't2 \<Rightarrow> ('m2, 's2, 't2) GoObject" where
  "build_object d v = \<lparr>go_TypeMeta = go_TypeMeta d, go_ObjectMeta = fst v,
     go_Spec = fst (snd v), go_Status = snd (snd v)\<rparr>"

definition build_list :: "('m, 'i) GoList \<Rightarrow> 'm2 \<times> 'i2 \<Rightarrow> ('m2, 'i2) GoList" where
  "build_list l v = \<lparr>gl_TypeMeta = gl_TypeMeta l, gl_ListMeta = fst v, gl_Items = snd v\<rparr>"


definition wf_HomelabStatus :: "('om, 'lm, 'x) cell heap \<Rightarrow> mem_HomelabStatus \<Rightarrow> bool" where
  "wf_HomelabStatus h s \<longleftrightarrow> wf_option (wf_pointer time_kind always) h (hs_LastSyncTime s) \<and>
    wf_option (wf_slice condition_kind always) h (hs_Conditions s)"

definition val_HomelabStatus :: "('om, 'lm, 'x) cell heap \<Rightarrow> mem_HomelabStatus \<Rightarrow>
    (go_time option, Condition list option) GoHomelabStatus" where
  "val_HomelabStatus h s = build_HomelabStatus s
    (val_option (val_pointer time_kind itself) h (hs_LastSyncTime s),
     val_option (val_slice condition_kind itself) h (hs_Conditions s))"

definition wf_Status :: "('om, 'lm, 'x) cell heap \<Rightarrow> mem_Status \<Rightarrow> bool" where
  "wf_Status h s \<longleftrightarrow> wf_HomelabStatus h (st_HomelabStatus s)"

definition val_Status :: "('om, 'lm, 'x) cell heap \<Rightarrow> mem_Status \<Rightarrow>
    (go_time option, Condition list option) GoHomelabStatus GoStatus" where
  "val_Status h s = \<lparr>st_HomelabStatus = val_HomelabStatus h (st_HomelabStatus s)\<rparr>"

definition wf_DeviceSpec :: "('om, 'lm, 'x) cell heap \<Rightarrow> mem_DeviceSpec \<Rightarrow> bool" where
  "wf_DeviceSpec h s \<longleftrightarrow> wf_option (wf_slice string_kind always) h (gs_MACAddresses s) \<and>
    wf_option (wf_slice string_kind always) h (gs_AdditionalHostnames s)"

definition val_DeviceSpec :: "('om, 'lm, 'x) cell heap \<Rightarrow> mem_DeviceSpec \<Rightarrow> string list option GoDeviceSpec" where
  "val_DeviceSpec h s = build_DeviceSpec s
    (val_option (val_slice string_kind itself) h (gs_MACAddresses s),
     val_option (val_slice string_kind itself) h (gs_AdditionalHostnames s))"

definition wf_object ::
  "(('om, 'lm, 'x) cell heap \<Rightarrow> 'om \<Rightarrow> bool) \<Rightarrow> (('om, 'lm, 'x) cell heap \<Rightarrow> 's \<Rightarrow> bool) \<Rightarrow>
    ('om, 'lm, 'x) cell heap \<Rightarrow> ('om, 's, mem_Status) GoObject \<Rightarrow> bool" where
  "wf_object om_ok spec_ok h d \<longleftrightarrow>
    om_ok h (go_ObjectMeta d) \<and> spec_ok h (go_Spec d) \<and> wf_Status h (go_Status d)"

definition val_object ::
  "(('om, 'lm, 'x) cell heap \<Rightarrow> 'om \<Rightarrow> 'omv) \<Rightarrow> (('om, 'lm, 'x) cell heap \<Rightarrow> 's \<Rightarrow> 'sv) \<Rightarrow>
    ('om, 'lm, 'x) cell heap \<Rightarrow> ('om, 's, mem_Status) GoObject \<Rightarrow>
    ('omv, 'sv, (go_time option, Condition list option) GoHomelabStatus GoStatus) GoObject" where
  "val_object om_val spec_val h d = build_object d
    (om_val h (go_ObjectMeta d), spec_val h (go_Spec d), val_Status h (go_Status d))"

definition wf_list ::
  "(('om, 'lm, 'x) cell heap \<Rightarrow> 'lm \<Rightarrow> bool) \<Rightarrow> ('a, ('om, 'lm, 'x) cell) kind \<Rightarrow>
    (('om, 'lm, 'x) cell heap \<Rightarrow> 'a \<Rightarrow> bool) \<Rightarrow> ('om, 'lm, 'x) cell heap \<Rightarrow> 'lm mem_List \<Rightarrow> bool" where
  "wf_list lm_ok K item_ok h l \<longleftrightarrow>
    lm_ok h (gl_ListMeta l) \<and> wf_option (wf_slice K item_ok) h (gl_Items l)"

definition val_list ::
  "(('om, 'lm, 'x) cell heap \<Rightarrow> 'lm \<Rightarrow> 'lmv) \<Rightarrow> ('a, ('om, 'lm, 'x) cell) kind \<Rightarrow>
    (('om, 'lm, 'x) cell heap \<Rightarrow> 'a \<Rightarrow> 'v) \<Rightarrow> ('om, 'lm, 'x) cell heap \<Rightarrow> 'lm mem_List \<Rightarrow>
    ('lmv, 'v list option) GoList" where
  "val_list lm_val K item_val h l = build_list l
    (lm_val h (gl_ListMeta l), val_option (val_slice K item_val) h (gl_Items l))"

text \<open>What apimachinery documents of its deep copies, for its own types.\<close>

definition documented_metav1 ::
  "('om, 'lm, 'x) metav1_lib \<Rightarrow> (('om, 'lm, 'x) cell heap \<Rightarrow> 'om \<Rightarrow> bool) \<Rightarrow>
    (('om, 'lm, 'x) cell heap \<Rightarrow> 'om \<Rightarrow> 'omv) \<Rightarrow> (('om, 'lm, 'x) cell heap \<Rightarrow> 'lm \<Rightarrow> bool) \<Rightarrow>
    (('om, 'lm, 'x) cell heap \<Rightarrow> 'lm \<Rightarrow> 'lmv) \<Rightarrow> bool" where
  "documented_metav1 lib om_ok om_val lm_ok lm_val \<longleftrightarrow>
    deep_copy om_ok om_val (ObjectMeta_DeepCopyInto lib) \<and>
    deep_copy lm_ok lm_val (ListMeta_DeepCopyInto lib) \<and>
    deep_copy always itself (Condition_DeepCopyInto lib) \<and>
    deep_copy (wf_pointer time_kind always) (val_pointer time_kind itself) (Time_DeepCopy lib)"

subsection \<open>Each copy is deep\<close>

lemma copy_strings_slice: "copy_strings = copy_slice string_kind [] State_Monad.return"
  by (rule ext, rule state_ext)
    (simp add: copy_strings_def copy_slice_def go_make_def go_copy_def)

interpretation strings: deep_copy "wf_slice string_kind always" "val_slice string_kind itself" copy_strings
  unfolding copy_strings_slice by (rule deep_copy.copy_slice[OF copy_plain]) simp

interpretation device_spec: deep_copy wf_DeviceSpec val_DeviceSpec DeviceSpec_DeepCopyInto
proof -
  note pair = copy_pair[OF strings.copy_option strings.copy_option]
  show "deep_copy wf_DeviceSpec val_DeviceSpec DeviceSpec_DeepCopyInto"
    using deep_copy.copy_part[OF pair,
        where part = "\<lambda>s. (gs_MACAddresses s, gs_AdditionalHostnames s)"
          and join = "\<lambda>s a. s\<lparr>gs_MACAddresses := fst a, gs_AdditionalHostnames := snd a\<rparr>"
          and build = build_DeviceSpec]
    unfolding wf_DeviceSpec_def[abs_def] val_DeviceSpec_def[abs_def] DeviceSpec_DeepCopyInto_def[abs_def]
    by (simp add: build_DeviceSpec_def)
qed

interpretation router_spec: deep_copy always itself IngressRouterSpec_DeepCopyInto
  unfolding IngressRouterSpec_DeepCopyInto_def[abs_def] by (rule copy_plain)

interpretation network_spec: deep_copy always itself NetworkSpec_DeepCopyInto
  unfolding NetworkSpec_DeepCopyInto_def[abs_def] by (rule copy_plain)

lemma HomelabStatus_copies:
  assumes "documented_metav1 lib om_ok om_val lm_ok lm_val"
  shows "deep_copy wf_HomelabStatus val_HomelabStatus (HomelabStatus_DeepCopyInto lib)"
proof -
  have time: "deep_copy (wf_pointer time_kind always) (val_pointer time_kind itself) (Time_DeepCopy lib)"
    and cond: "deep_copy always itself (Condition_DeepCopyInto lib)"
    using assms by (simp_all add: documented_metav1_def)
  note pair = copy_pair[OF deep_copy.copy_option[OF time]
      deep_copy.copy_option[OF deep_copy.copy_slice[OF cond kinds_ok(3)]]]
  show ?thesis
    using deep_copy.copy_part[OF pair,
        where part = "\<lambda>s. (hs_LastSyncTime s, hs_Conditions s)"
          and join = "\<lambda>s a. s\<lparr>hs_LastSyncTime := fst a, hs_Conditions := snd a\<rparr>"
          and build = build_HomelabStatus]
    unfolding wf_HomelabStatus_def[abs_def] val_HomelabStatus_def[abs_def] HomelabStatus_DeepCopyInto_def[abs_def]
    by (simp add: build_HomelabStatus_def)
qed

lemma Status_copies:
  assumes "documented_metav1 lib om_ok om_val lm_ok lm_val"
  shows "deep_copy wf_Status val_Status (DeviceStatus_DeepCopyInto lib)"
    and "deep_copy wf_Status val_Status (IngressRouterStatus_DeepCopyInto lib)"
    and "deep_copy wf_Status val_Status (NetworkStatus_DeepCopyInto lib)"
  using deep_copy.copy_part[OF HomelabStatus_copies[OF assms], where part = st_HomelabStatus
      and join = "\<lambda>s a. s\<lparr>st_HomelabStatus := a\<rparr>" and build = "\<lambda>_ v. \<lparr>st_HomelabStatus = v\<rparr>"]
  unfolding wf_Status_def[abs_def] val_Status_def[abs_def] DeviceStatus_DeepCopyInto_def[abs_def]
    IngressRouterStatus_DeepCopyInto_def[abs_def] NetworkStatus_DeepCopyInto_def[abs_def]
  by simp_all

lemma object_copies:
  assumes "documented_metav1 lib om_ok om_val lm_ok lm_val" and "deep_copy spec_ok spec_val copy_spec"
    and "deep_copy wf_Status val_Status copy_status"
  shows "deep_copy (wf_object om_ok spec_ok) (val_object om_val spec_val) (\<lambda>d. do {
      meta \<leftarrow> ObjectMeta_DeepCopyInto lib (go_ObjectMeta d);
      spec \<leftarrow> copy_spec (go_Spec d);
      status \<leftarrow> copy_status (go_Status d);
      State_Monad.return (d\<lparr>go_ObjectMeta := meta, go_Spec := spec, go_Status := status\<rparr>) })"
proof -
  have meta: "deep_copy om_ok om_val (ObjectMeta_DeepCopyInto lib)"
    using assms(1) by (simp add: documented_metav1_def)
  note parts = copy_pair[OF meta copy_pair[OF assms(2,3)]]
  show ?thesis
    using deep_copy.copy_part[OF parts,
        where part = "\<lambda>d. (go_ObjectMeta d, go_Spec d, go_Status d)"
          and join = "\<lambda>d a. d\<lparr>go_ObjectMeta := fst a, go_Spec := fst (snd a), go_Status := snd (snd a)\<rparr>"
          and build = build_object]
    unfolding wf_object_def[abs_def] val_object_def[abs_def] by (simp add: build_object_def)
qed

lemma objects_copy:
  assumes "documented_metav1 lib om_ok om_val lm_ok lm_val"
  shows "deep_copy (wf_object om_ok wf_DeviceSpec) (val_object om_val val_DeviceSpec) (Device_DeepCopyInto lib)"
    and "deep_copy (wf_object om_ok always) (val_object om_val itself) (IngressRouter_DeepCopyInto lib)"
    and "deep_copy (wf_object om_ok always) (val_object om_val itself) (Network_DeepCopyInto lib)"
  using object_copies[OF assms device_spec.deep_copy_axioms Status_copies(1)[OF assms]]
    object_copies[OF assms copy_plain Status_copies(2)[OF assms]]
    object_copies[OF assms copy_plain Status_copies(3)[OF assms]]
  unfolding Device_DeepCopyInto_def[abs_def] IngressRouter_DeepCopyInto_def[abs_def]
    Network_DeepCopyInto_def[abs_def]
  by simp_all

lemma list_copies:
  assumes "documented_metav1 lib om_ok om_val lm_ok lm_val" and "kind_ok K" and "deep_copy item_ok item_val copy_item"
  shows "deep_copy (wf_list lm_ok K item_ok) (val_list lm_val K item_val) (\<lambda>l. do {
      meta \<leftarrow> ListMeta_DeepCopyInto lib (gl_ListMeta l);
      items \<leftarrow> copy_option (copy_slice K zero copy_item) (gl_Items l);
      State_Monad.return (l\<lparr>gl_ListMeta := meta, gl_Items := items\<rparr>) })"
proof -
  have meta: "deep_copy lm_ok lm_val (ListMeta_DeepCopyInto lib)"
    using assms(1) by (simp add: documented_metav1_def)
  note parts = copy_pair[OF meta deep_copy.copy_option[OF deep_copy.copy_slice[OF assms(3,2)]]]
  show ?thesis
    using deep_copy.copy_part[OF parts, where part = "\<lambda>l. (gl_ListMeta l, gl_Items l)"
          and join = "\<lambda>l a. l\<lparr>gl_ListMeta := fst a, gl_Items := snd a\<rparr>" and build = build_list]
    unfolding wf_list_def[abs_def] val_list_def[abs_def] by (simp add: build_list_def)
qed

lemma lists_copy:
  assumes "documented_metav1 lib om_ok om_val lm_ok lm_val"
  shows "deep_copy (wf_list lm_ok Device_kind (wf_object om_ok wf_DeviceSpec))
      (val_list lm_val Device_kind (val_object om_val val_DeviceSpec)) (DeviceList_DeepCopyInto lib)"
    and "deep_copy (wf_list lm_ok IngressRouter_kind (wf_object om_ok always))
      (val_list lm_val IngressRouter_kind (val_object om_val itself)) (IngressRouterList_DeepCopyInto lib)"
    and "deep_copy (wf_list lm_ok Network_kind (wf_object om_ok always))
      (val_list lm_val Network_kind (val_object om_val itself)) (NetworkList_DeepCopyInto lib)"
  using list_copies[OF assms kinds_ok(7) objects_copy(1)[OF assms]]
    list_copies[OF assms kinds_ok(11) objects_copy(2)[OF assms]]
    list_copies[OF assms kinds_ok(15) objects_copy(3)[OF assms]]
  unfolding DeviceList_DeepCopyInto_def[abs_def] IngressRouterList_DeepCopyInto_def[abs_def]
    NetworkList_DeepCopyInto_def[abs_def]
  by simp_all

subsection \<open>Pointers\<close>

text \<open>
  A copying method on pointers: \<open>nil\<close> stays \<open>nil\<close>, and what another pointer points to is copied
  to a new place, independently.
\<close>

definition pointer_copies ::
  "('a, 'c) kind \<Rightarrow> ('c heap \<Rightarrow> 'a \<Rightarrow> bool) \<Rightarrow> ('c heap \<Rightarrow> 'a \<Rightarrow> 'v) \<Rightarrow> (pointer \<Rightarrow> 'o) \<Rightarrow>
    (pointer option \<Rightarrow> ('c, 'o option) mem) \<Rightarrow> bool" where
  "pointer_copies K ok val object f \<longleftrightarrow>
    (\<forall>h. run_state (f None) h = (None, h)) \<and>
    (\<forall>h p o' h'. wf_pointer K ok h p \<and> run_state (f (Some p)) h = (o', h') \<longrightarrow>
      (\<exists>p'. o' = Some (object p') \<and> limit h \<le> fst p' \<and> independent (val_pointer K val) h p h' p'))"

lemma pointer_copies_DeepCopy:
  assumes "deep_copy ok val copy" and K: "kind_ok K" and f: "f = copy_option (copy_pointer K zero copy)"
  shows "pointer_copies K ok val (\<lambda>p. p) f"
proof -
  have "\<exists>p'. o' = Some p' \<and> limit h \<le> fst p' \<and> independent (val_pointer K val) h p h' p'"
    if "wf_pointer K ok h p" and run: "run_state (f (Some p)) h = (o', h')" for h p o' h'
  proof -
    obtain p' where p': "run_state (copy_pointer K zero copy p) h = (p', h')" and o': "o' = Some p'"
      using run by (auto simp: f copy_option_def split: prod.splits)
    have "fst p' = limit h"
      using p' by (auto simp: copy_pointer_def go_new_def split: prod.splits)
    with o' deep_copy.copy_independent[OF deep_copy.copy_pointer[OF assms(1) K] that(1) p'] show ?thesis by simp
  qed
  then show ?thesis by (simp add: pointer_copies_def f copy_option_def)
qed

lemma pointer_copies_object:
  assumes "pointer_copies K ok val (\<lambda>p. p) f"
    and "\<And>p. g p = do { c \<leftarrow> f p; State_Monad.return (case c of Some c \<Rightarrow> Some (object c) | None \<Rightarrow> None) }"
  shows "pointer_copies K ok val object g"
  unfolding pointer_copies_def
proof (intro conjI allI impI; (elim conjE)?)
  show "run_state (g None) h = (None, h)" for h
    using assms(1) by (simp add: pointer_copies_def assms(2))
  fix h p o' h'
  assume okp: "wf_pointer K ok h p" and run: "run_state (g (Some p)) h = (o', h')"
  obtain c where c: "run_state (f (Some p)) h = (c, h')" and o': "o' = map_option object c"
    using run by (auto simp: assms(2) split: prod.splits option.splits)
  with assms(1) okp obtain p' where "c = Some p'" "limit h \<le> fst p'" "independent (val_pointer K val) h p h' p'"
    unfolding pointer_copies_def by blast
  with o' show "\<exists>p'. o' = Some (object p') \<and> limit h \<le> fst p' \<and> independent (val_pointer K val) h p h' p'"
    by (intro exI[of _ p']) simp
qed

lemma DeepCopy_copies:
  assumes "documented_metav1 lib om_ok om_val lm_ok lm_val"
  shows "pointer_copies HomelabStatus_kind wf_HomelabStatus val_HomelabStatus (\<lambda>p. p) (HomelabStatus_DeepCopy lib)"
    and "pointer_copies DeviceSpec_kind wf_DeviceSpec val_DeviceSpec (\<lambda>p. p) DeviceSpec_DeepCopy"
    and "pointer_copies IngressRouterSpec_kind always itself (\<lambda>p. p) IngressRouterSpec_DeepCopy"
    and "pointer_copies NetworkSpec_kind always itself (\<lambda>p. p) NetworkSpec_DeepCopy"
    and "pointer_copies DeviceStatus_kind wf_Status val_Status (\<lambda>p. p) (DeviceStatus_DeepCopy lib)"
    and "pointer_copies IngressRouterStatus_kind wf_Status val_Status (\<lambda>p. p) (IngressRouterStatus_DeepCopy lib)"
    and "pointer_copies NetworkStatus_kind wf_Status val_Status (\<lambda>p. p) (NetworkStatus_DeepCopy lib)"
    and "pointer_copies Device_kind (wf_object om_ok wf_DeviceSpec) (val_object om_val val_DeviceSpec) (\<lambda>p. p) (Device_DeepCopy lib)"
    and "pointer_copies IngressRouter_kind (wf_object om_ok always) (val_object om_val itself) (\<lambda>p. p) (IngressRouter_DeepCopy lib)"
    and "pointer_copies Network_kind (wf_object om_ok always) (val_object om_val itself) (\<lambda>p. p) (Network_DeepCopy lib)"
    and "pointer_copies DeviceList_kind (wf_list lm_ok Device_kind (wf_object om_ok wf_DeviceSpec)) (val_list lm_val Device_kind (val_object om_val val_DeviceSpec)) (\<lambda>p. p) (DeviceList_DeepCopy lib)"
    and "pointer_copies IngressRouterList_kind (wf_list lm_ok IngressRouter_kind (wf_object om_ok always)) (val_list lm_val IngressRouter_kind (val_object om_val itself)) (\<lambda>p. p) (IngressRouterList_DeepCopy lib)"
    and "pointer_copies NetworkList_kind (wf_list lm_ok Network_kind (wf_object om_ok always)) (val_list lm_val Network_kind (val_object om_val itself)) (\<lambda>p. p) (NetworkList_DeepCopy lib)"
  by (rule pointer_copies_DeepCopy[OF HomelabStatus_copies[OF assms] kinds_ok(4)]
    pointer_copies_DeepCopy[OF device_spec.deep_copy_axioms kinds_ok(5)]
    pointer_copies_DeepCopy[OF router_spec.deep_copy_axioms kinds_ok(9)]
    pointer_copies_DeepCopy[OF network_spec.deep_copy_axioms kinds_ok(13)]
    pointer_copies_DeepCopy[OF Status_copies(1)[OF assms] kinds_ok(6)]
    pointer_copies_DeepCopy[OF Status_copies(2)[OF assms] kinds_ok(10)]
    pointer_copies_DeepCopy[OF Status_copies(3)[OF assms] kinds_ok(14)]
    pointer_copies_DeepCopy[OF objects_copy(1)[OF assms] kinds_ok(7)]
    pointer_copies_DeepCopy[OF objects_copy(2)[OF assms] kinds_ok(11)]
    pointer_copies_DeepCopy[OF objects_copy(3)[OF assms] kinds_ok(15)]
    pointer_copies_DeepCopy[OF lists_copy(1)[OF assms] kinds_ok(8)]
    pointer_copies_DeepCopy[OF lists_copy(2)[OF assms] kinds_ok(12)]
    pointer_copies_DeepCopy[OF lists_copy(3)[OF assms] kinds_ok(16)],
   rule ext, simp add: HomelabStatus_DeepCopy_def
    DeviceSpec_DeepCopy_def
    IngressRouterSpec_DeepCopy_def
    NetworkSpec_DeepCopy_def
    DeviceStatus_DeepCopy_def
    IngressRouterStatus_DeepCopy_def
    NetworkStatus_DeepCopy_def
    Device_DeepCopy_def
    IngressRouter_DeepCopy_def
    Network_DeepCopy_def
    DeviceList_DeepCopy_def
    IngressRouterList_DeepCopy_def
    NetworkList_DeepCopy_def)+

text \<open>
  (C29) The generated copies are deep: for every type of the package, \<open>DeepCopy\<close> of \<open>nil\<close> is
  \<open>nil\<close>, and \<open>DeepCopy\<close> of a pointer is a new pointer to an equal value, which no write to
  memory that was in use before can change, while the original cannot be changed by a write to
  any part of the copy; \<open>DeepCopyObject\<close> gives that pointer, or \<open>nil\<close>, as an object.
\<close>

theorem DeepCopy_independent:
  assumes "documented_metav1 lib om_ok om_val lm_ok lm_val"
  shows "pointer_copies HomelabStatus_kind wf_HomelabStatus val_HomelabStatus (\<lambda>p. p) (HomelabStatus_DeepCopy lib) \<and>
    pointer_copies DeviceSpec_kind wf_DeviceSpec val_DeviceSpec (\<lambda>p. p) DeviceSpec_DeepCopy \<and>
    pointer_copies IngressRouterSpec_kind always itself (\<lambda>p. p) IngressRouterSpec_DeepCopy \<and>
    pointer_copies NetworkSpec_kind always itself (\<lambda>p. p) NetworkSpec_DeepCopy \<and>
    pointer_copies DeviceStatus_kind wf_Status val_Status (\<lambda>p. p) (DeviceStatus_DeepCopy lib) \<and>
    pointer_copies IngressRouterStatus_kind wf_Status val_Status (\<lambda>p. p) (IngressRouterStatus_DeepCopy lib) \<and>
    pointer_copies NetworkStatus_kind wf_Status val_Status (\<lambda>p. p) (NetworkStatus_DeepCopy lib) \<and>
    pointer_copies Device_kind (wf_object om_ok wf_DeviceSpec) (val_object om_val val_DeviceSpec) (\<lambda>p. p) (Device_DeepCopy lib) \<and>
    pointer_copies IngressRouter_kind (wf_object om_ok always) (val_object om_val itself) (\<lambda>p. p) (IngressRouter_DeepCopy lib) \<and>
    pointer_copies Network_kind (wf_object om_ok always) (val_object om_val itself) (\<lambda>p. p) (Network_DeepCopy lib) \<and>
    pointer_copies DeviceList_kind (wf_list lm_ok Device_kind (wf_object om_ok wf_DeviceSpec)) (val_list lm_val Device_kind (val_object om_val val_DeviceSpec)) (\<lambda>p. p) (DeviceList_DeepCopy lib) \<and>
    pointer_copies IngressRouterList_kind (wf_list lm_ok IngressRouter_kind (wf_object om_ok always)) (val_list lm_val IngressRouter_kind (val_object om_val itself)) (\<lambda>p. p) (IngressRouterList_DeepCopy lib) \<and>
    pointer_copies NetworkList_kind (wf_list lm_ok Network_kind (wf_object om_ok always)) (val_list lm_val Network_kind (val_object om_val itself)) (\<lambda>p. p) (NetworkList_DeepCopy lib) \<and>
    pointer_copies Device_kind (wf_object om_ok wf_DeviceSpec) (val_object om_val val_DeviceSpec) DeviceObject (Device_DeepCopyObject lib) \<and>
    pointer_copies IngressRouter_kind (wf_object om_ok always) (val_object om_val itself) IngressRouterObject (IngressRouter_DeepCopyObject lib) \<and>
    pointer_copies Network_kind (wf_object om_ok always) (val_object om_val itself) NetworkObject (Network_DeepCopyObject lib) \<and>
    pointer_copies DeviceList_kind (wf_list lm_ok Device_kind (wf_object om_ok wf_DeviceSpec)) (val_list lm_val Device_kind (val_object om_val val_DeviceSpec)) DeviceListObject (DeviceList_DeepCopyObject lib) \<and>
    pointer_copies IngressRouterList_kind (wf_list lm_ok IngressRouter_kind (wf_object om_ok always)) (val_list lm_val IngressRouter_kind (val_object om_val itself)) IngressRouterListObject (IngressRouterList_DeepCopyObject lib) \<and>
    pointer_copies NetworkList_kind (wf_list lm_ok Network_kind (wf_object om_ok always)) (val_list lm_val Network_kind (val_object om_val itself)) NetworkListObject (NetworkList_DeepCopyObject lib)"
  by (intro conjI DeepCopy_copies[OF assms] pointer_copies_object[OF DeepCopy_copies(8)[OF assms]]
    pointer_copies_object[OF DeepCopy_copies(9)[OF assms]] pointer_copies_object[OF DeepCopy_copies(10)[OF assms]]
    pointer_copies_object[OF DeepCopy_copies(11)[OF assms]] pointer_copies_object[OF DeepCopy_copies(12)[OF assms]]
    pointer_copies_object[OF DeepCopy_copies(13)[OF assms]])
    (simp_all add: Device_DeepCopyObject_def
      IngressRouter_DeepCopyObject_def
      Network_DeepCopyObject_def
      DeviceList_DeepCopyObject_def
      IngressRouterList_DeepCopyObject_def
      NetworkList_DeepCopyObject_def)

subsection \<open>An example\<close>

text \<open>A device with two host names, a time and a condition; metadata is a slice of strings here.\<close>

definition example_lib :: "(slice option, unit, unit) metav1_lib" where
  "example_lib = \<lparr>
     ObjectMeta_DeepCopyInto = copy_option copy_strings,
     ListMeta_DeepCopyInto = State_Monad.return,
     Condition_DeepCopyInto = State_Monad.return,
     Time_DeepCopy = copy_pointer time_kind 0 State_Monad.return,
     zero_ObjectMeta = None,
     zero_ListMeta = ()\<rparr>"

definition example_device :: "slice option mem_Device" where
  "example_device = (zero_Device example_lib)\<lparr>
     go_ObjectMeta := Some \<lparr>arr = 0, off = 0, len = 1\<rparr>,
     go_Spec := zero_DeviceSpec\<lparr>gs_Network := ''lan'',
       gs_AdditionalHostnames := Some \<lparr>arr = 0, off = 1, len = 2\<rparr>\<rparr>,
     go_Status := \<lparr>st_HomelabStatus = \<lparr>hs_ObservedGeneration = 3, hs_LastSyncTime = Some (1, 0),
       hs_Conditions = Some \<lparr>arr = 2, off = 0, len = 1\<rparr>\<rparr>\<rparr>\<rparr>"

definition example_heap :: "(slice option, unit, unit) cell heap" where
  "example_heap = \<lparr>limit = 4, cells = (\<lambda>_. Foreign ())(
     0 := Strings [''finalizer'', ''nas'', ''backup''],
     1 := Times [42],
     2 := ConditionArray [new_condition ConditionReady ConditionTrue ConditionReasonSynced []],
     3 := Devices [example_device])\<rparr>"

lemma example_documented:
  "documented_metav1 example_lib (wf_option (wf_slice string_kind always))
    (val_option (val_slice string_kind itself)) always itself"
  unfolding documented_metav1_def example_lib_def metav1_lib.simps
  by (intro conjI strings.copy_option copy_plain deep_copy.copy_pointer[OF copy_plain] kinds_ok)

lemma example_pointer:
  "wf_pointer Device_kind (wf_object (wf_option (wf_slice string_kind always)) wf_DeviceSpec) example_heap (3, 0)"
  by (simp add: wf_pointer_def wf_slice_def wf_object_def wf_DeviceSpec_def wf_Status_def wf_HomelabStatus_def
    array_at_def kind_defs example_heap_def example_device_def zero_DeviceSpec_def)

theorem DeepCopy_independent_witness:
  "\<exists>p' h'. run_state (Device_DeepCopyObject example_lib (Some (3, 0))) example_heap = (Some (DeviceObject p'), h') \<and>
    4 \<le> fst p' \<and>
    independent (val_pointer Device_kind (val_object (val_option (val_slice string_kind itself)) val_DeviceSpec))
      example_heap (3, 0) h' p'"
proof -
  obtain o' h' where run: "run_state (Device_DeepCopyObject example_lib (Some (3, 0))) example_heap = (o', h')"
    by fastforce
  have copies: "pointer_copies Device_kind (wf_object (wf_option (wf_slice string_kind always)) wf_DeviceSpec)
      (val_object (val_option (val_slice string_kind itself)) val_DeviceSpec) DeviceObject
      (Device_DeepCopyObject example_lib)"
    using DeepCopy_independent[OF example_documented] by (elim conjE)
  obtain p' where "o' = Some (DeviceObject p')" "limit example_heap \<le> fst p'"
    "independent (val_pointer Device_kind (val_object (val_option (val_slice string_kind itself)) val_DeviceSpec))
      example_heap (3, 0) h' p'"
    using copies run example_pointer unfolding pointer_copies_def by blast
  moreover have "limit example_heap = 4" by (simp add: example_heap_def)
  ultimately show ?thesis
    by (intro exI[of _ p'] exI[of _ h']) (simp add: run)
qed

end
