(* ===== verification/Bounds.thy ===== *)
theory Bounds
  imports Reconcilers
begin

text \<open>
  How many calls of the client a reconcile makes: a bound in the sizes of the lists it is given,
  whatever they hold and whichever calls fail. The answer to a list call pays for the calls its
  items can lead to, so that a program's cost is a number that adds up along its structure.
\<close>

subsection \<open>Cost and credit\<close>

text \<open>
  The calls of the client an event stands for, at most. \<open>controllerutil.CreateOrUpdate\<close>, which
  \<open>ensure.Apply\<close> and \<open>ensure.ApplyUnstructured\<close> call, reads the object and then creates or updates
  it, so the events of these two count as two calls; it makes only one if the read fails or the
  object needs no update. Every other event is one call of the source: \<open>Get\<close>, \<open>List\<close>, \<open>Delete\<close>
  or \<open>Status().Update\<close>.
\<close>

fun client_calls :: "event \<Rightarrow> nat" where
  "client_calls (Logged _ _) = 0"
| "client_calls (Applied _ _ _) = 2"
| "client_calls (AppliedConfigMap _ _) = 2"
| "client_calls _ = 1"

fun devices_in :: "event \<Rightarrow> nat" where
  "devices_in (ListedDevices _ (Inr ds)) = length ds"
| "devices_in _ = 0"

fun networks_in :: "event \<Rightarrow> nat" where
  "networks_in (ListedNetworks _ (Inr ns)) = length ns"
| "networks_in _ = 0"

fun routers_in :: "event \<Rightarrow> nat" where
  "routers_in (ListedIngressRouters (Inr rs)) = length rs"
| "routers_in _ = 0"

fun objects_in :: "event \<Rightarrow> nat" where
  "objects_in (ListedObjects _ _ _ (Inr us)) = length us"
| "objects_in _ = 0"

definition total :: "(event \<Rightarrow> nat) \<Rightarrow> event list \<Rightarrow> nat" where
  "total f es = sum_list (map f es)"

lemma total_simps [simp]:
  "total f [] = 0" "total f (e # es) = f e + total f es" "total f (es @ es') = total f es + total f es'"
  by (simp_all add: total_def)

lemma total_add:
  "total (\<lambda>e. f e + g e) es = total f es + total g es"
  "total (\<lambda>e. n * f e) es = n * total f es"
  by (induction es) (simp_all add: algebra_simps)

text \<open>\<open>costs c m n\<close>: beyond what the answers pay for, by \<open>c\<close>, a run of \<open>m\<close> makes at most \<open>n\<close> calls.\<close>

abbreviation costs :: "(event \<Rightarrow> nat) \<Rightarrow> ('w, 'a) prog \<Rightarrow> nat \<Rightarrow> bool" where
  "costs c m n \<equiv> traces m (\<lambda>_ es. total client_calls es \<le> n + total c es)"

lemma costs_more: "costs c m n \<Longrightarrow> n \<le> n' \<Longrightarrow> costs c m n'"
  by (erule traces_conseq) simp

lemma costs_return: "costs c (ret x) n"
  by (rule traces_return) simp

lemmas costs_done [simp] = costs_return[where n = 0, simplified]

lemma costs_bind:
  assumes "costs c m a" and "\<And>x. costs c (f x) b"
  shows "costs c (m \<bind> f) (a + b)"
  by (rule traces_bind, rule traces_conseq[OF assms(1)], rule traces_conseq[OF assms(2)]) simp

lemma costs_or_return:
  assumes "costs c m a" and "\<And>x. costs c (f x) b"
  shows "costs c (or_return m f) (a + b)"
  unfolding or_return_def by (rule costs_bind[OF assms(1)]) (intro traces_case_sum costs_return assms(2))

text \<open>A list call, whose answer pays for what follows.\<close>

lemma costs_or_return_list:
  fixes g :: "'w \<Rightarrow> (error + 'x) \<times> 'w"
  assumes "\<And>r. client_calls (ev r) = 1" and "\<And>x. costs c (f x) (n + c (ev (Inr x)))"
  shows "costs c (or_return (call g (\<lambda>r. [ev r])) f) (Suc n)"
proof (rule or_return_rule, rule traces_call, intro conjI allI impI)
  fix r :: "error + 'x" and x
  assume "r = Inr x"
  with assms(1)[of r] show "traces (f x) (\<lambda>_ es'. total client_calls ([ev r] @ es') \<le> Suc n + total c ([ev r] @ es'))"
    by (intro traces_conseq[OF assms(2)[of x]]) simp
qed (simp add: assms(1))

lemma costs_call: "(\<And>a. client_calls (ev a) \<le> n) \<Longrightarrow> costs c (call f (\<lambda>a. [ev a])) n"
  by (rule traces_call) (simp add: trans_le_add1)

lemma total_quiet: "list_all (\<lambda>e. client_calls e = 0) es \<Longrightarrow> total client_calls es = 0"
  by (induction es) simp_all

lemma costs_quiet: "calls_only (\<lambda>e. client_calls e = 0) m \<Longrightarrow> costs c m n"
  by (erule traces_conseq) (simp add: total_quiet)

lemma costs_gate: "costs c fn n \<Longrightarrow> costs c (gate_run key fn) n"
  by (rule gate_run_rule) simp

subsection \<open>The operations\<close>

lemma PlanUnstructured_costs: "costs c (PlanUnstructured k obj) 1"
  by (rule PlanUnstructured_rule) simp

lemma ApplyUnstructured_costs: "costs c (ApplyUnstructured k obj dryRun lbl owner) 2"
  by (rule ApplyUnstructured_rule) simp_all

lemma ensureAnchor_costs: "costs c (ensureAnchor k cfg ns name lbl) 2"
  unfolding ensureAnchor_def by (intro traces_Let traces_if costs_return Apply_rule) simp_all

lemma planAndApply_costs: "costs c (planAndApply k cfg obj lbl owner) (1 + (2 + 0))"
  unfolding planAndApply_def
  by (intro costs_bind PlanUnstructured_costs ApplyUnstructured_costs costs_return traces_case_prod
      traces_case_option traces_if)

lemma apply_each_costs:
  "(\<And>name spec. costs c (f name spec) b) \<Longrightarrow> costs c (apply_each f kvs plans) (length kvs * b)"
proof (induction f kvs plans rule: apply_each.induct)
  case (2 f name spec kvs plans)
  then show ?case
    by (simp only: apply_each.simps length_Cons mult_Suc)
      (intro costs_bind traces_case_prod traces_case_option costs_return "2.IH" "2.prems"; blast)
qed simp

lemma apply_map_costs:
  assumes "\<And>name spec. costs c (f name spec) b"
  shows "costs c (apply_map k f m plans) (length m * b)"
  unfolding apply_map_def
proof (rule traces_seq[OF traces_range])
  fix kvs es
  assume "mset kvs = mset (map (\<lambda>n. (n, the (map_of m n))) (map_keys m))"
  then have "length kvs = length m" by (metis length_map size_mset)
  moreover have "costs c (apply_each f kvs plans) (length kvs * b)"
    by (rule apply_each_costs[OF assms])
  ultimately show "traces (apply_each f kvs plans)
      (\<lambda>_ es'. total client_calls ([] @ es') \<le> length m * b + total c ([] @ es'))"
    by simp
qed

lemma prune_items_costs: "costs c (prune_items k cfg keep items) (length items)"
proof (induction items)
  case (Cons item items)
  have delete: "costs c (delete_object k item) 1"
    unfolding delete_object_def by (rule costs_call) simp
  have "costs c (do { err \<leftarrow> delete_object k item;
      case err of Some e \<Rightarrow> ret (Some e) | None \<Rightarrow> prune_items k cfg keep items }) (1 + length items)"
    by (intro costs_bind delete traces_case_option costs_return Cons.IH)
  then show ?case
    using costs_more[OF Cons.IH, of "1 + length items"] by simp
qed simp

lemma prune_kinds_costs:
  assumes "\<And>gvk r. objects_in (ListedObjects gvk (Some ns) (managed_selector aggregate) r) \<le>
    c (ListedObjects gvk (Some ns) (managed_selector aggregate) r)"
  shows "costs c (prune_kinds k cfg ns aggregate keep gvks) (length gvks)"
proof (induction gvks)
  case (Cons gvk gvks)
  let ?ev = "ListedObjects (list_gvk gvk) (Some ns) (managed_selector aggregate)"
  have body: "costs c (do { err \<leftarrow> prune_items k cfg keep items;
      case err of Some e \<Rightarrow> ret (Some e) | None \<Rightarrow> prune_kinds k cfg ns aggregate keep gvks })
    (length items + length gvks)" for items
    by (intro costs_bind prune_items_costs traces_case_option costs_return Cons.IH)
  have rest: "costs c (do { err \<leftarrow> prune_items k cfg keep items;
      case err of Some e \<Rightarrow> ret (Some e) | None \<Rightarrow> prune_kinds k cfg ns aggregate keep gvks })
    (length gvks + c (?ev (Inr items)))" for items
    by (rule costs_more[OF body]) (use assms[of "list_gvk gvk" "Inr items"] in simp)
  show ?case
    unfolding prune_kinds.simps list_objects_def
  proof (rule traces_seq[OF traces_call, where R = "\<lambda>r es. es = [?ev r]"])
    fix r es
    assume es: "es = [?ev r]"
    show "traces (case r of Inl e \<Rightarrow> ret (Some e) | Inr items \<Rightarrow> do {
          err \<leftarrow> prune_items k cfg keep items;
          case err of Some e \<Rightarrow> ret (Some e) | None \<Rightarrow> prune_kinds k cfg ns aggregate keep gvks })
        (\<lambda>_ es'. total client_calls (es @ es') \<le> length (gvk # gvks) + total c (es @ es'))"
    proof (cases r)
      case (Inr items)
      show ?thesis unfolding Inr sum.case by (rule traces_conseq[OF rest]) (simp add: es Inr)
    qed (simp add: es traces_return)
  qed simp
qed simp

lemma device_statuses_costs: "costs c (device_statuses k cfg names ok msg devs) (length devs)"
proof (induction devs)
  case (Cons dev devs)
  have quiet: "costs c (device_status k names ok msg dev) 0"
    by (rule costs_quiet) (rule device_status_only)
  have update: "costs c (if b then ret None else if DryRun cfg then ret None else update_device k d) 1" for b d
    unfolding update_device_def by (intro traces_if costs_return costs_call) simp
  have "costs c (device_statuses k cfg names ok msg (dev # devs)) (0 + (1 + length devs))"
    unfolding device_statuses.simps by (intro costs_bind quiet update Cons.IH)
  then show ?case by simp
qed simp

lemma network_statuses_costs: "costs c (updateNetworkStatuses k cfg nets ok msg) (length nets)"
proof (induction nets)
  case (Cons net nets)
  have quiet: "costs c (network_status k ok msg net) 0"
    by (rule costs_quiet) (rule network_status_only)
  have update: "costs c (if b then ret None else if DryRun cfg then ret None else update_network k n) 1" for b n
    unfolding update_network_def by (intro traces_if costs_return costs_call) simp
  have "costs c (updateNetworkStatuses k cfg (net # nets) ok msg) (0 + (1 + length nets))"
    unfolding updateNetworkStatuses.simps by (intro costs_bind quiet update Cons.IH)
  then show ?case by simp
qed simp

lemma router_statuses_costs: "costs c (updateRouterStatuses k cfg routers ok msg) (length routers)"
proof (induction routers)
  case (Cons ir routers)
  have quiet: "costs c (router_status k ok msg ir) 0"
    by (rule costs_quiet) (rule router_status_only)
  have update: "costs c (if b then ret None else if DryRun cfg then ret None else update_router k r) 1" for b r
    unfolding update_router_def by (intro traces_if costs_return costs_call) simp
  have "costs c (updateRouterStatuses k cfg (ir # routers) ok msg) (0 + (1 + length routers))"
    unfolding updateRouterStatuses.simps by (intro costs_bind quiet update Cons.IH)
  then show ?case by simp
qed simp

lemma summary_costs: "costs c (logReconcileSummary values dryRun aggregate plans) 0"
  by (rule costs_quiet) (rule logReconcileSummary_only, simp)

lemma plan_then_apply_costs:
  assumes "\<And>plan. costs c (rest plan) n"
  shows "costs c (plan_then_apply k cfg obj lbl anchor rest) (1 + (2 + n))"
proof -
  have "costs c (if b then or_return (ApplyUnstructured k obj False lbl (Some anchor)) (\<lambda>_. rest plan)
      else rest plan) (2 + n)" for b plan
    by (intro traces_if costs_or_return ApplyUnstructured_costs assms costs_more[OF assms]) simp
  then show ?thesis
    unfolding plan_then_apply_def
    by (intro costs_bind PlanUnstructured_costs traces_case_prod traces_case_option costs_return) simp
qed

subsection \<open>The size of the output\<close>

lemma length_keys_le: "wf_map m \<Longrightarrow> set (map_keys m) \<subseteq> f ` set xs \<Longrightarrow> length m \<le> length xs"
  by (metis List.finite_set card_image_le card_length card_mono distinct_card finite_imageI le_trans
      length_map wf_map_def)

lemma has_network_key:
  "has_network (networks_by_name networks) d \<Longrightarrow>
    DeviceBasedNetworkName (ds_Network (d_Spec d)) \<in> (\<lambda>n. DeviceBasedNetworkName (Name n)) ` set networks"
  by (auto simp: has_network_by_name)

lemma output_sizes:
  "length (out_DnsHosts (device_output devices networks cfg)) \<le> length networks"
  "length (out_DhcpHosts (device_output devices networks cfg)) \<le> length networks"
  "length (out_FreeRadius (device_output devices networks cfg)) \<le> length devices"
proof -
  let ?sorted = "slices_SortFunc networks compareNetworkName"
  let ?nets = "networks_by_name ?sorted" and ?ds = "slices_SortFunc devices compareDeviceName"
  let ?name = "\<lambda>n. DeviceBasedNetworkName (Name n)"
  have "length (fold (dns_step cfg ?nets) ?ds []) \<le> length ?sorted"
    by (rule length_keys_le[OF dns_groups.wf_fold_step, where f = ?name])
      (use has_network_key in \<open>auto simp only: dns_groups.keys_fold_step\<close>)
  then show "length (out_DnsHosts (device_output devices networks cfg)) \<le> length networks"
    by (simp add: device_output_fields normalize_all_def)
  have "length (fold (dhcp_step ?nets) ?ds []) \<le> length ?sorted"
    by (rule length_keys_le[OF dhcp_groups.wf_fold_step, where f = ?name])
      (use has_network_key in \<open>auto simp only: dhcp_groups.keys_fold_step\<close>)
  then show "length (out_DhcpHosts (device_output devices networks cfg)) \<le> length networks"
    by (simp add: device_output_fields)
  show "length (out_FreeRadius (device_output devices networks cfg)) \<le> length devices"
    unfolding device_output_fields
    by (rule length_keys_le[where f = Name]) (unfold fold_map_set_keys, auto simp: fold_map_set_wf)
qed

subsection \<open>The device reconciler\<close>

text \<open>Each device pays for a FreeRADIUS object and its status, each network for two objects and its status.\<close>

definition device_credit :: "event \<Rightarrow> nat" where
  "device_credit e = 4 * devices_in e + (7 * networks_in e + objects_in e)"

lemma device_credit_simps [simp]:
  "device_credit (ListedDevices ns (Inr ds)) = 4 * length ds"
  "device_credit (ListedNetworks ns (Inr nets)) = 7 * length nets"
  by (simp_all add: device_credit_def)

lemma prune_outputs_costs: "costs device_credit (prune_outputs k cfg out names) (2 + (1 + 0))"
proof -
  have prune: "costs device_credit (prune_kinds k cfg ns aggregate keep gvks) (length gvks)" for ns aggregate keep gvks
    by (rule prune_kinds_costs) (simp add: device_credit_def)
  have two: "costs device_credit (pruneManaged k cfg ns aggregate keep []) 2" for ns aggregate keep
    unfolding pruneManaged_def Let_def by (rule costs_more[OF prune]) simp
  have one: "costs device_credit (pruneManaged k cfg ns aggregate keep [gvk]) 1" for ns aggregate keep gvk
    unfolding pruneManaged_def Let_def by (rule costs_more[OF prune]) simp
  show ?thesis
    unfolding prune_outputs_def Let_def
    by (intro traces_if traces_case_option costs_return costs_bind[OF two] costs_bind[OF one])
qed

lemma apply_free_radius_costs:
  "costs c (apply_free_radius k cfg out anchor plans) (2 + length (out_FreeRadius out) * (1 + (2 + 0)))"
proof -
  have owner: "costs c (free_radius_owner k cfg anchor) 2"
    unfolding free_radius_owner_def by (intro traces_if costs_return ensureAnchor_costs)
  show ?thesis
    unfolding apply_free_radius_def applyFreeRadius_def
    by (intro traces_if costs_return costs_bind[OF owner] traces_case_sum apply_map_costs planAndApply_costs)
qed

lemma report_costs:
  "costs c (do {
     updateDeviceStatuses k cfg devices networks True [];
     updateNetworkStatuses k cfg networks True [];
     logReconcileSummary logger dryRun aggregate plans;
     ret r }) (length devices + (length networks + (0 + 0)))"
  unfolding updateDeviceStatuses_def
  by (intro costs_bind device_statuses_costs network_statuses_costs summary_costs costs_return)

lemma reconcile_output_costs:
  assumes "length (out_DhcpHosts out) \<le> length networks" "length (out_DnsHosts out) \<le> length networks"
    and "length (out_FreeRadius out) \<le> length devices"
  shows "costs device_credit (reconcile_output k cfg logger out devices networks anchor)
    (8 + 4 * length devices + 7 * length networks)"
proof -
  let ?D = "length devices" and ?N = "length networks"
  let ?n = "length (out_DhcpHosts out) * (1 + (2 + 0)) + (length (out_DnsHosts out) * (1 + (2 + 0)) +
    ((2 + length (out_FreeRadius out) * (1 + (2 + 0))) + ((2 + (1 + 0)) + (?D + (?N + (0 + 0))))))"
  have failed: "costs device_credit (do {
      log_info logger (LogError what e);
      updateDeviceStatuses k cfg devices networks False msg;
      ret r }) ?n" for what e msg r
  proof -
    have "costs device_credit (do {
        log_info logger (LogError what e);
        updateDeviceStatuses k cfg devices networks False msg;
        ret r }) (0 + (?D + 0))"
      unfolding updateDeviceStatuses_def
      by (intro costs_bind device_statuses_costs costs_return traces_log) simp
    then show ?thesis by (rule costs_more) simp
  qed
  have "costs device_credit (reconcile_output k cfg logger out devices networks anchor) ((1 + (2 + 0)) + ?n)"
    unfolding reconcile_output_def applyDhcpOptions_def applyDhcpHosts_def applyDnsHosts_def Let_def
    by (intro costs_bind[OF planAndApply_costs] traces_case_prod traces_case_option failed costs_or_return
        apply_map_costs planAndApply_costs apply_free_radius_costs prune_outputs_costs report_costs)
  then show ?thesis by (rule costs_more) (use assms in simp)
qed

lemma reconcileNamespace_costs: "costs device_credit (reconcileNamespace k cfg req) 12"
proof -
  have anchored: "costs device_credit (or_return (ensureAnchor k cfg ns name lbl)
      (\<lambda>anchor. reconcile_output k cfg logger out devices networks anchor))
    (10 + 4 * length devices + 7 * length networks)"
    if "length (out_DhcpHosts out) \<le> length networks" "length (out_DnsHosts out) \<le> length networks"
      "length (out_FreeRadius out) \<le> length devices" for ns name lbl logger out devices networks
    by (rule costs_more[OF costs_or_return[OF ensureAnchor_costs reconcile_output_costs[OF that]]]) simp
  have built: "costs device_credit (case BuildDeviceBased devices networks cfg of (out, devices, networks) \<Rightarrow>
      or_return (ensureAnchor k cfg ns name lbl)
        (\<lambda>anchor. reconcile_output k cfg logger out devices networks anchor))
    (10 + 4 * length devices + 7 * length networks)" for ns name lbl logger devices networks
  proof -
    obtain out ds nets where b: "BuildDeviceBased devices networks cfg = (out, ds, nets)"
      by (metis prod_cases3)
    then have sizes: "out = device_output devices networks cfg" "length ds = length devices"
      "length nets = length networks"
      by (auto simp: BuildDeviceBased_def Let_def)
    have "costs device_credit (or_return (ensureAnchor k cfg ns name lbl)
        (\<lambda>anchor. reconcile_output k cfg logger out ds nets anchor)) (10 + 4 * length ds + 7 * length nets)"
      by (rule anchored) (unfold sizes, (rule output_sizes)+)
    then show ?thesis by (simp only: b prod.case sizes(2,3))
  qed
  have nets: "costs device_credit (or_return (list_networks k ns) (\<lambda>networks.
      case BuildDeviceBased devices networks cfg of (out, devices, networks) \<Rightarrow>
        or_return (ensureAnchor k cfg target name lbl)
          (\<lambda>anchor. reconcile_output k cfg logger out devices networks anchor)))
    (Suc (10 + 4 * length devices))" for ns target name lbl logger devices
    unfolding list_networks_def
    by (rule costs_or_return_list, simp, rule costs_more[OF built], simp)
  have devs: "costs device_credit (or_return (list_devices k ns) (\<lambda>devices. or_return (list_networks k ns) (\<lambda>networks.
      case BuildDeviceBased devices networks cfg of (out, devices, networks) \<Rightarrow>
        or_return (ensureAnchor k cfg target name lbl)
          (\<lambda>anchor. reconcile_output k cfg logger out devices networks anchor))))
    (Suc 11)" for ns target name lbl logger
    unfolding list_devices_def
    by (rule costs_or_return_list, simp, rule costs_more[OF nets], simp)
  have "costs device_credit (trigger_consume (req_Namespace req)) 0"
    by (rule costs_quiet) (rule trigger_consume_only)
  from costs_bind[OF this devs] have "costs device_credit (reconcileNamespace k cfg req) (0 + Suc 11)"
    unfolding reconcileNamespace_def Let_def .
  then show ?thesis by simp
qed

subsection \<open>The other two\<close>

lemma reconcileIngress_costs: "costs routers_in (reconcileIngress k cfg ns) 8"
proof -
  have rest: "costs routers_in (case BuildIngressBased routers ingresses routes of (spec, routers) \<Rightarrow>
      plan_then_apply k cfg (obj spec) lbl anchor (\<lambda>plan. do {
        updateRouterStatuses k cfg routers True [];
        logReconcileSummary [] dryRun aggregate [plan];
        ret r })) (1 + (2 + length routers))" for routers ingresses routes obj lbl anchor dryRun aggregate r
  proof -
    obtain spec rs where b: "BuildIngressBased routers ingresses routes = (spec, rs)" by fastforce
    then have size: "length rs = length routers" by (auto simp: BuildIngressBased_def Let_def)
    have "costs routers_in (do {
        updateRouterStatuses k cfg rs True [];
        logReconcileSummary [] dryRun aggregate [plan];
        ret r }) (length rs + (0 + 0))" for plan
      by (intro costs_bind router_statuses_costs summary_costs costs_return)
    then have "costs routers_in (plan_then_apply k cfg (obj spec) lbl anchor (\<lambda>plan. do {
        updateRouterStatuses k cfg rs True [];
        logReconcileSummary [] dryRun aggregate [plan];
        ret r })) (1 + (2 + (length rs + (0 + 0))))"
      by (rule plan_then_apply_costs)
    then show ?thesis by (simp only: b prod.case size add_0_right)
  qed
  have routes: "costs routers_in (if b then listHTTPRoutes k else ret (Inr [])) (1 + 0)" for b
    unfolding listHTTPRoutes_def list_objects_def
    by (intro traces_if costs_return costs_bind costs_call) simp
  have ingresses: "costs routers_in (list_ingresses k) 1"
    unfolding list_ingresses_def by (rule costs_call) simp
  have inner: "costs routers_in (or_return (list_ingresses k) (\<lambda>ingresses.
      or_return (if b then listHTTPRoutes k else ret (Inr [])) (\<lambda>routes.
        case BuildIngressBased routers ingresses routes of (spec, routers) \<Rightarrow>
          plan_then_apply k cfg (obj spec) lbl anchor (\<lambda>plan. do {
            updateRouterStatuses k cfg routers True [];
            logReconcileSummary [] dryRun aggregate [plan];
            ret r })))) (1 + ((1 + 0) + (1 + (2 + length routers))))"
    for routers obj lbl anchor dryRun aggregate r b
    by (intro costs_or_return ingresses routes rest)
  have outer: "costs routers_in (or_return (list_routers k) (\<lambda>routers. or_return (list_ingresses k) (\<lambda>ingresses.
      or_return (if b then listHTTPRoutes k else ret (Inr [])) (\<lambda>routes.
        case BuildIngressBased routers ingresses routes of (spec, routers) \<Rightarrow>
          plan_then_apply k cfg (obj spec) lbl anchor (\<lambda>plan. do {
            updateRouterStatuses k cfg routers True [];
            logReconcileSummary [] dryRun aggregate [plan];
            ret r }))))) (Suc 5)"
    for obj lbl anchor dryRun aggregate r b
    unfolding list_routers_def
    by (rule costs_or_return_list, simp, rule costs_more[OF inner], simp)
  show ?thesis
    unfolding reconcileIngress_def ensureIngressAnchor_def Let_def
    by (rule costs_more[OF costs_or_return[OF ensureAnchor_costs outer]]) simp
qed

lemma reconcileLoadBalancer_costs: "costs (\<lambda>_. 0) (reconcileLoadBalancer k cfg ns) 6"
proof -
  have services: "costs (\<lambda>_. 0) (list_services k) 1"
    unfolding list_services_def by (rule costs_call) simp
  have report: "costs (\<lambda>_. 0) (do { logReconcileSummary [] d a [plan]; ret r }) (0 + 0)" for d a plan r
    by (intro costs_bind summary_costs costs_return)
  show ?thesis
    unfolding reconcileLoadBalancer_def Let_def
    by (rule costs_more[OF costs_or_return[OF ensureAnchor_costs
          costs_or_return[OF services plan_then_apply_costs[OF report]]]]) simp
qed

text \<open>
  (C23) The calls of a reconcile are bounded by what it lists, whatever the cluster answers, with
  an apply counted as the read and the write that \<open>controllerutil.CreateOrUpdate\<close> makes: a device
  reconcile makes at most twelve calls of the client, and four for each device, seven for each
  network and one for each managed object listed to it; an ingress reconcile at most eight and
  one for each router; a load balancer reconcile at most six.
\<close>

theorem reconcile_calls_bounded:
  "traces (DeviceReconciler_Reconcile k cfg req) (\<lambda>_ es. total client_calls es \<le>
      12 + 4 * total devices_in es + 7 * total networks_in es + total objects_in es) \<and>
    traces (IngressDNSReconciler_Reconcile k cfg req)
      (\<lambda>_ es. total client_calls es \<le> 8 + total routers_in es) \<and>
    traces (LoadBalancerDNSReconciler_Reconcile k cfg req) (\<lambda>_ es. total client_calls es \<le> 6)"
proof (intro conjI)
  have "costs device_credit (DeviceReconciler_Reconcile k cfg req) 12"
    unfolding DeviceReconciler_Reconcile_def
    by (intro traces_if costs_return costs_gate reconcileNamespace_costs)
  then show "traces (DeviceReconciler_Reconcile k cfg req) (\<lambda>_ es. total client_calls es \<le>
      12 + 4 * total devices_in es + 7 * total networks_in es + total objects_in es)"
    by (rule traces_conseq) (simp add: device_credit_def[abs_def] total_add)
  show "traces (IngressDNSReconciler_Reconcile k cfg req)
      (\<lambda>_ es. total client_calls es \<le> 8 + total routers_in es)"
    unfolding IngressDNSReconciler_Reconcile_def Let_def
    by (intro traces_if costs_return costs_gate reconcileIngress_costs)
  have "costs (\<lambda>_. 0) (LoadBalancerDNSReconciler_Reconcile k cfg req) 6"
    unfolding LoadBalancerDNSReconciler_Reconcile_def Let_def
    by (intro traces_if costs_return costs_gate reconcileLoadBalancer_costs)
  then show "traces (LoadBalancerDNSReconciler_Reconcile k cfg req) (\<lambda>_ es. total client_calls es \<le> 6)"
    by (rule traces_conseq) (simp add: total_def)
qed

end
