(* ===== verification/GateDrain.thy ===== *)
theory GateDrain
  imports Gate
begin

text \<open>
  Calls of \<open>run\<close> come to an end: once no new ones are made, the goroutines inside a call take at
  most five steps each, in any interleaving, and when none can step every call has returned and
  the gate is free.
\<close>

definition inside :: "pc \<Rightarrow> bool" where
  "inside c \<longleftrightarrow> c \<noteq> Idle \<and> c \<noteq> Refused"

text \<open>A step of a goroutine inside a call; the reconcile itself is the step \<open>Return\<close>.\<close>

definition drain_step :: "gate_state \<Rightarrow> gate_state \<Rightarrow> bool" where
  "drain_step s s' \<longleftrightarrow> gate_step s s' \<and> (\<exists>t. inside (g_pc s t) \<and> g_pc s' t \<noteq> g_pc s t)"

fun steps_left :: "pc \<Rightarrow> nat" where
  "steps_left (Locking key) = 5"
| "steps_left (Checking key) = 4"
| "steps_left (Running key) = 3"
| "steps_left (Unlocking key) = 2"
| "steps_left (Deleting key) = 1"
| "steps_left _ = 0"

lemma steps_left_pos: "0 < steps_left c \<longleftrightarrow> inside c"
  by (cases c) (simp_all add: inside_def)

lemma steps_left_le: "steps_left c \<le> 5"
  by (cases c) simp_all

definition callers :: "gate_state \<Rightarrow> nat set" where
  "callers s = {t. inside (g_pc s t)}"

definition work :: "gate_state \<Rightarrow> nat" where
  "work s = (\<Sum>t \<in> callers s. steps_left (g_pc s t))"

lemma work_le: "finite (callers s) \<Longrightarrow> work s \<le> 5 * card (callers s)"
  using sum_bounded_above[of "callers s" "\<lambda>t. steps_left (g_pc s t)" 5]
  by (simp add: work_def steps_left_le mult.commute)

lemma drain_step_moves:
  assumes "drain_step s s'"
  shows "\<exists>t c. inside (g_pc s t) \<and> g_pc s' = (g_pc s)(t := c) \<and> steps_left c < steps_left (g_pc s t)"
proof -
  obtain u where step: "gate_step s s'" and u: "inside (g_pc s u)" "g_pc s' u \<noteq> g_pc s u"
    using assms by (auto simp: drain_step_def)
  from step show ?thesis
  proof (cases rule: gate_step.cases)
    case (Call t key)
    with u show ?thesis by (auto simp: inside_def split: if_splits)
  qed (auto simp: inside_def intro!: exI)
qed

lemma drain_step_work:
  assumes "finite (callers s)" and "drain_step s s'"
  shows "finite (callers s') \<and> work s' < work s"
proof -
  obtain t c where t: "inside (g_pc s t)" and s': "g_pc s' = (g_pc s)(t := c)"
    and less: "steps_left c < steps_left (g_pc s t)"
    using drain_step_moves[OF assms(2)] by blast
  have sub: "callers s' \<subseteq> callers s" using t by (auto simp: callers_def s' split: if_splits)
  have "work s' = (\<Sum>u \<in> callers s. steps_left (g_pc s' u))"
    unfolding work_def using assms(1) sub steps_left_pos
    by (intro sum.mono_neutral_left) (auto simp: callers_def)
  also have "\<dots> < work s"
    unfolding work_def using assms(1) t less
    by (intro sum_strict_mono_ex1) (auto simp: s' callers_def)
  finally show ?thesis using finite_subset[OF sub assms(1)] by simp
qed

lemma callers_finite: "gate_reachable s \<Longrightarrow> finite (callers s)"
proof (induction rule: rtranclp_induct)
  case base
  then show ?case by (simp add: callers_def gate_init_def inside_def)
next
  case (step s s')
  have "\<exists>t. callers s' \<subseteq> insert t (callers s)"
    using step.hyps(2) by (cases rule: gate_step.cases) (auto simp: callers_def)
  with step.IH show ?case by (meson finite_insert finite_subset)
qed

lemma drain_steps_work:
  assumes "finite (callers s)" and "(drain_step ^^ n) s s'"
  shows "n + work s' \<le> work s"
  using assms(2)
proof (induction n arbitrary: s')
  case (Suc n)
  then obtain s1 where s1: "(drain_step ^^ n) s s1" "drain_step s1 s'" by auto
  have "finite (callers s1)"
    using s1(1) assms(1)
  proof (induction n arbitrary: s1)
    case (Suc m)
    then show ?case using drain_step_work by (auto elim!: relpowp_Suc_E)
  qed simp
  from Suc.IH[OF s1(1)] drain_step_work[OF this s1(2)] show ?case by linarith
qed simp

lemma drain_step_gate: "drain_step\<^sup>*\<^sup>* s s' \<Longrightarrow> gate_step\<^sup>*\<^sup>* s s'"
  by (rule rtranclp_mono[THEN predicate2D]) (auto simp: drain_step_def)

text \<open>When no goroutine inside a call can step, none is inside a call: the gate is free.\<close>

lemma drained:
  assumes "gate_reachable s" and "\<nexists>s'. drain_step s s'"
  shows "callers s = {}" and "g_mu s = None" and "gate_enter key (g_keys s) \<noteq> None"
proof -
  have inv: "gate_inv s" by (rule gate_inv_reachable[OF assms(1)])
  have out: "\<not> inside (g_pc s t)" for t
    using gate_progress[OF inv, of t] assms(2) unfolding drain_step_def inside_def by blast
  then show "callers s = {}" by (simp add: callers_def)
  have "\<not> holds_mu (g_pc s t)" and none: "holds_key (g_pc s t) = None" for t
    using out[of t] by (cases "g_pc s t"; simp add: inside_def)+
  then show "g_mu s = None"
    using inv unfolding gate_inv_def by (cases "g_mu s") auto
  have "gate.sound (\<lambda>t. holds_key (g_pc s t)) (g_keys s)"
    using inv by (simp add: gate_inv_def)
  from gate.sound_held[OF this, of key] none show "gate_enter key (g_keys s) \<noteq> None"
    by (simp add: gate.enter_None)
qed

text \<open>
  (C20) Calls of \<open>run\<close> end, if the reconciles inside them do and no new calls are made: from any
  reachable state the goroutines inside a call are finitely many, every interleaving of their
  steps has at most five for each of them, and when no step is left no goroutine is inside a call,
  the mutex is free and no key is busy.
\<close>

theorem gate_drains:
  assumes "gate_reachable s"
  shows "finite (callers s) \<and>
    (\<forall>n s'. (drain_step ^^ n) s s' \<longrightarrow> n \<le> 5 * card (callers s)) \<and>
    (\<forall>s'. drain_step\<^sup>*\<^sup>* s s' \<and> (\<nexists>s''. drain_step s' s'') \<longrightarrow>
      callers s' = {} \<and> g_mu s' = None \<and> (\<forall>key. gate_enter key (g_keys s') \<noteq> None))"
proof (intro conjI allI impI)
  show fin: "finite (callers s)" by (rule callers_finite[OF assms])
  show "n \<le> 5 * card (callers s)" if "(drain_step ^^ n) s s'" for n s'
    using drain_steps_work[OF fin that] work_le[OF fin] by linarith
  fix s' assume s': "drain_step\<^sup>*\<^sup>* s s' \<and> (\<nexists>s''. drain_step s' s'')"
  then have "gate_reachable s'" using assms drain_step_gate by (meson rtranclp_trans)
  from drained[OF this] s' show "callers s' = {}" "g_mu s' = None" "\<And>key. gate_enter key (g_keys s') \<noteq> None"
    by blast+
qed

end
