(* ===== verification/Witnesses.thy ===== *)
theory Witnesses
  imports Demo Startup Scheme Parse DeepCopy Bounds GateDrain
begin

text \<open>
  Every property with hypotheses, applied where they hold: on small lists for the desired
  state, on the gate's first steps, and on the example run of theory \<open>Demo\<close> for the reconcilers.
\<close>

subsection \<open>Desired state\<close>

definition two_devices :: "Device list" where
  "two_devices = [demo_device ''nas'' ''lan'' ''10.0.0.5'', demo_device ''tv'' ''iot'' ''10.1.0.9'']"

definition two_networks :: "Network list" where
  "two_networks = [demo_network ''lan'' ''10.0.0.1'', demo_network ''iot'' []]"

lemmas two_defs = two_devices_def two_networks_def demo_device_def demo_network_def demo_spec_def

lemma two_distinct: "distinct (map Name two_devices)" "distinct (map Name two_networks)"
  by (simp_all add: two_defs)

theorem BuildDeviceBased_FreeRadius_witness:
  "map_of (out_FreeRadius (device_output two_devices two_networks demo_cfg)) ''nas'' =
    Some (freeRadiusDeviceSpec [''02:00:00:00:00:01''] 10)"
  using BuildDeviceBased_FreeRadius[OF two_distinct, of "demo_device ''nas'' ''lan'' ''10.0.0.5''" demo_cfg]
  by (simp add: two_defs demo_cfg_def)

theorem BuildDeviceBased_order_independent_witness:
  "BuildDeviceBased (rev two_devices) (rev two_networks) demo_cfg =
    BuildDeviceBased two_devices two_networks demo_cfg"
  by (rule BuildDeviceBased_order_independent[OF two_distinct]) simp_all

theorem BuildDeviceBased_router_option_witness:
  "filter (\<lambda>opt. opt_Key opt = ''option:router'' \<and> opt_Tags opt = [''lan''])
      (opts_Options (out_DhcpOptions (device_output two_devices two_networks demo_cfg))) =
    [\<lparr>opt_Key = ''option:router'', opt_Values = [''10.0.0.1''], opt_Tags = [''lan'']\<rparr>]"
  using BuildDeviceBased_router_option[OF two_distinct(2), of "demo_network ''lan'' ''10.0.0.1''" two_devices demo_cfg]
  by (simp add: two_defs)

definition demo_router :: "string \<Rightarrow> string \<Rightarrow> IngressRouter" where
  "demo_router name ip =
    \<lparr>Name = name, Namespace = ''home'', UID = [], Labels = [], Annotations = [], Generation = 1,
     ir_Spec = \<lparr>irs_IngressClass = ''nginx'', irs_IPAddress = ip\<rparr>, ir_Status = demo_status\<rparr>"

definition two_routers :: "IngressRouter list" where
  "two_routers = [demo_router ''front'' ''10.0.0.81'', demo_router ''edge'' ''10.0.0.80'']"

lemma two_routers_distinct: "distinct (map Name two_routers)"
  by (simp add: two_routers_def demo_router_def)

theorem class_router_iff_witness:
  "class_router two_routers ''nginx'' = Some (demo_router ''front'' ''10.0.0.81'')"
  unfolding class_router_iff[OF two_routers_distinct]
  by (simp add: two_routers_def demo_router_def)

definition demo_ingress :: Ingress where
  "demo_ingress =
    \<lparr>Name = ''wiki'', Namespace = ''home'', UID = [], Labels = [], Annotations = [], Generation = 1,
     IngressClassName = Some ''nginx'', Rules = [\<lparr>Host = ''wiki.home''\<rparr>]\<rparr>"

theorem BuildIngressBased_entries_witness:
  "\<lparr>dns_IP = ''10.0.0.80'', dns_Hostnames = [''wiki.home'']\<rparr> \<in>
    set (dns_Hosts (fst (BuildIngressBased [demo_router ''edge'' ''10.0.0.80''] [demo_ingress] [])))"
  unfolding BuildIngressBased_entries[of "[demo_router ''edge'' ''10.0.0.80'']", simplified]
  by (intro exI[of _ "demo_router ''edge'' ''10.0.0.80''"], code_simp)

subsection \<open>Applying\<close>

definition demo_wanted :: Unstructured where
  "demo_wanted = NewDnsHosts memory_kube ''device-based-lan'' ''dns''
    \<lparr>dns_Controller = [], dns_Hosts = [\<lparr>dns_IP = ''10.0.0.5'', dns_Hostnames = [''nas'']\<rparr>]\<rparr>"

definition demo_wanted_spec :: jobj where
  "demo_wanted_spec = json_DnsHostsSpec
    \<lparr>dns_Controller = [], dns_Hosts = [\<lparr>dns_IP = ''10.0.0.5'', dns_Hostnames = [''nas'']\<rparr>]\<rparr>"

lemma demo_wanted_has_spec: "map_of (Object demo_wanted) ''spec'' = Some (JObject demo_wanted_spec)"
  unfolding demo_wanted_def demo_wanted_spec_def NewDnsHosts_def
  by (rule newObject_spec[OF memory_SetNestedMap])

lemma demo_mutate:
  "apply_mutate memory_kube demo_wanted (Managed ''device-based'' ''lan'') None demo_stale =
    Inr (with_wanted demo_wanted_spec (Managed ''device-based'' ''lan'') demo_stale)"
  by (simp add: apply_mutate_eq[OF memory_NestedMap demo_wanted_has_spec])

theorem apply_mutate_result_witness:
  "let new = with_wanted demo_wanted_spec (Managed ''device-based'' ''lan'') demo_stale in
   map_of (Object new) = (map_of (Object demo_stale))(''spec'' \<mapsto> JObject demo_wanted_spec) \<and>
   map_of (Labels new) = map_of (Labels demo_stale) ++ map_of (Managed ''device-based'' ''lan'')"
  using apply_mutate_result[OF memory_NestedMap memory_SetOwnerReference demo_wanted_has_spec
      wf_map_Managed demo_mutate]
  unfolding Let_def by blast

definition demo_applied :: "memory st" where
  "demo_applied = snd (run_state (ApplyUnstructured memory_kube demo_wanted False [] None) demo_state)"

lemma demo_apply_run:
  "run_state (ApplyUnstructured memory_kube demo_wanted False [] None) demo_state = (Inr ''updated'', demo_applied)"
proof -
  have "fst (run_state (ApplyUnstructured memory_kube demo_wanted False [] None) demo_state) = Inr ''updated''"
    by code_simp
  then show ?thesis unfolding demo_applied_def by (metis prod.collapse)
qed

lemma demo_replan: "snd (fst (run_state (PlanUnstructured memory_kube demo_wanted) demo_applied)) = None"
  by code_simp

theorem applied_objects_selected_witness:
  "let lbl = Labels (with_wanted demo_wanted_spec (Managed ''device-based'' ''lan'') demo_stale) in
   list_all (\<lambda>(key, v). map_of lbl key = Some v) (managed_selector ''device-based'') \<and>
   map_of lbl NetworkKey = Some ''lan''"
  using applied_objects_selected[OF memory_NestedMap memory_SetOwnerReference demo_wanted_has_spec,
      where aggregate = "''device-based''" and net = "''lan''" and owner = None and current = demo_stale]
  by (simp add: demo_mutate networkFromResourceName_inverse Let_def)

theorem plan_after_apply_witness:
  "p_Action (fst (fst (run_state (PlanUnstructured memory_kube demo_wanted) demo_applied))) = ''unchanged''"
proof -
  have "run_state (PlanUnstructured memory_kube demo_wanted) demo_applied =
      ((fst (fst (run_state (PlanUnstructured memory_kube demo_wanted) demo_applied)), None),
       snd (run_state (PlanUnstructured memory_kube demo_wanted) demo_applied))"
    unfolding demo_replan[symmetric] by simp
  from plan_after_apply[OF memory_NestedMap memory_SetOwnerReference memory_DeepEqual memory_store
      demo_wanted_has_spec demo_apply_run this] show ?thesis .
qed

subsection \<open>The gate\<close>

text \<open>One goroutine inside the reconcile of \<open>home\<close>, another one waiting for the mutex.\<close>

definition one_inside :: gate_state where
  "one_inside = at 1 (Locking ''home'')
    (at 0 (Running ''home'') ((at 0 (Checking ''home'') ((at 0 (Locking ''home'') gate_init)\<lparr>g_mu := Some 0\<rparr>))
      \<lparr>g_mu := None, g_keys := [(''home'', ())]\<rparr>))"

lemma one_inside_reachable: "gate_reachable one_inside"
proof -
  let ?a = "at 0 (Locking ''home'') gate_init"
  let ?b = "at 0 (Checking ''home'') (?a\<lparr>g_mu := Some 0\<rparr>)"
  let ?c = "at 0 (Running ''home'') (?b\<lparr>g_mu := None, g_keys := [(''home'', ())]\<rparr>)"
  have "gate_step gate_init ?a" by (rule Call) (simp add: gate_init_def)
  moreover have "gate_step ?a ?b" by (rule Lock) (simp_all add: gate_init_def)
  moreover have "gate_step ?b ?c"
    by (rule Enter[where key = "''home''"]) (simp_all add: gate_enter_def gate_held_def gate_init_def at_def)
  moreover have "gate_step ?c one_inside"
    unfolding one_inside_def by (rule Call) (simp add: gate_init_def)
  ultimately show ?thesis by (meson rtranclp.rtrancl_into_rtrancl rtranclp.rtrancl_refl)
qed

theorem gate_mutual_exclusion_witness:
  "gate_enter ''home'' (g_keys one_inside) = None"
  using gate_mutual_exclusion[OF one_inside_reachable, of 0 "''home''" 0]
  by (auto simp: one_inside_def)

theorem gate_no_deadlock_witness: "\<exists>u s'. gate_step one_inside s' \<and> g_pc s' u \<noteq> g_pc one_inside u"
proof -
  have "g_pc one_inside 0 \<noteq> Idle" "g_pc one_inside 0 \<noteq> Refused"
    by (simp_all add: one_inside_def)
  from gate_no_deadlock[OF one_inside_reachable this] show ?thesis by blast
qed

theorem gate_drains_witness: "\<nexists>s'. (drain_step ^^ 11) one_inside s'"
proof -
  have "callers one_inside = {0, 1}"
    by (auto simp: callers_def inside_def one_inside_def gate_init_def)
  moreover have "\<forall>s'. (drain_step ^^ 11) one_inside s' \<longrightarrow> 11 \<le> 5 * card (callers one_inside)"
    using gate_drains[OF one_inside_reachable] by blast
  ultimately show ?thesis by simp
qed

subsection \<open>The reconcilers\<close>

theorem dry_run_writes_nothing_witness:
  "reads_only (DeviceReconciler_Reconcile memory_kube (demo_cfg\<lparr>DryRun := True\<rparr>) demo_request) \<and>
    reads_only (IngressDNSReconciler_Reconcile memory_kube (demo_cfg\<lparr>DryRun := True\<rparr>) demo_request) \<and>
    reads_only (LoadBalancerDNSReconciler_Reconcile memory_kube (demo_cfg\<lparr>DryRun := True\<rparr>) demo_request)"
  by (rule dry_run_writes_nothing) simp

theorem reconcile_gated_witness:
  "gate_held (gate_keys demo_after) = gate_held (gate_keys demo_state)"
  using reconcile_gated[OF demo_run] by blast

lemma demo_trace: "trace demo_state = []"
  by (simp add: demo_state_def)

theorem device_reconcile_order_witness:
  "sorted (map phase (trace demo_after)) \<and> list_all (\<lambda>e. \<not> failed memory_kube e) (trace demo_after)"
  using device_reconcile_order[OF demo_run demo_trace] by blast

theorem device_reconcile_complete_witness:
  "\<exists>devices networks. ListedDevices ''home'' (Inr devices) \<in> set (trace demo_after) \<and>
    ListedNetworks ''home'' (Inr networks) \<in> set (trace demo_after) \<and>
    achieved memory_kube demo_cfg (device_output devices networks demo_cfg) (set (trace demo_after))"
  using device_reconcile_complete[OF _ _ demo_trace demo_run]
  by (simp add: demo_cfg_def demo_request_def no_result_def)

theorem device_writes_justified_witness:
  "\<exists>devices networks. ListedDevices ''home'' (Inr devices) \<in> set (trace demo_after) \<and>
    ListedNetworks ''home'' (Inr networks) \<in> set (trace demo_after) \<and>
    justified memory_kube demo_cfg (device_output devices networks demo_cfg) devices networks
      (set (trace demo_after)) (Deleted demo_stale None)"
  using device_writes_justified[OF demo_run demo_trace demo_deletes]
  by (simp add: demo_request_def)

subsection \<open>Convergence\<close>

lemma demo_settled:
  "settled memory_kube demo_cfg (device_output (m_devices demo_memory) [] demo_cfg) (m_content (world demo_second))"
proof -
  have same: "m_content (world demo_second) = m_content (world demo_after)"
    by (rule m_content_cong) (simp add: demo_objects demo_second_def)
  have "EnableDeviceBasedHosts demo_cfg" "\<not> DryRun demo_cfg" by (simp_all add: demo_cfg_def)
  from leads_run[OF device_reconcile_leads[OF memory_library memory_cluster this] demo_run refl demo_trace]
  obtain devices networks where
    "ListedDevices ''home'' (Inr devices) \<in> set (trace demo_after)"
    "ListedNetworks ''home'' (Inr networks) \<in> set (trace demo_after)"
    and "settled memory_kube demo_cfg (device_output devices networks demo_cfg) (m_content (world demo_after))"
    by (auto simp: namespace_converged_def converged_def demo_request_def no_result_def)
  moreover from this(1,2) demo_lists have "devices = m_devices demo_memory" "networks = []"
    unfolding list_all_iff by (fastforce)+
  ultimately show ?thesis by (simp add: same)
qed

theorem device_reconcile_converges_witness:
  "\<exists>devices networks. ListedDevices ''home'' (Inr devices) \<in> set (trace demo_after) \<and>
    ListedNetworks ''home'' (Inr networks) \<in> set (trace demo_after) \<and>
    reconciled memory_kube demo_cfg (device_output devices networks demo_cfg)
      (m_content demo_memory) (m_content (world demo_after)) \<and>
    settled memory_kube demo_cfg (device_output devices networks demo_cfg) (m_content (world demo_after))"
  using device_reconcile_converges[OF memory_library memory_cluster _ _ demo_trace demo_run]
  by (simp add: demo_cfg_def demo_request_def no_result_def demo_state_def)

theorem device_reconcile_idle_witness: "list_all idle (trace demo_again)"
proof (rule device_reconcile_idle[OF memory_library memory_cluster _ _ _ demo_rerun])
  show "trace demo_second = []" by (simp add: demo_second_def demo_state_def)
  fix devices networks
  assume "ListedDevices (req_Namespace demo_request) (Inr devices) \<in> set (trace demo_again)"
    and "ListedNetworks (req_Namespace demo_request) (Inr networks) \<in> set (trace demo_again)"
  with demo_lists_again have "devices = m_devices demo_memory" "networks = []"
    unfolding list_all_iff by fastforce+
  then show "settled memory_kube demo_cfg (device_output devices networks demo_cfg) (m_content (world demo_second))"
    using demo_settled by simp
qed (simp_all add: demo_cfg_def no_result_def)

theorem aggregates_converge_witness:
  "lb_converged memory_kube demo_cfg (m_content (world lb_state)) (trace lb_after) (m_content (world lb_after))"
proof -
  have "trace lb_state = []" by (simp add: lb_state_def demo_state_def)
  moreover have "\<not> DryRun demo_cfg" "EnableIngressBasedDNSHosts demo_cfg" "EnableLoadBalancerBasedDNSHosts demo_cfg"
    by (simp_all add: demo_cfg_def)
  ultimately show ?thesis
    using leads_run[OF aggregates_converge[OF memory_library memory_cluster, THEN conjunct2] lb_demo_run refl]
    by (simp add: no_result_def)
qed

text \<open>The bound on the calls of the load balancer reconciler is attained.\<close>

lemma lb_calls_attained: "total client_calls (trace lb_after) = 6"
  by code_simp

subsection \<open>Normal form and events\<close>

theorem NormalizeDnsHosts_normal_form_witness:
  "NormalizeDnsHosts (NormalizeDnsHosts \<lparr>dns_Controller = [], dns_Hosts = take 2 unstable_hosts\<rparr>) =
    NormalizeDnsHosts \<lparr>dns_Controller = [], dns_Hosts = take 2 unstable_hosts\<rparr>"
proof -
  have "list_all parses (dns_Hosts \<lparr>dns_Controller = [], dns_Hosts = take 2 unstable_hosts\<rparr>)" by code_simp
  from NormalizeDnsHosts_normal_form[OF this] show ?thesis by blast
qed

theorem lb_type_change_missed_witness:
  "\<not> lbOnly (UpdateEvent (ServiceObject (demo_service ServiceTypeLoadBalancer))
      (ServiceObject (demo_service ServiceTypeClusterIP))) \<and>
    ''10.0.0.90'' \<in> dns_IP ` lb_entries ''.lb'' [demo_service ServiceTypeLoadBalancer] \<and>
    ''10.0.0.90'' \<notin> dns_IP ` lb_entries ''.lb'' [demo_service ServiceTypeClusterIP]"
  using lb_type_change_missed[of "demo_service ServiceTypeLoadBalancer" "demo_service ServiceTypeClusterIP" "[]" "''.lb''"]
  by (simp add: demo_service_def service_ip_def)

subsection \<open>Settings\<close>

theorem splitCommaList_roundtrip_witness:
  "splitCommaList ''home, lan ,,lan'' = [''home'', ''lan'', ''lan''] \<and>
    splitCommaList ''home,lan'' = [''home'', ''lan'']"
proof -
  have split: "strings_Join [''home'', '' lan '', [], ''lan''] '','' = ''home, lan ,,lan''"
    and plain: "strings_Join [''home'', ''lan''] '','' = ''home,lan''"
    by simp_all
  have trim: "strings_TrimSpace ''home'' = ''home''" "strings_TrimSpace '' lan '' = ''lan''"
    "strings_TrimSpace [] = []" "strings_TrimSpace ''lan'' = ''lan''"
    by code_simp+
  have "list_all (\<lambda>p. CHR '','' \<notin> set p) [''home'', '' lan '', [], ''lan'']"
    and "list_all (\<lambda>p. CHR '','' \<notin> set p) [''home'', ''lan'']"
    by simp_all
  from this[THEN splitCommaList_roundtrip] show ?thesis
    unfolding split plain by (simp add: trim)
qed

subsection \<open>Statuses\<close>

definition demo_told :: Device where
  "demo_told = (demo_device ''nas'' ''lan'' ''10.0.0.5'')\<lparr>d_Status :=
    fst (run_state (device_status memory_kube (net_names []) True [] (demo_device ''nas'' ''lan'' ''10.0.0.5'')) demo_state)\<rparr>"

theorem device_statuses_settle_witness:
  "trace (snd (run_state (updateDeviceStatuses memory_kube demo_cfg [demo_told] [] True []) demo_state)) = []"
proof -
  have "traces (updateDeviceStatuses memory_kube demo_cfg [demo_told] [] True []) (\<lambda>_ es. es = [])"
    by (rule device_statuses_settle[OF memory_SetStatusCondition, where ok = True and msg = "[]"])
      (auto simp: demo_told_def)
  then show ?thesis unfolding traces_def by (simp add: demo_state_def)
qed

theorem router_generation_stale_witness:
  "trace (snd (run_state (updateRouterStatuses memory_kube demo_cfg
    [(demo_router ''front'' ''10.0.0.81'')\<lparr>Generation := 2, ir_Status :=
      fst (run_state (router_status memory_kube True [] (demo_router ''front'' ''10.0.0.81'')) demo_state)\<rparr>]
    True []) demo_state)) = []"
proof -
  have "traces (updateRouterStatuses memory_kube demo_cfg
    [(demo_router ''front'' ''10.0.0.81'')\<lparr>Generation := 2, ir_Status :=
      fst (run_state (router_status memory_kube True [] (demo_router ''front'' ''10.0.0.81'')) demo_state)\<rparr>]
    True []) (\<lambda>_ es. es = [])"
    by (rule router_generation_stale[OF memory_SetStatusCondition, where ok = True and msg = "[]"]) auto
  then show ?thesis unfolding traces_def by (simp add: demo_state_def)
qed

definition old_condition :: Condition where
  "old_condition = \<lparr>c_Type = ''NetworkAvailable'', c_Status = ConditionTrue, c_Reason = ''NetworkFound'',
    c_Message = [], c_LastTransitionTime = Some (-5)\<rparr>"

definition restamped :: "Condition list" where
  "restamped = fst (run_state (network_available memory_kube (net_names two_networks)
    (demo_device ''nas'' ''lan'' ''10.0.0.5'') [old_condition]) demo_state)"

theorem network_available_restamped_witness:
  "map_option c_LastTransitionTime (condition_of ''NetworkAvailable'' restamped) \<noteq>
    Some (c_LastTransitionTime old_condition)"
proof -
  have run: "run_state (network_available memory_kube (net_names two_networks)
      (demo_device ''nas'' ''lan'' ''10.0.0.5'') [old_condition]) demo_state =
    (restamped, snd (run_state (network_available memory_kube (net_names two_networks)
      (demo_device ''nas'' ''lan'' ''10.0.0.5'') [old_condition]) demo_state))"
    by (simp add: restamped_def)
  have "has_net two_networks (demo_device ''nas'' ''lan'' ''10.0.0.5'')"
    by (simp add: has_net_def two_defs)
  from network_available_restamped[OF memory_SetStatusCondition this run] show ?thesis
    by (auto simp: demo_state_def demo_memory_def old_condition_def)
qed

theorem device_status_truthful_witness:
  "\<exists>dev r networks. UpdatedDevice dev r \<in> set (trace demo_after) \<and> Name dev = ''nas'' \<and>
    ListedNetworks ''home'' (Inr networks) \<in> set (trace demo_after) \<and> tells networks None dev"
proof -
  from demo_updates obtain dev r where dev: "UpdatedDevice dev r \<in> set (trace demo_after)" "Name dev = ''nas''"
    by (auto simp: list_ex_iff elim!: updates_nas.elims(2))
  from device_status_truthful[OF memory_SetStatusCondition demo_run demo_trace dev(1)] dev
  show ?thesis by (auto simp: demo_request_def)
qed

theorem parse_new_roundtrip_witness:
  "ParseDhcpOptionsSpec memory_kube (\<lambda>what _ _. GoError 0 what)
      (NewDhcpOptions memory_kube ''device-based-hosts'' ''kube-system''
        \<lparr>opts_Controller = [], opts_Options =
          [\<lparr>opt_Key = ''option:domain-search'', opt_Values = [''valdron.ca'', ''int.valdron.ca''], opt_Tags = []\<rparr>]\<rparr>) =
    (\<lparr>opts_Controller = [], opts_Options =
       [\<lparr>opt_Key = ''option:domain-search'', opt_Values = [''valdron.ca'', ''int.valdron.ca''], opt_Tags = []\<rparr>]\<rparr>,
     None)"
  using parse_new_roundtrip[OF memory_NestedMap memory_SetNestedMap] by blast

subsection \<open>The scheme\<close>

text \<open>A scheme that is the set of its kinds, with the kinds of client-go the operator uses.\<close>

definition clientgo_kinds :: "GroupVersionKind set" where
  "clientgo_kinds = {WithKind core ''ConfigMap'', WithKind core ''ServiceList'', WithKind core ''Service'',
     WithKind networking ''IngressList'', WithKind networking ''Ingress''}"

fun run_builder :: "'s SchemeBuilder \<Rightarrow> 's scheme_func" where
  "run_builder [] s = Inr s"
| "run_builder (f # fs) s = (case f s of Inl e \<Rightarrow> Inl e | Inr s \<Rightarrow> run_builder fs s)"

definition set_scheme :: "GroupVersionKind set scheme_lib" where
  "set_scheme = \<lparr>
     AddKnownTypes = \<lambda>gv kinds s. s \<union> WithKind gv ` set kinds,
     AddKnownTypeWithName = insert,
     AddToGroupVersion = \<lambda>_ s. s,
     Register = \<lambda>f fs. fs @ [f],
     Builder_AddToScheme = run_builder,
     clientgo_AddToScheme = \<lambda>s. Inr (s \<union> clientgo_kinds)\<rparr>"

lemma set_scheme_documented: "documented_scheme set_scheme (\<lambda>s. s)"
  unfolding documented_scheme_def by (auto simp: set_scheme_def clientgo_kinds_def split: sum.splits)

theorem scheme_complete_witness:
  "\<exists>s'. main_init set_scheme {} = Inr s' \<and>
    calls_only (\<lambda>e. used_kinds e \<subseteq> s') (DeviceReconciler_Reconcile memory_kube demo_cfg demo_request)"
proof -
  have "clientgo_AddToScheme set_scheme {} = Inr clientgo_kinds"
    by (simp add: set_scheme_def)
  from scheme_complete[OF set_scheme_documented this, of memory_kube demo_cfg demo_request]
  show ?thesis by blast
qed

subsection \<open>Configuration\<close>

definition radius_env :: environ where
  "radius_env key = (if key = ''ENABLE_FREERADIUS_DEVICES'' then Some ''true'' else None)"

theorem resources_namespace_flag_witness:
  "main_config radius_env (\<lambda>_. None) [''--dnsmasq-resources-namespace=dns''] =
      Inr ((Load radius_env)\<lparr>DnsmasqResourcesNamespace := ''dns''\<rparr>) \<and>
    FreeRadiusDevicesNamespace (Load radius_env) = ''default''"
proof -
  have "EnableFreeRadiusDevices (Load radius_env)" and "list_all clean_entry (DnsmasqDomainSearch (Load radius_env))"
    and "os_Getenv radius_env ''FREERADIUS_DEVICES_NAMESPACE'' = []"
    and "DnsmasqResourcesNamespace (Load radius_env) = ''default''"
    by code_simp+
  then show ?thesis
    using resources_namespace_flag[of radius_env "\<lambda>_. None" "''dns''"] by simp
qed

text \<open>The environment names one namespace and the flag another: the flag is ignored.\<close>

definition watch_env :: environ where
  "watch_env key = (if key = ''HOMELAB_WATCH_NAMESPACES'' then Some ''lan'' else None)"

lemma watch_flag_run:
  "main_config watch_env (\<lambda>_. None) [''--homelab-watch-namespaces=home''] = Inr (Load watch_env)"
  by code_simp

theorem watch_flag_ignored_witness:
  "map_sum (\<lambda>e. e) WatchNamespaces
      (main_config watch_env (\<lambda>_. None) [''--homelab-watch-namespaces=home'']) = Inr [''lan'']"
proof -
  have "WatchNamespaces (Load watch_env) = [''lan'']" by code_simp
  then show ?thesis using watch_flag_ignored[OF watch_flag_run] watch_flag_run by simp
qed

end
