(* ===== verification/Spec2Isabelle.thy ===== *)
theory Spec2Isabelle
  imports Witnesses
begin

text \<open>
  A verification library for homelab-operator, a Kubernetes operator in Go. All paths below are
  under \<open>src/\<close>.

  \<^bold>\<open>The program.\<close> The operator keeps objects of the dnsmasq and FreeRADIUS operators in line with
  a home network described by custom resources. \<open>cmd/main.go\<close> loads the configuration from the
  environment and the command line and starts a manager with three controllers
  (\<open>internal/controller\<close>). The device controller turns the Devices and Networks of a namespace
  into one DhcpOptions object and, per network, a DhcpHosts and a DnsHosts object, and into
  FreeRADIUS devices; the ingress and the load balancer controller turn the cluster's Ingresses and
  HTTPRoutes, and its LoadBalancer Services, into one DnsHosts object each. A reconcile reads its
  inputs, computes the desired state (\<open>internal/desired\<close>, pure functions), plans and applies each
  object (\<open>internal/ensure\<close>), deletes managed objects that are no longer wanted (devices only),
  writes statuses and logs a summary. A gate lets one reconcile per key run at a time; watch events
  are mapped to requests, and leave a trigger for the log.

  \<^bold>\<open>The model.\<close> The definitions follow the source function by function, with the source's names.
  \<^item> Data: \<open>Prelude\<close> (Go maps as association lists, generic lemmas, the locale \<open>group_by\<close> of the
    grouping loops), \<open>ApiTypes\<close> (\<open>api/v1\<close> and the fields read of Kubernetes' types, as records of
    values), \<open>DeepCopy\<close> (\<open>api/v1/zz_generated.deepcopy.go\<close>, where structs have their pointers and
    slices), \<open>Scheme\<close> (the registration of types in \<open>api/v1\<close>, \<open>internal/scheme\<close> and \<open>main\<close>).
  \<^item> Language and standard library: \<open>GoStd\<close> (\<open>cmp\<close>, \<open>slices\<close>, \<open>strconv\<close>), \<open>GoStrings\<close> (\<open>strings\<close>
    on bytes), \<open>NetIP\<close> (\<open>netip.ParseAddr\<close>, \<open>Compare\<close>), \<open>GoJson\<close> (\<open>encoding/json\<close> into structs),
    \<open>GoMemory\<close> (pointers, slices and the arrays behind them); package \<open>flag\<close> is in \<open>Flags\<close>.
  \<^item> Configuration: \<open>Config\<close> (\<open>internal/config/config.go\<close>, \<open>domain_search.go\<close>), \<open>Flags\<close>
    (\<open>flags.go\<close> and the configuration part of \<open>main\<close>), \<open>Startup\<close> (the rest of \<open>main\<close>).
  \<^item> Desired state: \<open>DnsSpec\<close> (\<open>internal/dnsmasq/spec.go\<close>), \<open>DesiredDevice\<close>, \<open>DesiredIngress\<close>,
    \<open>DesiredLB\<close> (the three files of \<open>internal/desired\<close>), \<open>DnsObjects\<close> (\<open>gvk.go\<close>, the constructors
    of \<open>unstructured.go\<close>, \<open>internal/labels\<close>), \<open>Parse\<close> (its parse functions).
  \<^item> Effects: \<open>Kube\<close> holds the functions of apimachinery and controller-runtime the source calls,
    as a record of parameters over an arbitrary world, and the state of a reconciler: that world,
    the keys of its gate, its triggers, and a ghost trace of the calls made with their answers.
    Reconcilers are programs of the state monad; a Go error is \<open>Inl\<close> or an option. \<open>Ensure\<close>
    (\<open>internal/ensure\<close>), \<open>Gate\<close>, \<open>Trigger\<close>, \<open>ReconcileLog\<close> (\<open>reconcile_gate.go\<close>,
    \<open>reconcile_trigger.go\<close>, \<open>reconcile_log.go\<close>), \<open>DeviceController\<close>, \<open>IngressController\<close>,
    \<open>LBController\<close> (the three controllers), \<open>Watches\<close> (their \<open>SetupWithManager\<close>).

  \<^bold>\<open>The theorems.\<close> They hold for every answer the cluster may give, since the parameters are
  arbitrary; where a theorem relies on documented behaviour of a library function it says so in a
  hypothesis \<open>documented_...\<close>, and \<open>Memory\<close>, a cluster in memory, shows that all of them can
  hold together.
  \<^item> Desired state: what the pure functions compute, in closed form, and that the order of the
    listed objects does not matter (\<open>DesiredDevice\<close>, \<open>DesiredIngress\<close>, \<open>DesiredLB\<close>, \<open>DnsSpec\<close>).
  \<^item> Objects: parsing gives back what was constructed, and is type-safe on any object (\<open>Parse\<close>).
  \<^item> Plans and applies: what they change, and that a plan after an apply is empty (\<open>Ensure\<close>).
  \<^item> The device reconciler: its writes are justified by what it read (\<open>DeviceSafety\<close>), its success
    means that everything wanted is there and everything unwanted is gone (\<open>DeviceOutcome\<close>), its
    calls are in order and stop at a failure (\<open>DeviceOrder\<close>), its statuses are true
    (\<open>StatusReports\<close>) and written once (\<open>Statuses\<close>, locale \<open>settling\<close> for the three loops).
  \<^item> The other two reconcilers: their runs, call by call (\<open>AggregateRuns\<close>).
  \<^item> Refinement of the operator's purpose, as a state of the cluster: a successful reconcile leaves
    every wanted object stored with its spec and labels and no unwanted one that is managed, and
    touches nothing else (\<open>Convergence\<close>, \<open>AggregateConvergence\<close>); a second reconcile of what has
    not changed plans no change. \<open>Cluster\<close> holds the content of a cluster as an abstraction of the
    world, what the API server documents of reads and writes (\<open>documented_cluster\<close>) and triples
    over programs and contents, \<open>Content\<close> those of the operations.
  \<^item> All three: dry-run writes nothing, the gate is left as found (\<open>Reconcilers\<close>, locale
    \<open>aggregate_reconciler\<close>), every input is watched (\<open>Watches\<close>), every kind used is registered
    (\<open>Scheme\<close>), the number of calls is bounded (\<open>Bounds\<close>, calls paid for by the answers to lists, an
    apply counted as the read and the write of \<open>CreateOrUpdate\<close>).
  \<^item> The gate: mutual exclusion and freedom from deadlock under any interleaving of goroutines
    (\<open>Gate\<close>, locale \<open>key_gate\<close>, an inductive step relation), and that calls end (\<open>GateDrain\<close>, by
    a measure on the steps left); triggers coalesce (\<open>Trigger\<close>).
  \<^item> The deep copies: each is an equal value in new memory, independent of the original (\<open>DeepCopy\<close>,
    from the locale \<open>deep_copy\<close> of \<open>GoMemory\<close> and the ways deep copies compose).
  \<^item> Configuration: how the flags and the environment combine (\<open>Flags\<close>), start-up (\<open>Startup\<close>).
  \<^item> \<open>Demo\<close> and \<open>Witnesses\<close> evaluate example runs that meet the hypotheses.

  Some theorems state behaviour the authors will not have intended (two flags without effect, a
  Service event that is missed, objects that are never pruned, statuses that go stale); their text
  says so.

  \<^bold>\<open>Bounds.\<close> Every loop of the source ends and is structural recursion; there is no fuel. The two
  integers of the specs and the generation are 64-bit words. \<open>slices.SortFunc\<close> is the insertion
  sort the library runs on at most twelve elements; the theorems about sorted lists hold for any
  ordered permutation where the comparison separates the elements, which is what they assume.

  \<^bold>\<open>Not modelled.\<close> controller-runtime itself: queues, caches, leader election, retries; the
  servers and the logger \<open>main\<close> configures; pointers into the middle of a struct other than as
  the value of the field (\<open>DeepCopy\<close>); nil slices and empty slices are told apart in \<open>DeepCopy\<close>
  only; sharing of memory between the objects of a reconcile, whose structs are values; the
  contents of log messages beyond their values, and of JSON decoding errors; YAML, tests and the
  container.
\<close>

end
